(* ===== verification/Prelude.thy ===== *)
theory Prelude
  imports Main "HOL-Library.Word" "HOL-Library.Sublist" "HOL-Library.Code_Target_Nat"
begin

text \<open>
  What the component theories share: the outcome of a Go call that may panic, the collections
  of simplification and introduction rules the component proofs draw on, and generic facts on
  lists, options and association lists.
\<close>

named_theorems go_defs \<open>definitions of the standard-library functions, to evaluate them\<close>
named_theorems frame \<open>what an operation leaves unchanged\<close>
named_theorems keeps_inv \<open>an operation keeps the invariant of its component\<close>

section \<open>Outcomes of calls that may panic\<close>

text \<open>
  A slice expression out of range, a send on a closed channel or a nil dereference panics in
  Go: it unwinds the goroutine instead of returning. \<open>Panic\<close> is that outcome.
\<close>

datatype 'a outcome = Panic | Return 'a

fun bind_outcome :: "'a outcome \<Rightarrow> ('a \<Rightarrow> 'b outcome) \<Rightarrow> 'b outcome" where
  "bind_outcome Panic f = Panic"
| "bind_outcome (Return x) f = f x"

lemma bind_outcome_Panic_iff:
  "bind_outcome m f = Panic \<longleftrightarrow> m = Panic \<or> (\<exists>x. m = Return x \<and> f x = Panic)"
  by (cases m) simp_all

lemma bind_outcome_Return_iff:
  "bind_outcome m f = Return y \<longleftrightarrow> (\<exists>x. m = Return x \<and> f x = Return y)"
  by (cases m) auto

section \<open>Lists and association lists\<close>

lemma filter_concat_map: "filter P (concat (map f xs)) = concat (map (\<lambda>x. filter P (f x)) xs)"
  by (induction xs) auto

lemma map_of_size [termination_simp]:
  fixes f :: "'b \<Rightarrow> nat"
  shows "map_of kvs k = Some v \<Longrightarrow> f v < Suc (size_list (size_prod (\<lambda>_. 0) f) kvs)"
  by (induction kvs) (auto split: if_splits)

lemma find_append:
  "find P (xs @ ys) = (case find P xs of Some x \<Rightarrow> Some x | None \<Rightarrow> find P ys)"
  by (induction xs) auto

lemma take_prefix_of: "prefix (take n xs) xs"
  by (rule take_is_prefix)

lemma enumerate_snoc: "enumerate n (xs @ [x]) = enumerate n xs @ [(n + length xs, x)]"
  by (simp add: enumerate_append_eq)

end
