(* ===== verification/Go_Text.thy ===== *)
theory Go_Text
  imports Prelude Unicode_Case
begin

text \<open>
  The part of Go's \<open>strings\<close>, \<open>unicode/utf8\<close>, \<open>strconv\<close> and \<open>fmt\<close> that the sidecar
  calls. A Go string is a sequence of bytes and so is a \<^typ>\<open>string\<close> here (one
  \<^typ>\<open>char\<close> per byte); runes are \<^typ>\<open>nat\<close>. Decoding follows \<open>utf8.DecodeRune\<close>: an
  invalid byte yields \<open>U+FFFD\<close> with width 1. Functions that Go implements with an ASCII fast
  path are given by their documented result.
\<close>

section \<open>Bytes and UTF-8\<close>

definition byte :: "char \<Rightarrow> nat" where
  "byte c = of_char c"

definition rune_error :: nat where
  "rune_error = 65533"

text \<open>Length of the encoding a first byte announces; 0 when no encoding starts with it.\<close>

definition seq_len :: "nat \<Rightarrow> nat" where
  "seq_len p0 =
     (if p0 < 128 then 1
      else if 194 \<le> p0 \<and> p0 \<le> 223 then 2
      else if 224 \<le> p0 \<and> p0 \<le> 239 then 3
      else if 240 \<le> p0 \<and> p0 \<le> 244 then 4
      else 0)"

text \<open>The accepted second bytes: they rule out overlong forms, surrogates and values above 10FFFF.\<close>

definition accept_second :: "nat \<Rightarrow> nat \<Rightarrow> bool" where
  "accept_second p0 b1 =
     (if p0 = 224 then 160 \<le> b1 \<and> b1 \<le> 191
      else if p0 = 237 then 128 \<le> b1 \<and> b1 \<le> 159
      else if p0 = 240 then 144 \<le> b1 \<and> b1 \<le> 191
      else if p0 = 244 then 128 \<le> b1 \<and> b1 \<le> 143
      else 128 \<le> b1 \<and> b1 \<le> 191)"

definition continuation :: "nat \<Rightarrow> bool" where
  "continuation b \<longleftrightarrow> 128 \<le> b \<and> b \<le> 191"

definition decode_rune :: "string \<Rightarrow> nat \<times> nat" where
  "decode_rune s =
     (case s of
        [] \<Rightarrow> (rune_error, 0)
      | c0 # t \<Rightarrow>
          let p0 = byte c0; n = seq_len p0 in
          if n = 1 then (p0, 1)
          else if n = 0 \<or> length s < n then (rune_error, 1)
          else let b1 = byte (t ! 0) in
          if \<not> accept_second p0 b1 then (rune_error, 1)
          else if n = 2 then ((p0 mod 32) * 64 + b1 mod 64, 2)
          else let b2 = byte (t ! 1) in
          if \<not> continuation b2 then (rune_error, 1)
          else if n = 3 then ((p0 mod 16) * 4096 + (b1 mod 64) * 64 + b2 mod 64, 3)
          else let b3 = byte (t ! 2) in
          if \<not> continuation b3 then (rune_error, 1)
          else ((p0 mod 8) * 262144 + (b1 mod 64) * 4096 + (b2 mod 64) * 64 + b3 mod 64, 4))"

text \<open>\<open>string(r)\<close> and \<open>strings.Builder.WriteRune\<close>: surrogates and out-of-range values become
  \<open>U+FFFD\<close>.\<close>

definition encode_rune :: "nat \<Rightarrow> string" where
  "encode_rune r0 =
     (let r = (if 55296 \<le> r0 \<and> r0 \<le> 57343 \<or> 1114111 < r0 then rune_error else r0) in
      if r < 128 then [char_of r]
      else if r < 2048 then [char_of (192 + r div 64), char_of (128 + r mod 64)]
      else if r < 65536 then
        [char_of (224 + r div 4096), char_of (128 + (r div 64) mod 64), char_of (128 + r mod 64)]
      else [char_of (240 + r div 262144), char_of (128 + (r div 4096) mod 64),
            char_of (128 + (r div 64) mod 64), char_of (128 + r mod 64)])"

definition rune_len :: "nat \<Rightarrow> nat" where
  "rune_len r = length (encode_rune r)"

lemma byte_less: "byte c < 256"
proof -
  have "byte c = byte c mod 256" by (simp add: byte_def)
  then show ?thesis by (metis mod_less_divisor zero_less_numeral)
qed

lemma decode_rune_Nil [simp]: "decode_rune [] = (rune_error, 0)"
  by (simp add: decode_rune_def)

lemma decode_rune_width_pos: "s \<noteq> [] \<Longrightarrow> 1 \<le> snd (decode_rune s)"
  by (auto simp: decode_rune_def Let_def split: list.split)

lemma decode_rune_width_le: "snd (decode_rune s) \<le> length s"
  by (auto simp: decode_rune_def seq_len_def Let_def Suc_le_eq split: list.split)

lemma decode_rune_width_le_4: "snd (decode_rune s) \<le> 4"
  by (auto simp: decode_rune_def Let_def split: list.split)

lemma decode_rune_ascii [simp]: "byte c < 128 \<Longrightarrow> decode_rune (c # t) = (byte c, 1)"
  by (simp add: decode_rune_def seq_len_def Let_def)

text \<open>\<open>for index, r := range value\<close>: the byte index and rune of every iteration.\<close>

function range_string :: "nat \<Rightarrow> string \<Rightarrow> (nat \<times> nat) list" where
  "range_string i s =
     (if s = [] then []
      else let (r, n) = decode_rune s in (i, r) # range_string (i + n) (drop n s))"
  by pat_completeness auto
termination
proof (relation "measure (\<lambda>(i, s). length s)")
  show "wf (measure (\<lambda>(i, s). length s))" by simp
next
  fix i s x r n
  assume s: "s \<noteq> []" and x: "x = decode_rune s" and rn: "(r, n) = x"
  have "1 \<le> n" using decode_rune_width_pos [OF s] x rn by (metis snd_conv)
  then show "((i + n, drop n s), i, s) \<in> measure (\<lambda>(i, s). length s)"
    using s by simp
qed

declare range_string.simps [simp del]

lemma range_string_Nil [simp]: "range_string i [] = []"
  by (simp add: range_string.simps)

lemma range_string_Cons:
  "s \<noteq> [] \<Longrightarrow> range_string i s =
     (i, fst (decode_rune s)) # range_string (i + snd (decode_rune s)) (drop (snd (decode_rune s)) s)"
  by (subst range_string.simps) (simp split: prod.split)

lemma range_string_ascii [simp]:
  "byte c < 128 \<Longrightarrow> range_string i (c # t) = (i, byte c) # range_string (Suc i) t"
  by (simp add: range_string_Cons)

definition runes :: "string \<Rightarrow> nat list" where
  "runes s = map snd (range_string 0 s)"

text \<open>\<open>utf8.ValidString\<close>: no byte decodes to the error rune with width 1.\<close>

function valid_utf8 :: "string \<Rightarrow> bool" where
  "valid_utf8 s =
     (if s = [] then True
      else if decode_rune s = (rune_error, 1) then False
      else valid_utf8 (drop (snd (decode_rune s)) s))"
  by pat_completeness auto
termination
proof (relation "measure length")
  show "wf (measure length)" by simp
next
  fix s :: string
  assume "s \<noteq> []"
  then show "(drop (snd (decode_rune s)) s, s) \<in> measure length"
    using decode_rune_width_pos [of s] by simp
qed

declare valid_utf8.simps [simp del]

lemma valid_utf8_Nil [simp]: "valid_utf8 []"
  by (subst valid_utf8.simps) simp


subsection \<open>Decoding and encoding agree on lengths\<close>

lemma cont_mod: "128 \<le> b \<Longrightarrow> b \<le> 191 \<Longrightarrow> b mod 64 = b - (128::nat)"
proof -
  assume "128 \<le> b" "b \<le> 191"
  then have "b = (b - 128) + 64 * 2" "b - 128 < 64" by simp_all
  then show ?thesis by (metis mod_less mod_mult_self2)
qed

lemma first_mod2: "194 \<le> p \<Longrightarrow> p \<le> 223 \<Longrightarrow> p mod 32 = p - (192::nat)"
proof -
  assume "194 \<le> p" "p \<le> 223"
  then have "p = (p - 192) + 32 * 6" "p - 192 < 32" by simp_all
  then show ?thesis by (metis mod_less mod_mult_self2)
qed

lemma first_mod3: "224 \<le> p \<Longrightarrow> p \<le> 239 \<Longrightarrow> p mod 16 = p - (224::nat)"
proof -
  assume "224 \<le> p" "p \<le> 239"
  then have "p = (p - 224) + 16 * 14" "p - 224 < 16" by simp_all
  then show ?thesis by (metis mod_less mod_mult_self2)
qed

lemma first_mod4: "240 \<le> p \<Longrightarrow> p \<le> 244 \<Longrightarrow> p mod 8 = p - (240::nat)"
proof -
  assume "240 \<le> p" "p \<le> 244"
  then have "p = (p - 240) + 8 * 30" "p - 240 < 8" by simp_all
  then show ?thesis by (metis mod_less mod_mult_self2)
qed

lemma accept_second_range: "accept_second p0 b1 \<Longrightarrow> 128 \<le> b1 \<and> b1 \<le> 191"
  by (auto simp: accept_second_def split: if_splits)

lemma rune2_range:
  assumes "194 \<le> p0" "p0 \<le> 223" "accept_second p0 b1"
  shows "128 \<le> (p0 mod 32) * 64 + b1 mod 64" "(p0 mod 32) * 64 + b1 mod 64 < 2048"
proof -
  have b: "128 \<le> b1" "b1 \<le> 191" using accept_second_range [OF assms(3)] by auto
  have r: "(p0 mod 32) * 64 + b1 mod 64 = (p0 - 192) * 64 + (b1 - 128)"
    using assms b by (simp add: first_mod2 cont_mod)
  show "128 \<le> (p0 mod 32) * 64 + b1 mod 64" "(p0 mod 32) * 64 + b1 mod 64 < 2048"
    using assms(1,2) b unfolding r by linarith+
qed

lemma rune3_range:
  assumes p: "224 \<le> p0" "p0 \<le> 239" and a: "accept_second p0 b1" and c: "continuation b2"
  defines "r \<equiv> (p0 mod 16) * 4096 + (b1 mod 64) * 64 + b2 mod 64"
  shows "2048 \<le> r" "r < 65536" "r < 55296 \<or> 57343 < r"
proof -
  have b: "128 \<le> b1" "b1 \<le> 191" "128 \<le> b2" "b2 \<le> 191"
    using accept_second_range [OF a] c by (auto simp: continuation_def)
  have s: "p0 = 224 \<longrightarrow> 160 \<le> b1" "p0 = 237 \<longrightarrow> b1 \<le> 159"
    using a by (auto simp: accept_second_def split: if_splits)
  have r: "r = (p0 - 224) * 4096 + (b1 - 128) * 64 + (b2 - 128)"
    using p b by (simp add: r_def first_mod3 cont_mod)
  show "2048 \<le> r" "r < 65536" using p b s unfolding r by linarith+
  consider "p0 \<le> 236" | "p0 = 237" | "238 \<le> p0" by linarith
  then show "r < 55296 \<or> 57343 < r"
    by cases (use p b s in \<open>unfold r; linarith\<close>)+
qed

lemma rune4_range:
  assumes p: "240 \<le> p0" "p0 \<le> 244"
    and a: "accept_second p0 b1" and c: "continuation b2" "continuation b3"
  defines "r \<equiv> (p0 mod 8) * 262144 + (b1 mod 64) * 4096 + (b2 mod 64) * 64 + b3 mod 64"
  shows "65536 \<le> r" "r \<le> 1114111"
proof -
  have b: "128 \<le> b1" "b1 \<le> 191" "128 \<le> b2" "b2 \<le> 191" "128 \<le> b3" "b3 \<le> 191"
    using accept_second_range [OF a] c by (auto simp: continuation_def)
  have s: "p0 = 240 \<longrightarrow> 144 \<le> b1" "p0 = 244 \<longrightarrow> b1 \<le> 143"
    using a by (auto simp: accept_second_def split: if_splits)
  have r: "r = (p0 - 240) * 262144 + (b1 - 128) * 4096 + (b2 - 128) * 64 + (b3 - 128)"
    using p b by (simp add: r_def first_mod4 cont_mod)
  show "65536 \<le> r" "r \<le> 1114111"
    using p b s unfolding r by linarith+
qed

lemma rune_len_cases:
  "rune_len r = (if r < 128 then 1 else if r < 2048 then 2
     else if 55296 \<le> r \<and> r \<le> 57343 \<or> 1114111 < r \<or> r < 65536 then 3 else 4)"
  by (auto simp: rune_len_def encode_rune_def Let_def rune_error_def)

lemma decode_rune_2 [simp]:
  "194 \<le> byte c \<Longrightarrow> byte c \<le> 223 \<Longrightarrow> accept_second (byte c) (byte d) \<Longrightarrow>
   decode_rune (c # d # t) = ((byte c mod 32) * 64 + byte d mod 64, 2)"
  by (simp add: decode_rune_def seq_len_def)
lemma decode_rune_3 [simp]:
  "224 \<le> byte c \<Longrightarrow> byte c \<le> 239 \<Longrightarrow> accept_second (byte c) (byte d) \<Longrightarrow> continuation (byte e) \<Longrightarrow>
   decode_rune (c # d # e # t) = ((byte c mod 16) * 4096 + (byte d mod 64) * 64 + byte e mod 64, 3)"
  by (simp add: decode_rune_def seq_len_def)
lemma decode_rune_4 [simp]:
  "240 \<le> byte c \<Longrightarrow> byte c \<le> 244 \<Longrightarrow> accept_second (byte c) (byte d) \<Longrightarrow> continuation (byte e) \<Longrightarrow> continuation (byte f) \<Longrightarrow>
   decode_rune (c # d # e # f # t) = ((byte c mod 8) * 262144 + (byte d mod 64) * 4096 + (byte e mod 64) * 64 + byte f mod 64, 4)"
  by (simp add: decode_rune_def seq_len_def Let_def numeral_2_eq_2)

lemma decode_rune_cases:
  assumes "s \<noteq> []" "decode_rune s \<noteq> (rune_error, 1)"
  obtains
    c t where "s = c # t" "byte c < 128" "decode_rune s = (byte c, 1)"
  | c d t where "s = c # d # t" "194 \<le> byte c" "byte c \<le> 223" "accept_second (byte c) (byte d)"
      "snd (decode_rune s) = 2"
  | c d e t where "s = c # d # e # t" "224 \<le> byte c" "byte c \<le> 239" "accept_second (byte c) (byte d)"
      "continuation (byte e)" "snd (decode_rune s) = 3"
  | c d e f t where "s = c # d # e # f # t" "240 \<le> byte c" "byte c \<le> 244" "accept_second (byte c) (byte d)"
      "continuation (byte e)" "continuation (byte f)" "snd (decode_rune s) = 4"
proof -
  obtain c u where s: "s = c # u" using assms(1) by (cases s) auto
  have "seq_len (byte c) \<noteq> 0" using assms(2) s by (auto simp: decode_rune_def Let_def split: if_splits)
  then consider "byte c < 128" | "194 \<le> byte c" "byte c \<le> 223"
    | "224 \<le> byte c" "byte c \<le> 239" | "240 \<le> byte c" "byte c \<le> 244"
    by (auto simp: seq_len_def split: if_splits)
  then show ?thesis
  proof cases
    case 1
    with s that(1) show ?thesis by simp
  next
    case 2
    with assms(2) s have "\<not> length s < 2" by (auto simp: decode_rune_def seq_len_def)
    then obtain d t where u: "u = d # t" using s by (cases u) auto
    with 2 assms(2) s have "accept_second (byte c) (byte d)"
      by (auto simp: decode_rune_def seq_len_def Let_def split: if_splits)
    with 2 s u that(2) show ?thesis by simp
  next
    case 3
    with assms(2) s have "\<not> length s < 3" by (auto simp: decode_rune_def seq_len_def)
    then obtain d e t where u: "u = d # e # t" using s by (auto simp: numeral_3_eq_3 not_less Suc_le_length_iff)
    with 3 assms(2) s have "accept_second (byte c) (byte d)" "continuation (byte e)"
      by (auto simp: decode_rune_def seq_len_def Let_def split: if_splits)
    with 3 s u that(3) show ?thesis by simp
  next
    case 4
    with assms(2) s have "\<not> length s < 4" by (auto simp: decode_rune_def seq_len_def)
    then obtain d e f t where u: "u = d # e # f # t"
      using s by (auto simp: numeral_eq_Suc not_less Suc_le_length_iff)
    with 4 assms(2) s have "accept_second (byte c) (byte d)" "continuation (byte e)" "continuation (byte f)"
      by (auto simp: decode_rune_def seq_len_def Let_def numeral_2_eq_2 split: if_splits)
    with 4 s u that(4) show ?thesis by simp
  qed
qed

lemma decode_rune_take:
  assumes "decode_rune s \<noteq> (rune_error, 1)" and "snd (decode_rune s) \<le> j"
  shows "decode_rune (take j s) = decode_rune s"
proof (cases "s = []")
  case False
  from this assms(1) show ?thesis
  proof (cases rule: decode_rune_cases)
    case (1 c t)
    with assms(2) show ?thesis by (cases j) auto
  next
    case (2 c d t)
    then obtain k where "j = Suc (Suc k)" using assms(2) by (metis add_2_eq_Suc le_Suc_ex)
    with 2 show ?thesis by simp
  next
    case (3 c d e t)
    then obtain k where "j = Suc (Suc (Suc k))" using assms(2) by (metis add_Suc_right add_2_eq_Suc le_Suc_ex numeral_3_eq_3 add_Suc plus_nat.add_0)
    with 3 show ?thesis by simp
  next
    case (4 c d e f t)
    then obtain k where "j = 4 + k" using assms(2) by (metis le_Suc_ex)
    then have "j = Suc (Suc (Suc (Suc k)))" by simp
    with 4 show ?thesis by simp
  qed
qed simp

lemma decode_rune_take_short:
  assumes j: "j < snd (decode_rune s)" "0 < j"
  shows "decode_rune (take j s) = (rune_error, 1)"
proof -
  have "s \<noteq> []" "decode_rune s \<noteq> (rune_error, 1)" using j by auto
  then show ?thesis
  proof (cases rule: decode_rune_cases)
    case (1 c t)
    with j show ?thesis by simp
  next
    case (2 c d t)
    with j have "j = 1" by simp
    with 2 show ?thesis by (simp add: decode_rune_def seq_len_def)
  next
    case (3 c d e t)
    with j have "j = 1 \<or> j = 2" by auto
    with 3 show ?thesis by (elim disjE) (simp_all add: decode_rune_def seq_len_def)
  next
    case (4 c d e f t)
    with j have "j = 1 \<or> j = 2 \<or> j = 3" by auto
    with 4 show ?thesis by (elim disjE) (simp_all add: decode_rune_def seq_len_def)
  qed
qed

lemma decode_rune_len:
  assumes "s \<noteq> []"
  shows "rune_len (fst (decode_rune s)) =
           (if decode_rune s = (rune_error, 1) then 3 else snd (decode_rune s))"
proof (cases "decode_rune s = (rune_error, 1)")
  case True
  then show ?thesis by (simp add: rune_len_cases rune_error_def)
next
  case False
  with assms show ?thesis
  proof (cases rule: decode_rune_cases)
    case (1 c t)
    with False show ?thesis by (simp add: rune_len_cases)
  next
    case (2 c d t)
    with False rune2_range [OF 2(2-4)] show ?thesis by (simp add: rune_len_cases)
  next
    case (3 c d e t)
    with False rune3_range [OF 3(2-5)] show ?thesis by (auto simp: rune_len_cases)
  next
    case (4 c d e f t)
    with False rune4_range [OF 4(2-6)] show ?thesis by (auto simp: rune_len_cases)
  qed
qed

subsection \<open>Valid UTF-8\<close>

lemma valid_utf8_step:
  "s \<noteq> [] \<Longrightarrow> valid_utf8 s \<longleftrightarrow>
     decode_rune s \<noteq> (rune_error, 1) \<and> valid_utf8 (drop (snd (decode_rune s)) s)"
  by (subst valid_utf8.simps) simp

lemma valid_utf8_take_iff:
  assumes "s \<noteq> []" "valid_utf8 s" "0 < j"
  shows "valid_utf8 (take j s) \<longleftrightarrow>
     snd (decode_rune s) \<le> j \<and> valid_utf8 (take (j - snd (decode_rune s)) (drop (snd (decode_rune s)) s))"
proof (cases "snd (decode_rune s) \<le> j")
  case True
  have "decode_rune (take j s) = decode_rune s"
    using assms True by (intro decode_rune_take) (simp_all add: valid_utf8_step)
  then show ?thesis using assms True by (simp add: valid_utf8_step drop_take)
next
  case False
  then have "decode_rune (take j s) = (rune_error, 1)" using assms by (intro decode_rune_take_short) auto
  then show ?thesis using assms False by (simp add: valid_utf8_step)
qed

lemma decode_rune_append:
  assumes "s \<noteq> []" "decode_rune s \<noteq> (rune_error, 1)"
  shows "decode_rune (s @ t) = decode_rune s"
  using assms by (cases rule: decode_rune_cases) simp_all

lemma valid_utf8_append: "valid_utf8 s \<Longrightarrow> valid_utf8 t \<Longrightarrow> valid_utf8 (s @ t)"
proof (induction s rule: valid_utf8.induct)
  case (1 s)
  show ?case
  proof (cases "s = []")
    case False
    then have d: "decode_rune s \<noteq> (rune_error, 1)" and v: "valid_utf8 (drop (snd (decode_rune s)) s)"
      using 1(2) by (simp_all add: valid_utf8_step)
    have "valid_utf8 (drop (snd (decode_rune s)) s @ t)" using 1(1) [OF False d v 1(3)] .
    then show ?thesis
      using False d decode_rune_width_le [of s]
      by (subst valid_utf8.simps) (simp add: decode_rune_append)
  qed (use 1 in simp)
qed

lemma valid_utf8_ascii: "byte c < 128 \<Longrightarrow> valid_utf8 [c]"
  by (subst valid_utf8.simps) (simp add: rune_error_def)

lemma byte_char_of: "n < 256 \<Longrightarrow> byte (char_of n) = n"
  by (simp add: byte_def)

lemma valid_utf8_2:
  fixes a b :: nat
  assumes "2 \<le> a" "a < 32" "b < 64"
  shows "valid_utf8 [char_of (192 + a), char_of (128 + b)]"
proof -
  have "accept_second (192 + a) (128 + b)" using assms by (simp add: accept_second_def)
  with assms show ?thesis by (subst valid_utf8.simps) (simp add: byte_char_of)
qed

lemma valid_utf8_3:
  fixes a b c :: nat
  assumes "a < 16" "b < 64" "c < 64" "a = 0 \<longrightarrow> 32 \<le> b" "a = 13 \<longrightarrow> b < 32"
  shows "valid_utf8 [char_of (224 + a), char_of (128 + b), char_of (128 + c)]"
proof -
  have "accept_second (224 + a) (128 + b)" using assms by (auto simp: accept_second_def)
  with assms show ?thesis by (subst valid_utf8.simps) (simp add: byte_char_of continuation_def)
qed

lemma valid_utf8_4:
  fixes a b c d :: nat
  assumes "a \<le> 4" "b < 64" "c < 64" "d < 64" "a = 0 \<longrightarrow> 16 \<le> b" "a = 4 \<longrightarrow> b < 16"
  shows "valid_utf8 [char_of (240 + a), char_of (128 + b), char_of (128 + c), char_of (128 + d)]"
proof -
  have "accept_second (240 + a) (128 + b)" using assms by (auto simp: accept_second_def)
  with assms show ?thesis by (subst valid_utf8.simps) (simp add: byte_char_of continuation_def)
qed

lemma sextets:
  "(q :: nat) = 262144 * (q div 262144) + 4096 * (q div 4096 mod 64) + 64 * (q div 64 mod 64) + q mod 64"
proof -
  obtain x m where x: "q div 64 = x" "q mod 64 = m" "q = 64 * x + m" by (metis mult_div_mod_eq)
  obtain y n where y: "x div 64 = y" "x mod 64 = n" "x = 64 * y + n" by (metis mult_div_mod_eq)
  obtain z p where z: "y div 64 = z" "y mod 64 = p" "y = 64 * z + p" by (metis mult_div_mod_eq)
  have "q div 4096 = q div 64 div 64" "q div 262144 = q div 64 div 64 div 64"
    by (simp_all add: div_mult2_eq [symmetric])
  then have e: "q div 4096 = y" "q div 262144 = z" by (simp_all only: x(1) y(1) z(1))
  have "q = 64 * (64 * (64 * z + p) + n) + m" by (simp only: x(3) [symmetric] y(3) [symmetric] z(3) [symmetric])
  also have "\<dots> = 262144 * z + 4096 * p + 64 * n + m" by simp
  finally show ?thesis unfolding e x(1,2) y(2) z(2) .
qed

lemma encode_rune_valid: "valid_utf8 (encode_rune r)"
proof -
  define q where "q = (if 55296 \<le> r \<and> r \<le> 57343 \<or> 1114111 < r then rune_error else r)"
  have q: "q \<le> 1114111" "q < 55296 \<or> 57343 < q" by (auto simp: q_def rune_error_def)
  consider "q < 128" | "128 \<le> q" "q < 2048" | "2048 \<le> q" "q < 65536" | "65536 \<le> q" by linarith
  then show ?thesis
  proof cases
    case 1
    then show ?thesis by (simp add: encode_rune_def q_def [symmetric] valid_utf8_ascii byte_char_of)
  next
    case 2
    have "2 \<le> q div 64" "q div 64 < 32" using 2 by auto
    with 2 show ?thesis by (simp add: encode_rune_def q_def [symmetric] valid_utf8_2)
  next
    case 3
    define a b where "a = q div 4096" and "b = (q div 64) mod 64"
    have "q div 4096 = q div 64 div 64" by (simp add: div_mult2_eq [symmetric])
    then have qab: "q = 4096 * a + 64 * b + q mod 64"
      using mult_div_mod_eq [of 64 q] mult_div_mod_eq [of 64 "q div 64"] unfolding a_def b_def by linarith
    have a: "a < 16" "b < 64" "q mod 64 < 64" using 3 by (auto simp: a_def b_def)
    have "a = 0 \<longrightarrow> 32 \<le> b" "a = 13 \<longrightarrow> b < 32" using 3 q qab a by linarith+
    with 3 a show ?thesis
      by (simp add: encode_rune_def q_def [symmetric] a_def [symmetric] b_def [symmetric] valid_utf8_3)
  next
    case 4
    define a b c where "a = q div 262144" and "b = (q div 4096) mod 64" and "c = (q div 64) mod 64"
    have qab: "q = 262144 * a + 4096 * b + 64 * c + q mod 64"
      unfolding a_def b_def c_def by (rule sextets)
    have a: "a \<le> 4" "b < 64" "c < 64" "q mod 64 < 64" using q by (auto simp: a_def b_def c_def)
    have "a = 0 \<longrightarrow> 16 \<le> b" "a = 4 \<longrightarrow> b < 16" using 4 q qab a by linarith+
    with 4 a show ?thesis
      by (simp add: encode_rune_def q_def [symmetric] a_def [symmetric] b_def [symmetric]
          c_def [symmetric] valid_utf8_4)
  qed
qed

section \<open>TrimSpace\<close>

text \<open>\<open>unicode.IsSpace\<close>: White\_Space of Unicode.\<close>

definition is_space :: "nat \<Rightarrow> bool" where
  "is_space r \<longleftrightarrow>
     9 \<le> r \<and> r \<le> 13 \<or> r = 32 \<or> r = 133 \<or> r = 160 \<or> r = 5760 \<or> 8192 \<le> r \<and> r \<le> 8202
     \<or> r = 8232 \<or> r = 8233 \<or> r = 8239 \<or> r = 8287 \<or> r = 12288"

text \<open>
  \<open>utf8.DecodeLastRune\<close>: back up at most to the fourth byte from the end, to the first byte
  that can start an encoding; the encoding must end where the string does.
\<close>

definition decode_last_rune :: "string \<Rightarrow> nat \<times> nat" where
  "decode_last_rune s =
     (if s = [] then (rune_error, 0)
      else if byte (last s) < 128 then (byte (last s), 1)
      else case find (\<lambda>k. k \<le> length s \<and> \<not> continuation (byte (s ! (length s - k)))) [2, 3, 4] of
             None \<Rightarrow> (rune_error, 1)
           | Some k \<Rightarrow>
               let (r, n) = decode_rune (drop (length s - k) s)
               in if n = k then (r, n) else (rune_error, 1))"

lemma decode_last_rune_width_pos: "s \<noteq> [] \<Longrightarrow> 1 \<le> snd (decode_last_rune s)"
  by (auto simp: decode_last_rune_def split: option.split prod.split)

function trim_left :: "string \<Rightarrow> string" where
  "trim_left s =
     (if s = [] then []
      else if is_space (fst (decode_rune s)) then trim_left (drop (snd (decode_rune s)) s)
      else s)"
  by pat_completeness auto
termination
proof (relation "measure length")
  show "wf (measure length)" by simp
next
  fix s :: string
  assume "s \<noteq> []"
  then show "(drop (snd (decode_rune s)) s, s) \<in> measure length"
    using decode_rune_width_pos [of s] by simp
qed

function trim_right :: "string \<Rightarrow> string" where
  "trim_right s =
     (if s = [] then []
      else if is_space (fst (decode_last_rune s))
           then trim_right (take (length s - snd (decode_last_rune s)) s)
      else s)"
  by pat_completeness auto
termination
proof (relation "measure length")
  show "wf (measure length)" by simp
next
  fix s :: string
  assume "s \<noteq> []"
  then show "(take (length s - snd (decode_last_rune s)) s, s) \<in> measure length"
    using decode_last_rune_width_pos [of s] by (cases s) auto
qed

declare trim_left.simps [simp del] trim_right.simps [simp del]

definition trim_space :: "string \<Rightarrow> string" where
  "trim_space s = trim_right (trim_left s)"

lemma trim_left_Nil [simp]: "trim_left [] = []"
  by (subst trim_left.simps) simp

lemma trim_right_Nil [simp]: "trim_right [] = []"
  by (subst trim_right.simps) simp

lemma trim_space_Nil [simp]: "trim_space [] = []"
  by (simp add: trim_space_def)

lemma trim_left_suffix: "suffix (trim_left s) s"
proof (induction s rule: trim_left.induct)
  case (1 s)
  then show ?case
    by (subst trim_left.simps) (auto intro: suffix_order.trans suffix_drop)
qed

lemma trim_right_prefix: "prefix (trim_right s) s"
proof (induction s rule: trim_right.induct)
  case (1 s)
  then show ?case
    by (subst trim_right.simps) (auto intro: prefix_order.trans take_is_prefix)
qed

text \<open>Trimming only removes a prefix and a suffix.\<close>

lemma trim_space_sublist: "sublist (trim_space s) s"
  unfolding trim_space_def
  by (meson prefix_imp_sublist suffix_imp_sublist sublist_order.order.trans trim_left_suffix trim_right_prefix)

lemma set_trim_space: "set (trim_space s) \<subseteq> set s"
  by (rule set_mono_sublist [OF trim_space_sublist])

lemma length_trim_space: "length (trim_space s) \<le> length s"
  by (rule sublist_length_le [OF trim_space_sublist])

text \<open>
  Trimming is idempotent: what is left starts and ends with a rune that is not a space (or is
  empty).
\<close>

lemma trim_right_fixed: "trim_right (trim_right s) = trim_right s"
proof (induction s rule: trim_right.induct)
  case (1 s)
  show ?case
  proof (cases "s \<noteq> [] \<and> is_space (fst (decode_last_rune s))")
    case True
    then have "trim_right s = trim_right (take (length s - snd (decode_last_rune s)) s)"
      by (subst trim_right.simps) simp
    with 1 True show ?thesis by simp
  next
    case False
    then have "trim_right s = s" by (subst trim_right.simps) auto
    then show ?thesis by simp
  qed
qed

lemma trim_left_head: "trim_left s = [] \<or> \<not> is_space (fst (decode_rune (trim_left s)))"
proof (induction s rule: trim_left.induct)
  case (1 s)
  show ?case
  proof (cases "s \<noteq> [] \<and> is_space (fst (decode_rune s))")
    case True
    then have "trim_left s = trim_left (drop (snd (decode_rune s)) s)"
      by (subst trim_left.simps) simp
    with 1 True show ?thesis by simp
  next
    case False
    then have "trim_left s = s" by (subst trim_left.simps) auto
    with False show ?thesis by auto
  qed
qed

text \<open>On strings whose bytes are all ASCII, trimming is trimming of white-space bytes.\<close>

abbreviation ascii :: "string \<Rightarrow> bool" where
  "ascii s \<equiv> (\<forall>c \<in> set s. byte c < 128)"

lemma trim_left_ascii:
  "ascii s \<Longrightarrow> trim_left s = dropWhile (\<lambda>c. is_space (byte c)) s"
  by (induction s) (subst trim_left.simps, simp)+

lemma trim_right_snoc_ascii:
  "byte c < 128 \<Longrightarrow> trim_right (s @ [c]) = (if is_space (byte c) then trim_right s else s @ [c])"
  by (subst trim_right.simps) (simp add: decode_last_rune_def)

lemma trim_right_ascii:
  "ascii s \<Longrightarrow> trim_right s = rev (dropWhile (\<lambda>c. is_space (byte c)) (rev s))"
  by (induction s rule: rev_induct) (simp_all add: trim_right_snoc_ascii)

lemma trim_space_ascii:
  assumes "ascii s"
  shows "trim_space s = rev (dropWhile (\<lambda>c. is_space (byte c))
                          (rev (dropWhile (\<lambda>c. is_space (byte c)) s)))"
proof -
  have "ascii (dropWhile (\<lambda>c. is_space (byte c)) s)"
    using assms by (auto dest: set_dropWhileD)
  with assms show ?thesis by (simp add: trim_space_def trim_left_ascii trim_right_ascii)
qed

lemma trim_space_ascii_id:
  assumes "ascii s" and ns: "\<forall>c \<in> set s. \<not> is_space (byte c)"
  shows "trim_space s = s"
proof -
  have "dropWhile (\<lambda>c. is_space (byte c)) xs = xs" if "set xs = set s" for xs
    using ns that by (cases xs) auto
  then show ?thesis using assms(1) by (simp add: trim_space_ascii)
qed

section \<open>Case\<close>

definition ascii_lower :: "char \<Rightarrow> char" where
  "ascii_lower c = (if 65 \<le> byte c \<and> byte c \<le> 90 then char_of (byte c + 32) else c)"

text \<open>
  \<open>strings.ToLower\<close>: bytewise on ASCII strings, otherwise \<open>strings.Map(unicode.ToLower, s)\<close>,
  which re-encodes every rune and so turns each invalid byte into the three bytes of
  \<open>U+FFFD\<close>.
\<close>

definition to_lower :: "string \<Rightarrow> string" where
  "to_lower s =
     (if list_all (\<lambda>c. byte c < 128) s then map ascii_lower s
      else concat (map (\<lambda>r. encode_rune (unicode_to_lower r)) (runes s)))"

lemma to_lower_ascii: "ascii s \<Longrightarrow> to_lower s = map ascii_lower s"
  by (simp add: to_lower_def list_all_iff)

lemma to_lower_ascii_length: "ascii s \<Longrightarrow> length (to_lower s) = length s"
  by (simp add: to_lower_ascii)

text \<open>
  \<open>strings.EqualFold(s, t)\<close> for an ASCII \<open>t\<close>, the only way the sidecar calls it: runewise
  equality under simple case folding, whose only non-ASCII members are the Kelvin sign
  (with k) and the long s (with s).
\<close>

definition fold_eq_ascii :: "nat \<Rightarrow> nat \<Rightarrow> bool" where
  "fold_eq_ascii r c \<longleftrightarrow>
     (let l = unicode_to_lower c in
      r < 128 \<and> unicode_to_lower r = l \<or> r = 8490 \<and> l = 107 \<or> r = 383 \<and> l = 115)"

definition equal_fold :: "string \<Rightarrow> string \<Rightarrow> bool" where
  "equal_fold s t = list_all2 fold_eq_ascii (runes s) (map byte t)"

section \<open>Searching and splitting\<close>

text \<open>\<open>strings.Index\<close>, \<open>strings.Contains\<close>.\<close>

fun index_of :: "string \<Rightarrow> string \<Rightarrow> nat option" where
  "index_of [] sub = (if sub = [] then Some 0 else None)"
| "index_of (c # s) sub = (if prefix sub (c # s) then Some 0 else map_option Suc (index_of s sub))"

definition contains :: "string \<Rightarrow> string \<Rightarrow> bool" where
  "contains s sub \<longleftrightarrow> index_of s sub \<noteq> None"

lemma index_of_prefix: "index_of s sub = Some i \<Longrightarrow> prefix sub (drop i s)"
  by (induction s arbitrary: i) (auto split: if_splits)

lemma index_of_bound: "index_of s sub = Some i \<Longrightarrow> i + length sub \<le> length s"
proof (induction s arbitrary: i)
  case (Cons c s)
  then show ?case by (auto split: if_splits dest: prefix_length_le)
qed (auto split: if_splits)

lemma index_of_first: "index_of s sub = Some i \<Longrightarrow> j < i \<Longrightarrow> \<not> prefix sub (drop j s)"
proof (induction s arbitrary: i j)
  case (Cons c s)
  then show ?case by (cases j) (auto split: if_splits)
qed (auto split: if_splits)

lemma index_of_None: "index_of s sub = None \<longleftrightarrow> \<not> sublist sub s"
  by (induction s) (auto simp: sublist_Cons_right)

lemma contains_sublist: "contains s sub \<longleftrightarrow> sublist sub s"
  by (simp add: contains_def index_of_None)

text \<open>\<open>strings.SplitN(s, " ", 2)\<close>.\<close>

definition split_space_2 :: "string \<Rightarrow> string list" where
  "split_space_2 s =
     (case index_of s '' '' of None \<Rightarrow> [s] | Some i \<Rightarrow> [take i s, drop (Suc i) s])"

text \<open>\<open>strings.Split\<close> on a separator of one byte.\<close>

fun split_on :: "char \<Rightarrow> string \<Rightarrow> string list" where
  "split_on sep [] = [[]]"
| "split_on sep (c # s) =
     (if c = sep then [] # split_on sep s
      else case split_on sep s of [] \<Rightarrow> [[c]] | p # ps \<Rightarrow> (c # p) # ps)"

text \<open>\<open>strings.TrimRight(s, "/")\<close>, \<open>strings.TrimSuffix\<close>.\<close>

definition trim_right_slash :: "string \<Rightarrow> string" where
  "trim_right_slash s = rev (dropWhile (\<lambda>c. c = CHR ''/'') (rev s))"

definition trim_suffix :: "string \<Rightarrow> string \<Rightarrow> string" where
  "trim_suffix s x = (if suffix x s then take (length s - length x) s else s)"

text \<open>\<open>strings.Join\<close>.\<close>

fun join :: "string list \<Rightarrow> string \<Rightarrow> string" where
  "join [] sep = []"
| "join [x] sep = x"
| "join (x # y # xs) sep = x @ sep @ join (y # xs) sep"

section \<open>Numbers\<close>

text \<open>\<open>%d\<close> of \<open>fmt.Sprintf\<close> on a non-negative int, \<open>strconv.Itoa\<close>.\<close>

fun itoa :: "nat \<Rightarrow> string" where
  "itoa n = (if n < 10 then [char_of (48 + n)] else itoa (n div 10) @ [char_of (48 + n mod 10)])"

declare itoa.simps [simp del]

definition is_digit :: "char \<Rightarrow> bool" where
  "is_digit c \<longleftrightarrow> 48 \<le> byte c \<and> byte c \<le> 57"

definition digits_value :: "string \<Rightarrow> nat" where
  "digits_value s = fold (\<lambda>c acc. acc * 10 + (byte c - 48)) s 0"

text \<open>
  \<open>strconv.ParseInt(s, 10, 64)\<close>, and \<open>strconv.Atoi\<close> where int has 64 bits: an optional sign,
  at least one digit, nothing else, and a value in range. \<open>None\<close> is the error.
\<close>

definition parse_int64 :: "string \<Rightarrow> int option" where
  "parse_int64 s =
     (let neg = (case s of c # _ \<Rightarrow> c = CHR ''-'' | [] \<Rightarrow> False);
          ds = (case s of c # t \<Rightarrow> if c = CHR ''-'' \<or> c = CHR ''+'' then t else s | [] \<Rightarrow> []);
          v = (if neg then - int (digits_value ds) else int (digits_value ds))
      in if ds = [] \<or> \<not> list_all is_digit ds then None
         else if v < - (2 ^ 63) \<or> 2 ^ 63 - 1 < v then None
         else Some v)"

lemma parse_int64_range: "parse_int64 s = Some v \<Longrightarrow> - (2 ^ 63) \<le> v \<and> v \<le> 2 ^ 63 - 1"
  by (auto simp: parse_int64_def Let_def split: if_splits)

text \<open>\<open>hex.EncodeToString\<close>.\<close>

definition hex_digit :: "nat \<Rightarrow> char" where
  "hex_digit d = (if d < 10 then char_of (48 + d) else char_of (87 + d))"

definition hex_encode :: "string \<Rightarrow> string" where
  "hex_encode bs = concat (map (\<lambda>b. [hex_digit (byte b div 16), hex_digit (byte b mod 16)]) bs)"

lemma length_hex_encode: "length (hex_encode bs) = 2 * length bs"
  by (induction bs) (simp_all add: hex_encode_def)

lemmas [go_defs] =
  byte_def seq_len_def accept_second_def continuation_def rune_error_def Let_def

end
