(* ===== verification/Go_Crypto.thy ===== *)
theory Go_Crypto
  imports Go_Text
begin

text \<open>
  \<open>crypto/sha256\<close> and \<open>crypto/hmac\<close>: the digest function of FIPS 180-4 on 32-bit words
  and the keyed digest of RFC 2104. The sidecar stores the SHA-256 of every prompt, keys its
  identity directory with an HMAC of the API key and stores session tokens by their SHA-256.
\<close>

unbundle bit_operations_syntax

type_synonym w32 = "32 word"

type_synonym hash_state = "w32 \<times> w32 \<times> w32 \<times> w32 \<times> w32 \<times> w32 \<times> w32 \<times> w32"

definition sha256_k :: "w32 list" where
  "sha256_k = [
    1116352408, 1899447441, 3049323471, 3921009573, 961987163, 1508970993, 2453635748, 2870763221,
    3624381080, 310598401, 607225278, 1426881987, 1925078388, 2162078206, 2614888103, 3248222580,
    3835390401, 4022224774, 264347078, 604807628, 770255983, 1249150122, 1555081692, 1996064986,
    2554220882, 2821834349, 2952996808, 3210313671, 3336571891, 3584528711, 113926993, 338241895,
    666307205, 773529912, 1294757372, 1396182291, 1695183700, 1986661051, 2177026350, 2456956037,
    2730485921, 2820302411, 3259730800, 3345764771, 3516065817, 3600352804, 4094571909, 275423344,
    430227734, 506948616, 659060556, 883997877, 958139571, 1322822218, 1537002063, 1747873779,
    1955562222, 2024104815, 2227730452, 2361852424, 2428436474, 2756734187, 3204031479, 3329325298
    ]"

definition sha256_h0 :: hash_state where
  "sha256_h0 = (
    1779033703, 3144134277, 1013904242, 2773480762, 1359893119, 2600822924, 528734635, 1541459225
    )"

definition rotr :: "nat \<Rightarrow> w32 \<Rightarrow> w32" where
  "rotr n x = drop_bit n x OR push_bit (32 - n) x"

definition small_sigma0 :: "w32 \<Rightarrow> w32" where
  "small_sigma0 x = rotr 7 x XOR rotr 18 x XOR drop_bit 3 x"

definition small_sigma1 :: "w32 \<Rightarrow> w32" where
  "small_sigma1 x = rotr 17 x XOR rotr 19 x XOR drop_bit 10 x"

definition big_sigma0 :: "w32 \<Rightarrow> w32" where
  "big_sigma0 x = rotr 2 x XOR rotr 13 x XOR rotr 22 x"

definition big_sigma1 :: "w32 \<Rightarrow> w32" where
  "big_sigma1 x = rotr 6 x XOR rotr 11 x XOR rotr 25 x"

text \<open>Big-endian packing of bytes into words and back.\<close>

fun pack_words :: "string \<Rightarrow> w32 list" where
  "pack_words (a # b # c # d # rest) =
     (((of_char a * 256 + of_char b) * 256 + of_char c) * 256 + of_char d) # pack_words rest"
| "pack_words _ = []"

definition word_bytes :: "w32 \<Rightarrow> string" where
  "word_bytes w = (let n = uint w in
     [char_of (n div 16777216), char_of (n div 65536 mod 256),
      char_of (n div 256 mod 256), char_of (n mod 256)])"

text \<open>Padding: the bit 1, zeros, the bit length in eight bytes.\<close>

definition be64 :: "nat \<Rightarrow> string" where
  "be64 n = map (\<lambda>i. char_of (int n div 256 ^ i mod 256)) (rev [0..<8])"

definition sha256_pad :: "string \<Rightarrow> string" where
  "sha256_pad m = m @ [char_of (128 :: nat)]
     @ replicate ((119 - length m mod 64) mod 64) (char_of (0 :: nat)) @ be64 (8 * length m)"

text \<open>The message schedule: each further word from the 2nd, 7th, 15th and 16th before it
  (the list is kept newest first).\<close>

fun sha256_extend :: "nat \<Rightarrow> w32 list \<Rightarrow> w32 list" where
  "sha256_extend 0 ws = ws"
| "sha256_extend (Suc n) ws =
     sha256_extend n
       ((small_sigma1 (ws ! 1) + ws ! 6 + small_sigma0 (ws ! 14) + ws ! 15) # ws)"

definition sha256_round :: "w32 \<times> w32 \<Rightarrow> hash_state \<Rightarrow> hash_state" where
  "sha256_round kw st =
     (let (k, w) = kw; (a, b, c, d, e, f, g, h) = st;
          t1 = h + big_sigma1 e + ((e AND f) XOR (NOT e AND g)) + k + w;
          t2 = big_sigma0 a + ((a AND b) XOR (a AND c) XOR (b AND c))
      in (t1 + t2, a, b, c, d + t1, e, f, g))"

definition add_state :: "hash_state \<Rightarrow> hash_state \<Rightarrow> hash_state" where
  "add_state st st' =
     (let (a, b, c, d, e, f, g, h) = st; (a', b', c', d', e', f', g', h') = st'
      in (a + a', b + b', c + c', d + d', e + e', f + f', g + g', h + h'))"

definition sha256_block :: "hash_state \<Rightarrow> w32 list \<Rightarrow> hash_state" where
  "sha256_block st ws =
     add_state st (fold sha256_round (zip sha256_k (rev (sha256_extend 48 (rev ws)))) st)"

fun sha256_blocks :: "nat \<Rightarrow> hash_state \<Rightarrow> w32 list \<Rightarrow> hash_state" where
  "sha256_blocks 0 st ws = st"
| "sha256_blocks (Suc n) st ws = sha256_blocks n (sha256_block st (take 16 ws)) (drop 16 ws)"

definition state_bytes :: "hash_state \<Rightarrow> string" where
  "state_bytes st =
     (let (a, b, c, d, e, f, g, h) = st
      in concat (map word_bytes [a, b, c, d, e, f, g, h]))"

definition sha256 :: "string \<Rightarrow> string" where
  "sha256 m =
     (let p = sha256_pad m
      in state_bytes (sha256_blocks (length p div 64) sha256_h0 (pack_words p)))"

lemma length_sha256: "length (sha256 m) = 32"
  by (simp add: sha256_def state_bytes_def word_bytes_def Let_def split: prod.split)

text \<open>\<open>hmac.New(sha256.New, key)\<close>.\<close>

definition hmac_key :: "string \<Rightarrow> string" where
  "hmac_key key = (let k = (if 64 < length key then sha256 key else key)
     in k @ replicate (64 - length k) (char_of (0 :: nat)))"

definition xor_bytes :: "int \<Rightarrow> string \<Rightarrow> string" where
  "xor_bytes n s = map (\<lambda>c. char_of (of_char c XOR n)) s"

definition hmac_sha256 :: "string \<Rightarrow> string \<Rightarrow> string" where
  "hmac_sha256 key m =
     sha256 (xor_bytes 92 (hmac_key key) @ sha256 (xor_bytes 54 (hmac_key key) @ m))"

end
