(* ===== verification/Model.thy ===== *)
theory Model
  imports Go_Crypto
begin

text \<open>
  \<open>model.go\<close>: the values the sidecar passes between its parts (identities, user messages,
  extractions and capture records) and the two operations on them, \<open>finalize\<close> and
  \<open>truncateUTF8\<close>. A Go \<open>*int64\<close> is an \<open>int option\<close>, a \<open>map[string]int\<close> that
  may be nil an optional map, a \<open>time.Time\<close> a number of nanoseconds.
\<close>

section \<open>The data\<close>

record identity =
  UserID :: "int option"
  Username :: string
  Email :: string
  APIKeyID :: "int option"
  APIKeyName :: string
  IdentitySource :: string

definition Resolved :: "identity \<Rightarrow> bool" where
  "Resolved i \<longleftrightarrow> (case UserID i of None \<Rightarrow> False | Some u \<Rightarrow> 0 < u)"

definition zero_identity :: identity where
  "zero_identity = \<lparr>UserID = None, Username = [], Email = [], APIKeyID = None,
     APIKeyName = [], IdentitySource = []\<rparr>"

record user_message =
  Index :: nat
  Text :: string
  Source :: string

type_synonym role_counts = "string \<rightharpoonup> int"

record extraction =
  Protocol :: string
  ModelName :: string
  Messages :: "user_message list"
  ExcludedRoles :: "role_counts option"
  Status :: string
  Truncated :: bool
  PromptText :: string
  PromptSHA256 :: string

record capture_record =
  cr_ID :: string
  cr_ReceivedAt :: int
  cr_RequestID :: string
  cr_ClientRequestID :: string
  cr_Identity :: identity
  cr_Endpoint :: string
  cr_Protocol :: string
  cr_Model :: string
  cr_Messages :: "user_message list"
  cr_PromptText :: string
  cr_PromptSHA256 :: string
  cr_MessageCount :: nat
  cr_ParseStatus :: string
  cr_Truncated :: bool
  cr_ExcludedRoles :: "role_counts option"

text \<open>\<open>m[role]\<close> on a \<open>map[string]int\<close>: 0 for a missing key and for a nil map.\<close>

definition role_count :: "role_counts option \<Rightarrow> string \<Rightarrow> int" where
  "role_count m role =
     (case m of None \<Rightarrow> 0 | Some f \<Rightarrow> (case f role of None \<Rightarrow> 0 | Some n \<Rightarrow> n))"

section \<open>Truncation at a rune boundary\<close>

text \<open>
  The loop of \<open>truncateUTF8\<close> over \<open>range value\<close>. \<open>len(string(r))\<close> is 3 for the error
  rune of an invalid byte although the byte is only one byte wide.
\<close>

fun truncate_loop :: "int \<Rightarrow> (nat \<times> nat) list \<Rightarrow> nat \<Rightarrow> nat \<Rightarrow> nat" where
  "truncate_loop maxBytes [] n stop = stop"
| "truncate_loop maxBytes ((index, r) # rs) n stop =
     (if maxBytes < int (n + rune_len r) then stop
      else truncate_loop maxBytes rs (n + rune_len r) (index + rune_len r))"

definition truncate_end :: "string \<Rightarrow> int \<Rightarrow> nat" where
  "truncate_end value maxBytes = truncate_loop maxBytes (range_string 0 value) 0 0"

text \<open>\<open>value[:end]\<close> panics when \<open>end\<close> is past the end of the string.\<close>

definition slice_to :: "string \<Rightarrow> nat \<Rightarrow> string outcome" where
  "slice_to s e = (if e \<le> length s then Return (take e s) else Panic)"

definition truncateUTF8_outcome :: "string \<Rightarrow> int \<Rightarrow> string outcome" where
  "truncateUTF8_outcome value maxBytes =
     (if maxBytes \<le> 0 \<or> int (length value) \<le> maxBytes then Return value
      else slice_to value (truncate_end value maxBytes))"

definition truncateUTF8 :: "string \<Rightarrow> int \<Rightarrow> string" where
  "truncateUTF8 value maxBytes =
     (if maxBytes \<le> 0 \<or> int (length value) \<le> maxBytes then value
      else take (truncate_end value maxBytes) value)"

section \<open>finalize\<close>

abbreviation blank :: "string \<Rightarrow> bool" where
  "blank s \<equiv> trim_space s = []"

definition prompt_parts :: "user_message list \<Rightarrow> string list" where
  "prompt_parts msgs = map Text (filter (\<lambda>m. \<not> blank (Text m)) msgs)"

definition paragraph_break :: string where
  "paragraph_break = [char_of (10 :: nat), char_of (10 :: nat)]"

definition fullPrompt :: "user_message list \<Rightarrow> string" where
  "fullPrompt msgs = join (prompt_parts msgs) paragraph_break"

definition finalize :: "extraction \<Rightarrow> int \<Rightarrow> extraction" where
  "finalize e0 maxPromptBytes =
     (let e1 = (if ExcludedRoles e0 = None then e0\<lparr>ExcludedRoles := Some Map.empty\<rparr> else e0);
          full = fullPrompt (Messages e1);
          e2 = e1\<lparr>PromptSHA256 := hex_encode (sha256 full)\<rparr>;
          e3 = (if 0 < maxPromptBytes \<and> maxPromptBytes < int (length full)
                then e2\<lparr>PromptText := truncateUTF8 full maxPromptBytes, Truncated := True\<rparr>
                else e2\<lparr>PromptText := full\<rparr>);
          e4 = (if Messages e3 = [] \<and> Status e3 = [] then e3\<lparr>Status := ''empty''\<rparr> else e3);
          e5 = (if Messages e4 \<noteq> [] \<and> Status e4 = [] then e4\<lparr>Status := ''parsed''\<rparr> else e4)
      in e5)"

section \<open>Facts on truncation\<close>

lemma rune_len_pos: "1 \<le> rune_len r"
  by (simp add: rune_len_def encode_rune_def Let_def)

lemma rune_len_le_4: "rune_len r \<le> 4"
  by (simp add: rune_len_def encode_rune_def Let_def)


lemma truncate_loop_bound:
  assumes "int stop \<le> m" and "i \<le> n"
  shows "int (truncate_loop m (range_string i s) n stop) \<le> m"
  using assms
proof (induction "length s" arbitrary: i s n stop rule: less_induct)
  case less
  show ?case
  proof (cases "s = []")
    case False
    have "decode_rune s = (rune_error, 1) \<Longrightarrow> snd (decode_rune s) = 1" by simp
    then have w: "1 \<le> snd (decode_rune s)" "snd (decode_rune s) \<le> rune_len (fst (decode_rune s))"
      using decode_rune_width_pos [OF False] decode_rune_len [OF False] by auto
    show ?thesis
      using False w less.prems
      by (auto simp: range_string_Cons intro!: less.hyps)
  qed (use less.prems in simp)
qed

text \<open>The slice is always in range: \<open>truncateUTF8\<close> never panics, whatever the bytes.\<close>

lemma truncate_end_bound: "0 < m \<Longrightarrow> int (truncate_end s m) \<le> m"
  by (simp add: truncate_end_def truncate_loop_bound)

lemma truncateUTF8_no_panic: "truncateUTF8_outcome s m = Return (truncateUTF8 s m)"
  using truncate_end_bound [of m s]
  by (cases "0 < m") (auto simp: truncateUTF8_outcome_def truncateUTF8_def slice_to_def)

lemma truncateUTF8_prefix: "prefix (truncateUTF8 s m) s"
  by (simp add: truncateUTF8_def take_is_prefix)

lemma truncateUTF8_length: "0 < m \<Longrightarrow> int (length (truncateUTF8 s m)) \<le> m"
  using truncate_end_bound [of m s] by (auto simp: truncateUTF8_def)

text \<open>On valid UTF-8 the loop stops at the last rune boundary within the budget.\<close>

lemma truncate_loop_valid:
  assumes "valid_utf8 s" and "int i \<le> m"
  shows "\<exists>k \<le> length s. truncate_loop m (range_string i s) i i = i + k \<and> valid_utf8 (take k s)
     \<and> (\<forall>j \<le> length s. valid_utf8 (take j s) \<and> int (i + j) \<le> m \<longrightarrow> j \<le> k)"
  using assms
proof (induction "length s" arbitrary: i s rule: less_induct)
  case less
  show ?case
  proof (cases "s = []")
    case False
    let ?w = "snd (decode_rune s)"
    have v: "decode_rune s \<noteq> (rune_error, 1)" "valid_utf8 (drop ?w s)"
      using less.prems False by (simp_all add: valid_utf8_step)
    have w: "1 \<le> ?w" "rune_len (fst (decode_rune s)) = ?w" "?w \<le> length s"
      using decode_rune_width_pos [OF False] decode_rune_len [OF False] v decode_rune_width_le by auto
    show ?thesis
    proof (cases "m < int (i + ?w)")
      case True
      have "j = 0" if "valid_utf8 (take j s)" "int (i + j) \<le> m" for j
        using that True valid_utf8_take_iff [OF False less.prems(1), of j] by force
      with True w False show ?thesis by (auto simp: range_string_Cons intro: exI [of _ 0])
    next
      case False': False
      have "length (drop ?w s) < length s" using w by simp
      from less.hyps [OF this v(2), of "i + ?w"] False' obtain k where
        k: "k \<le> length s - ?w" "truncate_loop m (range_string (i + ?w) (drop ?w s)) (i + ?w) (i + ?w) = i + ?w + k"
          "valid_utf8 (take k (drop ?w s))"
        and mx: "\<And>j. j \<le> length s - ?w \<Longrightarrow> valid_utf8 (take j (drop ?w s)) \<Longrightarrow> int (i + ?w + j) \<le> m \<Longrightarrow> j \<le> k"
        by auto
      have "valid_utf8 (take (?w + k) s)"
        using valid_utf8_take_iff [OF False less.prems(1), of "?w + k"] w k by simp
      moreover have "j \<le> ?w + k" if "j \<le> length s" "valid_utf8 (take j s)" "int (i + j) \<le> m" for j
      proof (cases "j = 0")
        case False'': False
        then have "?w \<le> j" "valid_utf8 (take (j - ?w) (drop ?w s))"
          using that valid_utf8_take_iff [OF False less.prems(1), of j] by auto
        with that mx [of "j - ?w"] have "j - ?w \<le> k" by (simp add: diff_le_mono)
        then show ?thesis by simp
      qed simp
      ultimately show ?thesis using k w False False'
        by (auto simp: range_string_Cons intro!: exI [of _ "?w + k"])
    qed
  qed (use less.prems in simp)
qed

lemma truncateUTF8_valid:
  assumes "valid_utf8 s"
  shows "valid_utf8 (truncateUTF8 s m)"
proof (cases "0 < m")
  case True
  then show ?thesis
    using truncate_loop_valid [OF assms, of 0 m] assms
    by (auto simp: truncateUTF8_def truncate_end_def)
qed (simp add: truncateUTF8_def assms)

lemma truncateUTF8_longest:
  assumes "valid_utf8 s" and "0 < m" and "prefix t s" and "valid_utf8 t" and "int (length t) \<le> m"
  shows "length t \<le> length (truncateUTF8 s m)"
proof -
  have t: "t = take (length t) s" "length t \<le> length s"
    using assms(3) by (auto simp: prefix_def)
  obtain k where "k \<le> length s" "truncate_end s m = k"
    and mx: "\<And>j. j \<le> length s \<Longrightarrow> valid_utf8 (take j s) \<Longrightarrow> int j \<le> m \<Longrightarrow> j \<le> k"
    using truncate_loop_valid [OF assms(1), of 0 m] assms(2) by (auto simp: truncate_end_def)
  then show ?thesis using mx [OF t(2)] t assms(4,5) by (auto simp: truncateUTF8_def)
qed

section \<open>Facts on finalize\<close>

lemma finalize_frame [frame, simp]:
  "Messages (finalize e m) = Messages e"
  "Protocol (finalize e m) = Protocol e"
  "ModelName (finalize e m) = ModelName e"
  by (simp_all add: finalize_def Let_def)

lemma finalize_excluded [simp]:
  "ExcludedRoles (finalize e m) = Some (case ExcludedRoles e of None \<Rightarrow> Map.empty | Some f \<Rightarrow> f)"
  by (auto simp: finalize_def Let_def)

lemma finalize_status [simp]:
  "Status (finalize e m) =
     (if Status e \<noteq> [] then Status e else if Messages e = [] then ''empty'' else ''parsed'')"
  by (simp add: finalize_def Let_def)

lemma finalize_sha [simp]:
  "PromptSHA256 (finalize e m) = hex_encode (sha256 (fullPrompt (Messages e)))"
  by (simp add: finalize_def Let_def)

lemma finalize_prompt [simp]:
  "PromptText (finalize e m) = truncateUTF8 (fullPrompt (Messages e)) m"
  by (cases "m \<le> 0 \<or> int (length (fullPrompt (Messages e))) \<le> m")
    (auto simp: finalize_def Let_def truncateUTF8_def)

lemma finalize_truncated [simp]:
  "Truncated (finalize e m) \<longleftrightarrow>
     Truncated e \<or> 0 < m \<and> m < int (length (fullPrompt (Messages e)))"
  by (auto simp: finalize_def Let_def)

lemma join_eq_Nil: "join xs sep = [] \<longleftrightarrow> (\<forall>x \<in> set xs. x = []) \<and> (length xs \<le> 1 \<or> sep = [])"
  by (induction xs sep rule: join.induct) auto

lemma fullPrompt_empty_iff: "fullPrompt ms = [] \<longleftrightarrow> (\<forall>m \<in> set ms. blank (Text m))"
proof -
  have "\<not> blank t \<Longrightarrow> t \<noteq> []" for t by auto
  then show ?thesis
    by (auto simp: fullPrompt_def prompt_parts_def join_eq_Nil filter_empty_conv)
qed


end
