(* ===== verification/Json.thy ===== *)
theory Json
  imports Go_Text
begin

text \<open>
  \<open>encoding/json\<close> as the sidecar uses it: \<open>json.Unmarshal\<close> of a byte string into a value of
  type \<open>any\<close>. A JSON object becomes a \<open>map[string]any\<close>; here it is an association list in
  which the first entry of a key counts (\<^const>\<open>map_of\<close>), newest first, so that the last of
  several equal keys of the text wins as it does in Go. Numbers keep their text: the program
  never reads a number, it only asks whether a value is there.
\<close>

datatype json =
    JNull
  | JBool bool
  | JNumber string
  | JString string
  | JArray "json list"
  | JObject "(string \<times> json) list"

type_synonym json_object = "(string \<times> json) list"

text \<open>\<open>object[key].(string)\<close> with its two results, and \<open>s, _ := object[key].(string)\<close>.\<close>

definition get_string :: "json_object \<Rightarrow> string \<Rightarrow> string option" where
  "get_string obj key =
     (case map_of obj key of Some (JString s) \<Rightarrow> Some s | _ \<Rightarrow> None)"

definition string_or_empty :: "json_object \<Rightarrow> string \<Rightarrow> string" where
  "string_or_empty obj key = (case get_string obj key of Some s \<Rightarrow> s | None \<Rightarrow> [])"

text \<open>\<open>object[key].([]any)\<close>.\<close>

definition get_array :: "json_object \<Rightarrow> string \<Rightarrow> json list option" where
  "get_array obj key =
     (case map_of obj key of Some (JArray xs) \<Rightarrow> Some xs | _ \<Rightarrow> None)"

lemma json_object_size: "map_of obj k = Some v \<Longrightarrow> size v < size (JObject obj)"
  by (induction obj) (auto split: if_splits)

section \<open>Decoding\<close>

datatype json_error = SyntaxError | MaxDepth | NumberRange | OutOfFuel

type_synonym 'a parsed = "json_error + 'a \<times> string"

definition json_ws :: "char \<Rightarrow> bool" where
  "json_ws c \<longleftrightarrow> byte c \<in> {9, 10, 13, 32}"

definition skip_ws :: "string \<Rightarrow> string" where
  "skip_ws s = dropWhile json_ws s"

subsection \<open>Strings\<close>

definition hex_value :: "char \<Rightarrow> nat option" where
  "hex_value c =
     (let b = byte c in
      if 48 \<le> b \<and> b \<le> 57 then Some (b - 48)
      else if 97 \<le> b \<and> b \<le> 102 then Some (b - 87)
      else if 65 \<le> b \<and> b \<le> 70 then Some (b - 55)
      else None)"

text \<open>Four hexadecimal digits after \<open>\u\<close>.\<close>

fun hex4 :: "string \<Rightarrow> (nat \<times> string) option" where
  "hex4 (a # b # c # d # t) =
     (case (hex_value a, hex_value b, hex_value c, hex_value d) of
        (Some w, Some x, Some y, Some z) \<Rightarrow> Some (((w * 16 + x) * 16 + y) * 16 + z, t)
      | _ \<Rightarrow> None)"
| "hex4 _ = None"

definition backslash :: char where
  "backslash = char_of (92 :: nat)"

definition dquote :: char where
  "dquote = char_of (34 :: nat)"

text \<open>The low half of a surrogate pair, when the text goes on with one.\<close>

definition low_surrogate :: "string \<Rightarrow> (nat \<times> string) option" where
  "low_surrogate s =
     (case s of
        x # y # t \<Rightarrow>
          if x = backslash \<and> y = CHR ''u'' then
            (case hex4 t of
               Some (lo, t') \<Rightarrow> if 56320 \<le> lo \<and> lo \<le> 57343 then Some (lo, t') else None
             | None \<Rightarrow> None)
          else None
      | _ \<Rightarrow> None)"

definition simple_escape :: "char \<Rightarrow> string option" where
  "simple_escape c =
     (if c = dquote \<or> c = backslash \<or> c = CHR ''/'' then Some [c]
      else if c = CHR ''b'' then Some [char_of (8 :: nat)]
      else if c = CHR ''f'' then Some [char_of (12 :: nat)]
      else if c = CHR ''n'' then Some [char_of (10 :: nat)]
      else if c = CHR ''r'' then Some [char_of (13 :: nat)]
      else if c = CHR ''t'' then Some [char_of (9 :: nat)]
      else None)"

text \<open>
  One step in a string literal: its closing quote, the decoded bytes of the next character with
  what follows, or an error. Control characters are errors; an unpaired surrogate and an invalid
  byte become \<open>U+FFFD\<close>.
\<close>

datatype char_step = EndQuote string | Emit string string | BadChar

definition unicode_escape :: "string \<Rightarrow> char_step" where
  "unicode_escape s =
     (case hex4 s of
        None \<Rightarrow> BadChar
      | Some (r, t) \<Rightarrow>
          if 55296 \<le> r \<and> r \<le> 56319 then
            (case low_surrogate t of
               Some (lo, u) \<Rightarrow> Emit (encode_rune (65536 + (r - 55296) * 1024 + (lo - 56320))) u
             | None \<Rightarrow> Emit (encode_rune rune_error) t)
          else Emit (encode_rune r) t)"

definition escape_step :: "string \<Rightarrow> char_step" where
  "escape_step s =
     (case s of
        [] \<Rightarrow> BadChar
      | e # t \<Rightarrow>
          if e = CHR ''u'' then unicode_escape t
          else (case simple_escape e of None \<Rightarrow> BadChar | Some x \<Rightarrow> Emit x t))"

definition string_step :: "string \<Rightarrow> char_step" where
  "string_step s =
     (case s of
        [] \<Rightarrow> BadChar
      | c # t \<Rightarrow>
          if c = dquote then EndQuote t
          else if c = backslash then escape_step t
          else if byte c < 32 then BadChar
          else if byte c < 128 then Emit [c] t
          else Emit (encode_rune (fst (decode_rune s))) (drop (snd (decode_rune s)) s))"

fun parse_string :: "nat \<Rightarrow> string \<Rightarrow> string \<Rightarrow> string parsed" where
  "parse_string 0 s acc = Inl OutOfFuel"
| "parse_string (Suc f) s acc =
     (case string_step s of
        BadChar \<Rightarrow> Inl SyntaxError
      | EndQuote t \<Rightarrow> Inr (acc, t)
      | Emit x t \<Rightarrow> parse_string f t (acc @ x))"

subsection \<open>Numbers\<close>

definition take_digits :: "string \<Rightarrow> string \<times> string" where
  "take_digits s = (takeWhile is_digit s, dropWhile is_digit s)"

text \<open>
  A finite float64 is below \<open>2^1024 - 2^970\<close> before rounding; a literal at or above it is a
  range error of \<open>strconv.ParseFloat\<close>, which \<open>Unmarshal\<close> reports. A literal of \<open>n\<close> digits
  scaled by \<open>10^e\<close> is below \<open>10^(n + e)\<close>, so no large power is computed for ordinary ones.
\<close>

definition float64_overflow :: "string \<Rightarrow> int \<Rightarrow> bool" where
  "float64_overflow ds e10 =
     (if int (length ds) + e10 \<le> 308 then False
      else if 0 \<le> e10 then 2 ^ 1024 - 2 ^ 970 \<le> digits_value ds * 10 ^ nat e10
      else (2 ^ 1024 - 2 ^ 970) * 10 ^ nat (- e10) \<le> digits_value ds)"

definition parse_exponent :: "string \<Rightarrow> (int \<times> string) option" where
  "parse_exponent s =
     (case s of
        c # t \<Rightarrow>
          if c = CHR ''e'' \<or> c = CHR ''E'' then
            (let neg = (case t of d # _ \<Rightarrow> d = CHR ''-'' | [] \<Rightarrow> False);
                 t1 = (case t of d # u \<Rightarrow> if d = CHR ''-'' \<or> d = CHR ''+'' then u else t | [] \<Rightarrow> []);
                 (ds, rest) = take_digits t1
             in if ds = [] then None
                else Some (if neg then - int (digits_value ds) else int (digits_value ds), rest))
          else Some (0, s)
      | [] \<Rightarrow> Some (0, s))"

definition parse_fraction :: "string \<Rightarrow> (string \<times> string) option" where
  "parse_fraction s =
     (case s of
        c # t \<Rightarrow>
          if c = CHR ''.'' then
            (let (ds, rest) = take_digits t in if ds = [] then None else Some (ds, rest))
          else Some ([], s)
      | [] \<Rightarrow> Some ([], s))"

definition parse_number :: "string \<Rightarrow> json parsed" where
  "parse_number s =
     (let s1 = (case s of c # t \<Rightarrow> if c = CHR ''-'' then t else s | [] \<Rightarrow> []);
          (ds, s2) = (case s1 of
                        c # t \<Rightarrow> if c = CHR ''0'' then ([c], t) else take_digits s1
                      | [] \<Rightarrow> ([], []))
      in if ds = [] then Inl SyntaxError
         else (case parse_fraction s2 of
                 None \<Rightarrow> Inl SyntaxError
               | Some (fs, s3) \<Rightarrow>
                   (case parse_exponent s3 of
                      None \<Rightarrow> Inl SyntaxError
                    | Some (e, s4) \<Rightarrow>
                        if float64_overflow (ds @ fs) (e - int (length fs))
                        then Inl NumberRange
                        else Inr (JNumber (take (length s - length s4) s), s4))))"

subsection \<open>Values\<close>

definition parse_literal :: "string \<Rightarrow> json parsed" where
  "parse_literal s =
     (if prefix ''null'' s then Inr (JNull, drop 4 s)
      else if prefix ''true'' s then Inr (JBool True, drop 4 s)
      else if prefix ''false'' s then Inr (JBool False, drop 5 s)
      else parse_number s)"

text \<open>
  The recursive descent, with the nesting depth (at most 10000) and fuel; twice the length of
  the text plus two is enough (\<open>parse_value_fuel\<close> below).
\<close>

fun parse_value :: "nat \<Rightarrow> nat \<Rightarrow> string \<Rightarrow> json parsed"
  and parse_elems :: "nat \<Rightarrow> nat \<Rightarrow> string \<Rightarrow> json list \<Rightarrow> json parsed"
  and parse_members :: "nat \<Rightarrow> nat \<Rightarrow> string \<Rightarrow> json_object \<Rightarrow> json parsed"
where
  "parse_value 0 d s = Inl OutOfFuel"
| "parse_value (Suc f) d s =
     (case skip_ws s of
        [] \<Rightarrow> Inl SyntaxError
      | c # t \<Rightarrow>
          if c = CHR ''['' then
            (if 10000 \<le> d then Inl MaxDepth
             else case skip_ws t of
                    [] \<Rightarrow> Inl SyntaxError
                  | x # u \<Rightarrow> if x = CHR '']'' then Inr (JArray [], u)
                           else parse_elems f (Suc d) (x # u) [])
          else if c = CHR ''{'' then
            (if 10000 \<le> d then Inl MaxDepth
             else case skip_ws t of
                    [] \<Rightarrow> Inl SyntaxError
                  | x # u \<Rightarrow> if x = CHR ''}'' then Inr (JObject [], u)
                           else parse_members f (Suc d) (x # u) [])
          else if c = dquote then
            (case parse_string (Suc (length t)) t [] of
               Inl e \<Rightarrow> Inl e
             | Inr (str, u) \<Rightarrow> Inr (JString str, u))
          else parse_literal (c # t))"
| "parse_elems 0 d s acc = Inl OutOfFuel"
| "parse_elems (Suc f) d s acc =
     (case parse_value f d s of
        Inl e \<Rightarrow> Inl e
      | Inr (v, t) \<Rightarrow>
          (case skip_ws t of
             [] \<Rightarrow> Inl SyntaxError
           | c # u \<Rightarrow>
               if c = CHR '','' then parse_elems f d u (acc @ [v])
               else if c = CHR '']'' then Inr (JArray (acc @ [v]), u)
               else Inl SyntaxError))"
| "parse_members 0 d s acc = Inl OutOfFuel"
| "parse_members (Suc f) d s acc =
     (case skip_ws s of
        [] \<Rightarrow> Inl SyntaxError
      | c # t \<Rightarrow>
          if c \<noteq> dquote then Inl SyntaxError
          else (case parse_string (Suc (length t)) t [] of
                  Inl e \<Rightarrow> Inl e
                | Inr (key, t1) \<Rightarrow>
                    (case skip_ws t1 of
                       [] \<Rightarrow> Inl SyntaxError
                     | x # t2 \<Rightarrow>
                         if x \<noteq> CHR '':'' then Inl SyntaxError
                         else (case parse_value f d t2 of
                                 Inl e \<Rightarrow> Inl e
                               | Inr (v, t3) \<Rightarrow>
                                   (case skip_ws t3 of
                                      [] \<Rightarrow> Inl SyntaxError
                                    | y # t4 \<Rightarrow>
                                        if y = CHR '','' then parse_members f d t4 ((key, v) # acc)
                                        else if y = CHR ''}'' then Inr (JObject ((key, v) # acc), t4)
                                        else Inl SyntaxError)))))"

text \<open>\<open>json.Unmarshal(data, &root)\<close>: \<open>None\<close> is any error.\<close>

definition json_unmarshal :: "string \<Rightarrow> json option" where
  "json_unmarshal s =
     (case parse_value (2 * length s + 2) 0 s of
        Inl _ \<Rightarrow> None
      | Inr (v, rest) \<Rightarrow> if skip_ws rest = [] then Some v else None)"

end
