(* ===== verification/Go_Io.thy ===== *)
theory Go_Io
  imports Go_Text
begin

text \<open>
  The \<open>io\<close> values the sidecar reads from: a reader that delivers some bytes and then either
  ends or fails, \<open>io.ReadAll(io.LimitReader(r, n))\<close> on it, and the concatenation of readers
  that \<open>io.MultiReader\<close> makes. A reader is described by all it will ever deliver; an error is
  delivered after the bytes before it, and again on every later read.
\<close>

record stream =
  stream_bytes :: string
  stream_fails :: bool

text \<open>
  A limit of at most 0 yields no byte and no error. When the bytes reach the limit the reader
  is not asked again, so an error that would follow is not seen.
\<close>

definition read_limited :: "int \<Rightarrow> stream \<Rightarrow> string \<times> bool" where
  "read_limited n r =
     (let bs = take (nat n) (stream_bytes r)
      in (bs, stream_fails r \<and> int (length (stream_bytes r)) < n))"

text \<open>What the reader still has to deliver after that read.\<close>

definition after_read :: "int \<Rightarrow> stream \<Rightarrow> stream" where
  "after_read n r = r\<lparr>stream_bytes := drop (nat n) (stream_bytes r)\<rparr>"

text \<open>\<open>io.MultiReader(bytes.NewReader(prefix), r)\<close>.\<close>

definition multi_reader :: "string \<Rightarrow> stream \<Rightarrow> stream" where
  "multi_reader pre r = r\<lparr>stream_bytes := pre @ stream_bytes r\<rparr>"

definition bytes_reader :: "string \<Rightarrow> stream" where
  "bytes_reader bs = \<lparr>stream_bytes = bs, stream_fails = False\<rparr>"

text \<open>Reading a prefix and putting it back in front restores the stream.\<close>

lemma multi_reader_restores [simp]:
  "multi_reader (fst (read_limited n r)) (after_read n r) = r"
  by (simp add: multi_reader_def after_read_def read_limited_def Let_def)

lemma read_limited_all:
  "int (length (fst (read_limited n r))) < n \<Longrightarrow> fst (read_limited n r) = stream_bytes r"
  by (auto simp: read_limited_def Let_def min_def split: if_splits)

end
