(* ===== verification/Go_Http.thy ===== *)
theory Go_Http
  imports Go_Io "HOL-Library.AList"
begin

text \<open>
  What the sidecar uses of \<open>net/http\<close>: header maps with canonical keys, requests, and 64-bit
  integers that wrap around.
\<close>

section \<open>Headers\<close>

text \<open>
  An \<open>http.Header\<close> is a \<open>map[string][]string\<close>: an association list here, of which only the
  lookups matter. \<open>Get\<close>, \<open>Set\<close> and \<open>Add\<close> use the canonical form of the key.
\<close>

type_synonym header = "(string \<times> string list) list"

definition ascii_upper :: "char \<Rightarrow> char" where
  "ascii_upper c = (if 97 \<le> byte c \<and> byte c \<le> 122 then char_of (byte c - 32) else c)"

text \<open>The bytes of a header field name (RFC 7230 token).\<close>

definition token_byte :: "char \<Rightarrow> bool" where
  "token_byte c \<longleftrightarrow>
     (let b = byte c in
      48 \<le> b \<and> b \<le> 57 \<or> 65 \<le> b \<and> b \<le> 90 \<or> 97 \<le> b \<and> b \<le> 122
      \<or> List.member [33, 35, 36, 37, 38, 39, 42, 43, 45, 46, 94, 95, 96, 124, 126] b)"

fun capitalize :: "bool \<Rightarrow> string \<Rightarrow> string" where
  "capitalize up [] = []"
| "capitalize up (c # s) = (if up then ascii_upper c else ascii_lower c) # capitalize (c = CHR ''-'') s"

definition canonical_key :: "string \<Rightarrow> string" where
  "canonical_key s = (if list_all token_byte s then capitalize True s else s)"

definition header_values :: "header \<Rightarrow> string \<Rightarrow> string list" where
  "header_values h key = (case map_of h (canonical_key key) of None \<Rightarrow> [] | Some vs \<Rightarrow> vs)"

definition header_get :: "header \<Rightarrow> string \<Rightarrow> string" where
  "header_get h key = (case header_values h key of [] \<Rightarrow> [] | v # _ \<Rightarrow> v)"

definition header_set :: "header \<Rightarrow> string \<Rightarrow> string \<Rightarrow> header" where
  "header_set h key v = AList.update (canonical_key key) [v] h"

definition header_add :: "header \<Rightarrow> string \<Rightarrow> string \<Rightarrow> header" where
  "header_add h key v = AList.update (canonical_key key) (header_values h key @ [v]) h"

lemma header_values_set:
  "header_values (header_set h k v) k' =
     (if canonical_key k' = canonical_key k then [v] else header_values h k')"
  by (simp add: header_values_def header_set_def update_conv')

lemma header_get_set:
  "header_get (header_set h k v) k' =
     (if canonical_key k' = canonical_key k then v else header_get h k')"
  by (simp add: header_get_def header_values_set)

lemma header_values_add:
  "header_values (header_add h k v) k' =
     (if canonical_key k' = canonical_key k then header_values h k @ [v] else header_values h k')"
  by (simp add: header_values_def header_add_def update_conv')

section \<open>Requests\<close>

text \<open>
  A server request with the fields of its URL; \<open>req_ClientIP\<close> is the host of \<open>RemoteAddr\<close> where it has
  one, and a length of -1 is unknown.
\<close>

record request =
  req_Method :: string
  req_Path :: string
  req_RawPath :: string
  req_RawQuery :: string
  req_ForceQuery :: bool
  req_Host :: string
  req_ContentLength :: int
  req_ClientIP :: "string option"
  req_Header :: header
  req_Body :: "stream option"
  req_TLS :: bool

section \<open>64-bit integers\<close>

definition wrap64 :: "int \<Rightarrow> int" where
  "wrap64 x = (x + 2 ^ 63) mod 2 ^ 64 - 2 ^ 63"

lemma wrap64_id: "- (2 ^ 63) \<le> x \<Longrightarrow> x < 2 ^ 63 \<Longrightarrow> wrap64 x = x"
  by (simp add: wrap64_def)

end
