(* ===== verification/Go_Query.thy ===== *)
theory Go_Query
  imports Go_Http Json
begin

text \<open>
  What the sidecar uses of \<open>net/url\<close> and of the cookies of \<open>net/http\<close>: escaping and parsing of
  query strings, and finding a cookie of a request. The limits on the number of parameters and
  cookies are settings of the runtime; \<open>None\<close> stands for no limit.
\<close>

section \<open>Query strings\<close>

text \<open>\<open>url.QueryEscape\<close>.\<close>

definition upper_hex :: "nat \<Rightarrow> char" where
  "upper_hex d = (if d < 10 then char_of (48 + d) else char_of (55 + d))"

definition query_escape_byte :: "char \<Rightarrow> string" where
  "query_escape_byte c =
     (let b = byte c in
      if 48 \<le> b \<and> b \<le> 57 \<or> 65 \<le> b \<and> b \<le> 90 \<or> 97 \<le> b \<and> b \<le> 122 \<or> List.member [45, 95, 46, 126] b then [c]
      else if b = 32 then ''+''
      else [CHR ''%'', upper_hex (b div 16), upper_hex (b mod 16)])"

definition query_escape :: "string \<Rightarrow> string" where
  "query_escape s = concat (map query_escape_byte s)"

text \<open>\<open>url.QueryUnescape\<close>; \<open>None\<close> is the error for a percent sign without two hexadecimal digits.\<close>

fun query_unescape :: "string \<Rightarrow> string option" where
  "query_unescape [] = Some []"
| "query_unescape (c # s) =
     (if c = CHR ''%'' then
        (case s of
           x # y # t \<Rightarrow>
             (case (hex_value x, hex_value y) of
                (Some a, Some b) \<Rightarrow> map_option (Cons (char_of (a * 16 + b))) (query_unescape t)
              | _ \<Rightarrow> None)
         | _ \<Rightarrow> None)
      else map_option (Cons (if c = CHR ''+'' then CHR '' '' else c)) (query_unescape s))"

text \<open>\<open>strings.Cut\<close> at a character.\<close>

definition cut_at :: "char \<Rightarrow> string \<Rightarrow> string \<times> string" where
  "cut_at sep s = (takeWhile (\<lambda>c. c \<noteq> sep) s, drop 1 (dropWhile (\<lambda>c. c \<noteq> sep) s))"

text \<open>One piece between ampersands: the values so far, and whether an error was met.\<close>

type_synonym query_values = "string \<Rightarrow> string list"

definition add_piece :: "string \<Rightarrow> query_values \<times> bool \<Rightarrow> query_values \<times> bool" where
  "add_piece piece st =
     (case st of (m, err) \<Rightarrow>
        if List.member piece (CHR '';'') then (m, True)
        else if piece = [] then (m, err)
        else case cut_at (CHR ''='') piece of (key, val) \<Rightarrow>
          (case (query_unescape key, query_unescape val) of
             (Some k, Some v) \<Rightarrow> (m(k := m k @ [v]), err)
           | _ \<Rightarrow> (m, True)))"

definition exceeds :: "nat option \<Rightarrow> nat \<Rightarrow> bool" where
  "exceeds limit n = (case limit of None \<Rightarrow> False | Some l \<Rightarrow> l < n)"

definition parse_query :: "nat option \<Rightarrow> string \<Rightarrow> query_values \<times> bool" where
  "parse_query limit s =
     (let pieces = split_on (CHR ''&'') s
      in if exceeds limit (length pieces) then (\<lambda>_. [], True)
         else fold add_piece pieces (\<lambda>_. [], False))"

text \<open>\<open>URL.Query().Get(key)\<close>, which drops the error.\<close>

definition query_get :: "nat option \<Rightarrow> string \<Rightarrow> string \<Rightarrow> string" where
  "query_get limit raw key = (case fst (parse_query limit raw) key of [] \<Rightarrow> [] | v # _ \<Rightarrow> v)"

section \<open>Cookies\<close>

definition trim_ascii :: "string \<Rightarrow> string" where
  "trim_ascii s = rev (dropWhile json_ws (rev (dropWhile json_ws s)))"

definition cookie_byte :: "char \<Rightarrow> bool" where
  "cookie_byte c \<longleftrightarrow> 32 \<le> byte c \<and> byte c < 127 \<and> \<not> List.member [34, 59, 92] (byte c)"

text \<open>The value without one pair of enclosing quotes; \<open>None\<close> when a byte is not allowed in it.\<close>

definition cookie_content :: "string \<Rightarrow> string option" where
  "cookie_content raw =
     (let v = (if 1 < length raw \<and> hd raw = dquote \<and> last raw = dquote then butlast (tl raw) else raw)
      in if list_all cookie_byte v then Some v else None)"

definition cookie_part :: "string \<Rightarrow> string \<Rightarrow> string option" where
  "cookie_part name part =
     (let p = trim_ascii part; (n, v) = cut_at (CHR ''='') p
      in if p = [] \<or> trim_ascii n \<noteq> name then None else cookie_content v)"

text \<open>\<open>Request.Cookie(name)\<close> for a name that is a token: the first cookie with a valid value.\<close>

definition request_cookie :: "nat option \<Rightarrow> header \<Rightarrow> string \<Rightarrow> string option" where
  "request_cookie limit h name =
     (let parts = concat (map (split_on (CHR '';'')) (header_values h ''Cookie''))
      in if exceeds limit (length parts) then None
         else case filter (\<lambda>v. v \<noteq> None) (map (cookie_part name) parts) of [] \<Rightarrow> None | v # _ \<Rightarrow> v)"

section \<open>Facts\<close>

definition query_safe :: "char \<Rightarrow> bool" where
  "query_safe c \<longleftrightarrow>
     (let b = byte c in 48 \<le> b \<and> b \<le> 57 \<or> 65 \<le> b \<and> b \<le> 90 \<or> 97 \<le> b \<and> b \<le> 122 \<or> List.member [45, 95, 46, 126, 43, 37] b)"

lemma upper_hex_safe: "d < 16 \<Longrightarrow> query_safe (upper_hex d)"
  by (auto simp: query_safe_def upper_hex_def Let_def byte_char_of)

lemma query_escape_byte_safe: "list_all query_safe (query_escape_byte c)"
proof -
  have "byte c < 256" by (simp add: byte_def)
  then have "byte c div 16 < 16" "byte c mod 16 < 16" by simp_all
  moreover have "query_safe CHR ''%''" "query_safe CHR ''+''" by (simp_all add: query_safe_def byte_def Let_def)
  ultimately show ?thesis by (auto simp: query_escape_byte_def Let_def upper_hex_safe) (auto simp: query_safe_def Let_def)
qed

lemma query_escape_safe: "list_all query_safe (query_escape s)"
  by (induction s) (simp_all add: query_escape_def query_escape_byte_safe)

lemma hex_value_upper: "d < 16 \<Longrightarrow> hex_value (upper_hex d) = Some d"
  by (auto simp: hex_value_def upper_hex_def Let_def byte_char_of)

lemma query_escape_byte_cases:
  obtains "query_escape_byte c = [c]" "c \<noteq> CHR ''+''" "c \<noteq> CHR ''%''" | "query_escape_byte c = ''+''" "c = CHR '' ''"
    | "query_escape_byte c = [CHR ''%'', upper_hex (byte c div 16), upper_hex (byte c mod 16)]"
proof -
  define plain where "plain \<longleftrightarrow> 48 \<le> byte c \<and> byte c \<le> 57 \<or> 65 \<le> byte c \<and> byte c \<le> 90 \<or> 97 \<le> byte c \<and> byte c \<le> 122
    \<or> List.member [45, 95, 46, 126] (byte c)"
  have e: "query_escape_byte c = (if plain then [c] else if byte c = 32 then ''+''
      else [CHR ''%'', upper_hex (byte c div 16), upper_hex (byte c mod 16)])"
    by (simp add: query_escape_byte_def plain_def Let_def)
  have c: "c = char_of (byte c)" by (simp add: byte_def)
  have s: "char_of (32 :: nat) = CHR '' ''" by (simp add: char_of_def bit_numeral_rec bit_Suc_0_iff)
  show thesis
  proof (cases plain)
    case True
    then have "c \<noteq> CHR ''+''" "c \<noteq> CHR ''%''" by (auto simp: plain_def byte_def)
    with True e that(1) show thesis by simp
  next
    case False
    show thesis
    proof (cases "byte c = 32")
      case True
      then have "c = CHR '' ''" using c s by simp
      with True False e that(2) show thesis by simp
    qed (use False e that(3) in simp)
  qed
qed

lemma query_unescape_byte: "query_unescape (query_escape_byte c @ s) = map_option (Cons c) (query_unescape s)"
proof -
  have "byte c < 256" by (simp add: byte_def)
  then have d: "byte c div 16 < 16" "byte c mod 16 < 16" by simp_all
  have c: "char_of (byte c) = c" by (simp add: byte_def)
  consider "query_escape_byte c = [c]" "c \<noteq> CHR ''+''" "c \<noteq> CHR ''%''" | "query_escape_byte c = ''+''" "c = CHR '' ''"
    | "query_escape_byte c = [CHR ''%'', upper_hex (byte c div 16), upper_hex (byte c mod 16)]"
    by (rule query_escape_byte_cases)
  then show ?thesis by cases (simp_all add: hex_value_upper [OF d(1)] hex_value_upper [OF d(2)] c)
qed

lemma query_unescape_escape: "query_unescape (query_escape s) = Some s"
  by (induction s) (simp_all add: query_escape_def query_unescape_byte)

section \<open>Encoding a form\<close>

text \<open>\<open>url.Values.Encode\<close> on a list of fields, as browsers and clients send them.\<close>

definition encode_field :: "string \<times> string \<Rightarrow> string" where
  "encode_field kv = query_escape (fst kv) @ ''='' @ query_escape (snd kv)"

definition encode_form :: "(string \<times> string) list \<Rightarrow> string" where
  "encode_form kvs = join (map encode_field kvs) ''&''"

definition field_values :: "(string \<times> string) list \<Rightarrow> string \<Rightarrow> string list" where
  "field_values kvs k = map snd (filter (\<lambda>kv. fst kv = k) kvs)"

lemma split_on_none: "sep \<notin> set p \<Longrightarrow> split_on sep p = [p]"
  by (induction p) auto

lemma split_on_append: "sep \<notin> set p \<Longrightarrow> split_on sep (p @ sep # s) = p # split_on sep s"
  by (induction p) auto

lemma split_on_join:
  "ps \<noteq> [] \<Longrightarrow> \<forall>p \<in> set ps. sep \<notin> set p \<Longrightarrow> split_on sep (join ps [sep]) = ps"
  by (induction ps "[sep]" rule: join.induct) (simp_all add: split_on_none split_on_append)

lemma query_escape_no:
  "CHR ''&'' \<notin> set (query_escape s)" "CHR ''='' \<notin> set (query_escape s)" "CHR '';'' \<notin> set (query_escape s)"
proof -
  have "\<not> query_safe CHR ''&''" "\<not> query_safe CHR ''=''" "\<not> query_safe CHR '';''"
    by (simp_all add: query_safe_def byte_def Let_def)
  then show "CHR ''&'' \<notin> set (query_escape s)" "CHR ''='' \<notin> set (query_escape s)" "CHR '';'' \<notin> set (query_escape s)"
    using query_escape_safe [of s] by (metis list_all_iff)+
qed

lemma cut_at_append: "sep \<notin> set k \<Longrightarrow> cut_at sep (k @ sep # v) = (k, v)"
  by (induction k) (auto simp: cut_at_def)

lemma add_encoded_field: "add_piece (encode_field (k, v)) (m, err) = (m(k := m k @ [v]), err)"
  using query_escape_no cut_at_append [of "CHR ''=''" "query_escape k" "query_escape v"]
  by (simp add: add_piece_def encode_field_def query_unescape_escape)

lemma fold_add_encoded:
  "fold add_piece (map encode_field kvs) (m, err) = (\<lambda>k. m k @ field_values kvs k, err)"
proof (induction kvs arbitrary: m)
  case (Cons kv kvs)
  obtain k v where "kv = (k, v)" by (cases kv)
  then show ?case
    using Cons [of "m(k := m k @ [v])"]
    by (simp add: add_encoded_field field_values_def fun_eq_iff del: fun_upd_apply) (simp add: fun_upd_apply)
qed (simp add: field_values_def)

text \<open>Parsing reads back the fields of an encoded form.\<close>

lemma parse_encode_form:
  assumes "kvs \<noteq> []" and "\<not> exceeds limit (length kvs)"
  shows "parse_query limit (encode_form kvs) = (field_values kvs, False)"
proof -
  have "\<forall>p \<in> set (map encode_field kvs). CHR ''&'' \<notin> set p"
    using query_escape_no by (auto simp: encode_field_def)
  then have "split_on (CHR ''&'') (encode_form kvs) = map encode_field kvs"
    using assms(1) split_on_join [of "map encode_field kvs" "CHR ''&''"] by (simp add: encode_form_def)
  then show ?thesis using assms(2) fold_add_encoded [of kvs "\<lambda>_. []" False] by (simp add: parse_query_def Let_def)
qed

end
