(* ===== verification/Go_Url.thy ===== *)
theory Go_Url
  imports Go_Query
begin

text \<open>
  What the sidecar uses of \<open>url.URL\<close>: its fields, the escaped form of its parts, \<open>String\<close> for the
  target of a WebSocket connection and \<open>RequestURI\<close> for the redirect to the login page.
\<close>

section \<open>URLs\<close>

text \<open>The user of a URL has a name and, if one was set, a password.\<close>

record url =
  url_Scheme :: string
  url_Opaque :: string
  url_User :: "(string \<times> string option) option"
  url_Host :: string
  url_Path :: string
  url_RawPath :: string
  url_OmitHost :: bool
  url_ForceQuery :: bool
  url_RawQuery :: string
  url_Fragment :: string
  url_RawFragment :: string

definition empty_url :: url where
  "empty_url = \<lparr>url_Scheme = [], url_Opaque = [], url_User = None, url_Host = [], url_Path = [], url_RawPath = [],
     url_OmitHost = False, url_ForceQuery = False, url_RawQuery = [], url_Fragment = [], url_RawFragment = []\<rparr>"

section \<open>Escaping\<close>

datatype escape_mode = EncodePath | EncodeUserPassword | EncodeHost | EncodeFragment

definition unreserved :: "nat \<Rightarrow> bool" where
  "unreserved b \<longleftrightarrow>
     48 \<le> b \<and> b \<le> 57 \<or> 65 \<le> b \<and> b \<le> 90 \<or> 97 \<le> b \<and> b \<le> 122 \<or> List.member [45, 95, 46, 126] b"

text \<open>\<open>shouldEscape\<close>; the reserved characters are dollar, ampersand, plus, comma, slash, colon, semicolon,
  equals, question mark and at.\<close>

definition should_escape :: "escape_mode \<Rightarrow> char \<Rightarrow> bool" where
  "should_escape mode c =
     (let b = byte c in
      if unreserved b then False
      else if mode = EncodeHost
              \<and> List.member [33, 36, 38, 39, 40, 41, 42, 43, 44, 59, 61, 58, 91, 93, 60, 62, 34] b then False
      else if List.member [36, 38, 43, 44, 47, 58, 59, 61, 63, 64] b then
        (case mode of
           EncodePath \<Rightarrow> b = 63
         | EncodeUserPassword \<Rightarrow> List.member [64, 47, 63, 58] b
         | EncodeHost \<Rightarrow> True
         | EncodeFragment \<Rightarrow> False)
      else if mode = EncodeFragment \<and> List.member [33, 40, 41, 42] b then False
      else True)"

definition escape_byte :: "escape_mode \<Rightarrow> char \<Rightarrow> string" where
  "escape_byte mode c =
     (if should_escape mode c then [CHR ''%'', upper_hex (byte c div 16), upper_hex (byte c mod 16)] else [c])"

definition escape :: "escape_mode \<Rightarrow> string \<Rightarrow> string" where
  "escape mode s = concat (map (escape_byte mode) s)"

text \<open>\<open>unescape\<close> of a path or a fragment, where a plus sign stands for itself.\<close>

fun unescape :: "string \<Rightarrow> string option" where
  "unescape [] = Some []"
| "unescape (c # s) =
     (if c = CHR ''%'' then
        (case s of
           x # y # t \<Rightarrow>
             (case (hex_value x, hex_value y) of
                (Some a, Some b) \<Rightarrow> map_option (Cons (char_of (a * 16 + b))) (unescape t)
              | _ \<Rightarrow> None)
         | _ \<Rightarrow> None)
      else map_option (Cons c) (unescape s))"

text \<open>\<open>validEncoded\<close>.\<close>

definition valid_encoded :: "escape_mode \<Rightarrow> string \<Rightarrow> bool" where
  "valid_encoded mode s =
     list_all (\<lambda>c. List.member [33, 36, 38, 39, 40, 41, 42, 43, 44, 59, 61, 58, 64, 91, 93, 37] (byte c)
                   \<or> \<not> should_escape mode c) s"

text \<open>\<open>EscapedPath\<close> and \<open>EscapedFragment\<close>: the raw form where it is a valid encoding of the decoded one.\<close>

definition escaped_path :: "string \<Rightarrow> string \<Rightarrow> string" where
  "escaped_path path raw =
     (if raw \<noteq> [] \<and> valid_encoded EncodePath raw \<and> unescape raw = Some path then raw
      else if path = ''*'' then ''*'' else escape EncodePath path)"

definition escaped_fragment :: "string \<Rightarrow> string \<Rightarrow> string" where
  "escaped_fragment fragment raw =
     (if raw \<noteq> [] \<and> valid_encoded EncodeFragment raw \<and> unescape raw = Some fragment then raw
      else escape EncodeFragment fragment)"

section \<open>Printing\<close>

definition user_string :: "string \<times> string option \<Rightarrow> string" where
  "user_string u =
     escape EncodeUserPassword (fst u)
     @ (case snd u of None \<Rightarrow> [] | Some password \<Rightarrow> '':'' @ escape EncodeUserPassword password)"

text \<open>The scheme and the authority.\<close>

definition url_start :: "url \<Rightarrow> string" where
  "url_start u =
     (if url_Scheme u \<noteq> [] then url_Scheme u @ '':'' else [])
     @ (if (url_Scheme u \<noteq> [] \<or> url_Host u \<noteq> [] \<or> url_User u \<noteq> None)
           \<and> \<not> (url_OmitHost u \<and> url_Host u = [] \<and> url_User u = None)
        then (if url_Host u \<noteq> [] \<or> url_Path u \<noteq> [] \<or> url_User u \<noteq> None then ''//'' else [])
             @ (case url_User u of None \<Rightarrow> [] | Some ui \<Rightarrow> user_string ui @ ''@'')
             @ escape EncodeHost (url_Host u)
        else [])"

definition url_String :: "url \<Rightarrow> string" where
  "url_String u =
     (if url_Opaque u \<noteq> [] then (if url_Scheme u \<noteq> [] then url_Scheme u @ '':'' else []) @ url_Opaque u
      else let path = escaped_path (url_Path u) (url_RawPath u);
               start = url_start u
                 @ (if path \<noteq> [] \<and> hd path \<noteq> CHR ''/'' \<and> url_Host u \<noteq> [] then ''/'' else [])
           in start
              @ (if start = [] \<and> List.member (fst (cut_at (CHR ''/'') path)) (CHR '':'') then ''./'' else [])
              @ path)
     @ (if url_ForceQuery u \<or> url_RawQuery u \<noteq> [] then ''?'' @ url_RawQuery u else [])
     @ (if url_Fragment u \<noteq> [] then ''#'' @ escaped_fragment (url_Fragment u) (url_RawFragment u) else [])"

text \<open>
  \<open>r.URL.RequestURI()\<close> of a request that has a path, and so no opaque part.
\<close>

definition request_uri :: "request \<Rightarrow> string" where
  "request_uri r =
     (let path = escaped_path (req_Path r) (req_RawPath r) in if path = [] then ''/'' else path)
     @ (if req_ForceQuery r \<or> req_RawQuery r \<noteq> [] then ''?'' @ req_RawQuery r else [])"

section \<open>Facts\<close>

lemma percent_escaped: "should_escape mode CHR ''%''"
  by (cases mode) (simp_all add: should_escape_def unreserved_def byte_def Let_def)

lemma unescape_escape_byte: "unescape (escape_byte mode c @ s) = map_option (Cons c) (unescape s)"
proof -
  have "byte c < 256" by (simp add: byte_def)
  then have d: "byte c div 16 < 16" "byte c mod 16 < 16" by simp_all
  have c: "char_of (byte c) = c" by (simp add: byte_def)
  show ?thesis
    using percent_escaped [of mode]
    by (auto simp: escape_byte_def hex_value_upper [OF d(1)] hex_value_upper [OF d(2)] c)
qed

text \<open>Escaping is undone by unescaping, and its result is a valid encoding.\<close>

lemma unescape_escape: "unescape (escape mode s) = Some s"
  by (induction s) (simp_all add: escape_def unescape_escape_byte)

lemma hex_upper_unreserved: "d < 16 \<Longrightarrow> unreserved (byte (upper_hex d))"
  by (auto simp: unreserved_def upper_hex_def byte_char_of)

lemma valid_escape_byte: "valid_encoded mode (escape_byte mode c)"
proof -
  have "byte c < 256" by (simp add: byte_def)
  then have "unreserved (byte (upper_hex (byte c div 16)))" "unreserved (byte (upper_hex (byte c mod 16)))"
    by (simp_all add: hex_upper_unreserved)
  moreover have "byte CHR ''%'' = 37" by (simp add: byte_def)
  ultimately show ?thesis by (simp add: escape_byte_def valid_encoded_def should_escape_def Let_def)
qed

lemma valid_escape: "valid_encoded mode (escape mode s)"
  using valid_escape_byte by (induction s) (simp_all add: escape_def valid_encoded_def)

text \<open>The escaped path always decodes to the path.\<close>

lemma unescape_escaped_path: "unescape (escaped_path path raw) = Some path"
proof -
  have "unescape ''*'' = Some ''*''" by simp
  then show ?thesis by (simp add: escaped_path_def unescape_escape)
qed

lemma escape_Nil_iff [simp]: "escape mode s = [] \<longleftrightarrow> s = []"
  by (cases s) (simp_all add: escape_def escape_byte_def)

lemma escape_plain: "list_all (\<lambda>c. \<not> should_escape mode c) s \<Longrightarrow> escape mode s = s"
  by (induction s) (simp_all add: escape_def escape_byte_def)

lemma slash_not_escaped: "\<not> should_escape EncodePath CHR ''/''"
  by (simp add: should_escape_def unreserved_def byte_def Let_def)

lemma escaped_path_cases:
  "raw \<noteq> [] \<and> escaped_path path raw = raw \<or> path = ''*'' \<or> escaped_path path raw = escape EncodePath path"
  unfolding escaped_path_def by (simp only: split: if_split) blast

lemma escape_local:
  assumes "prefix ''/'' path" and "\<not> prefix ''//'' path"
  shows "prefix ''/'' (escape EncodePath path) \<and> \<not> prefix ''//'' (escape EncodePath path)"
proof -
  obtain t where t: "path = CHR ''/'' # t" using assms(1) by (auto simp: prefix_def)
  then have "escape EncodePath path = CHR ''/'' # escape EncodePath t"
    using slash_not_escaped by (simp add: escape_def escape_byte_def)
  moreover have "\<not> prefix ''/'' (escape EncodePath t)"
    using assms(2) t by (cases t) (auto simp: escape_def escape_byte_def)
  ultimately show ?thesis by simp
qed

lemma valid_escaped_path: "valid_encoded EncodePath (escaped_path path raw) \<or> path = ''*''"
  using escaped_path_cases [of raw path] valid_escape [of EncodePath path]
  by (cases "raw \<noteq> [] \<and> valid_encoded EncodePath raw \<and> unescape raw = Some path") (auto simp: escaped_path_def)

lemma escaped_path_raw: "raw \<noteq> [] \<Longrightarrow> valid_encoded EncodePath raw \<Longrightarrow> unescape raw = Some path \<Longrightarrow> escaped_path path raw = raw"
  by (simp add: escaped_path_def)

lemma escaped_path_again:
  assumes "path \<noteq> ''*''" and "path \<noteq> []"
  shows "escaped_path path (escaped_path path raw) = escaped_path path raw"
proof (rule escaped_path_raw)
  show u: "unescape (escaped_path path raw) = Some path" by (rule unescape_escaped_path)
  show "escaped_path path raw \<noteq> []" using u assms(2) by auto
  show "valid_encoded EncodePath (escaped_path path raw)" using valid_escaped_path assms(1) by blast
qed

lemma escaped_path_slash:
  assumes "prefix ''/'' path" and "raw = [] \<or> prefix ''/'' raw"
  shows "prefix ''/'' (escaped_path path raw)"
proof -
  have "prefix ''/'' (escape EncodePath path)"
    using assms(1) slash_not_escaped by (auto simp: prefix_def escape_def escape_byte_def)
  moreover have "path \<noteq> ''*''" using assms(1) by auto
  ultimately show ?thesis using escaped_path_cases [of raw path] assms(2) by auto
qed

lemma escape_append: "escape mode (s @ t) = escape mode s @ escape mode t"
  by (simp add: escape_def)

lemma unescape_append: "unescape s = Some a \<Longrightarrow> unescape t = Some b \<Longrightarrow> unescape (s @ t) = Some (a @ b)"
  by (induction s arbitrary: a rule: unescape.induct) (auto split: if_splits list.splits option.splits)

lemma upper_hex_not_slash: "d < 16 \<Longrightarrow> upper_hex d \<noteq> CHR ''/''"
  using hex_upper_unreserved [of d] by (auto simp: unreserved_def byte_def)

lemma escape_suffix_slash: "suffix ''/'' (escape EncodePath path) \<longleftrightarrow> suffix ''/'' path"
proof (cases path rule: rev_cases)
  case (snoc q c)
  have "byte c mod 16 < 16" by simp
  then show ?thesis using snoc slash_not_escaped upper_hex_not_slash [of "byte c mod 16"]
    by (auto simp: escape_append escape_def escape_byte_def suffix_def)
qed (simp add: escape_def)

end
