(* ===== verification/Go_Mime.thy ===== *)
theory Go_Mime
  imports Go_Url
begin

text \<open>
  What the sidecar uses of package \<open>mime\<close>: \<open>mime.ParseMediaType\<close>, with the parameters split and
  encoded as in RFC 2231. It finds the kind of a request body and the boundary of a multipart
  body, and the field and file name of a part.
\<close>

section \<open>Tokens and values\<close>

definition is_tspecial :: "char \<Rightarrow> bool" where
  "is_tspecial c \<longleftrightarrow> List.member [40, 41, 60, 62, 64, 44, 59, 58, 92, 34, 47, 91, 93, 63, 61] (byte c)"

definition is_token_char :: "char \<Rightarrow> bool" where
  "is_token_char c \<longleftrightarrow> 32 < byte c \<and> byte c < 127 \<and> \<not> is_tspecial c"

definition consume_token :: "string \<Rightarrow> string \<times> string" where
  "consume_token v = (takeWhile is_token_char v, dropWhile is_token_char v)"

text \<open>
  The rest of a quoted string after its opening quote; \<open>None\<close> for one that has a line break or
  no end. A backslash escapes special characters only.
\<close>

fun quoted_rest :: "string \<Rightarrow> (string \<times> string) option" where
  "quoted_rest [] = None"
| "quoted_rest (c # s) =
     (if c = dquote then Some ([], s)
      else case s of
             d # t \<Rightarrow>
               if c = backslash \<and> is_tspecial d then map_option (\<lambda>(v, r). (d # v, r)) (quoted_rest t)
               else if byte c = 13 \<or> byte c = 10 then None
               else map_option (\<lambda>(v, r). (c # v, r)) (quoted_rest s)
           | [] \<Rightarrow> None)"

definition consume_value :: "string \<Rightarrow> string \<times> string" where
  "consume_value v =
     (case v of
        [] \<Rightarrow> ([], [])
      | c # s \<Rightarrow>
          if c \<noteq> dquote then consume_token v
          else case quoted_rest s of None \<Rightarrow> ([], v) | Some (x, r) \<Rightarrow> (x, r))"

text \<open>\<open>consumeMediaParam\<close>: the name, the value and the rest; \<open>None\<close> when there is no parameter.\<close>

definition consume_media_param :: "string \<Rightarrow> (string \<times> string \<times> string) option" where
  "consume_media_param v =
     (case trim_left v of
        [] \<Rightarrow> None
      | c # s \<Rightarrow>
          if c \<noteq> CHR '';'' then None
          else case consume_token (trim_left s) of (name, s1) \<Rightarrow>
            if name = [] then None
            else case trim_left s1 of
                   [] \<Rightarrow> None
                 | d # s2 \<Rightarrow>
                     if d \<noteq> CHR ''='' then None
                     else let s3 = trim_left s2; (x, rest) = consume_value s3
                          in if x = [] \<and> rest = s3 then None else Some (to_lower name, x, rest))"

section \<open>The media type\<close>

text \<open>\<open>checkMediaTypeDisposition\<close>.\<close>

definition media_type_ok :: "string \<Rightarrow> bool" where
  "media_type_ok s =
     (case consume_token s of (typ, rest) \<Rightarrow>
        typ \<noteq> [] \<and> (rest = [] \<or> hd rest = CHR ''/''
          \<and> (case consume_token (tl rest) of (subtype, rest1) \<Rightarrow> subtype \<noteq> [] \<and> rest1 = [])))"

datatype 'a media = BadParameter | DuplicateParameter | MediaParams 'a

text \<open>The parameters in the order they are met, or the error that ends the loop.\<close>

lemma length_trim_left: "length (trim_left s) \<le> length s"
  using trim_left_suffix by (rule suffix_length_le)

lemma consume_token_length: "consume_token v = (x, r) \<Longrightarrow> length r \<le> length v"
  by (auto simp: consume_token_def length_dropWhile_le)

lemma quoted_rest_length: "quoted_rest s = Some (x, r) \<Longrightarrow> length r < length s"
proof (induction s arbitrary: x r rule: quoted_rest.induct)
  case (2 c s)
  show ?case
  proof (cases "c = dquote")
    case False
    with 2(3) obtain d t where s: "s = d # t" by (cases s) auto
    show ?thesis
    proof (cases "c = backslash \<and> is_tspecial d")
      case True
      with 2(3) False s obtain v where "quoted_rest t = Some (v, r)" by auto
      with 2(1) [OF False s True] s show ?thesis by fastforce
    next
      case bs: False
      with 2(3) False s obtain v where "quoted_rest s = Some (v, r)" "\<not> (byte c = 13 \<or> byte c = 10)"
        by (auto split: if_splits)
      with 2(2) [OF False s bs] s show ?thesis by fastforce
    qed
  qed (use 2(3) in simp)
qed simp

lemma consume_value_length: "consume_value v = (x, r) \<Longrightarrow> length r \<le> length v"
  by (auto simp: consume_value_def dest: consume_token_length quoted_rest_length
      split: list.splits if_splits option.splits)

lemma consume_media_param_shorter:
  assumes "consume_media_param v = Some (k, x, r)"
  shows "length r < length v"
proof -
  obtain s name s1 s2 where "trim_left v = CHR '';'' # s" "consume_token (trim_left s) = (name, s1)"
    "trim_left s1 = CHR ''='' # s2" "consume_value (trim_left s2) = (x, r)"
    using assms by (auto simp: consume_media_param_def Let_def split: list.splits if_splits prod.splits)
  then show ?thesis
    using length_trim_left [of v] length_trim_left [of s] length_trim_left [of s1] length_trim_left [of s2]
      consume_token_length [of "trim_left s" name s1] consume_value_length [of "trim_left s2" x r] by simp
qed

function media_params :: "(string \<times> string) list \<Rightarrow> string \<Rightarrow> (string \<times> string) list media" where
  "media_params acc v =
     (let u = trim_left v in
      if u = [] then MediaParams acc
      else case consume_media_param u of
             None \<Rightarrow> if trim_space u = '';'' then MediaParams acc else BadParameter
           | Some (k, x, rest) \<Rightarrow>
               if map_of acc k \<notin> {None, Some x} then DuplicateParameter
               else media_params (AList.update k x acc) rest)"
  by pat_completeness auto
termination
proof (relation "measure (length \<circ> snd)", goal_cases)
  case (2 acc v u p k y x rest)
  then show ?case using consume_media_param_shorter [of u k x rest] length_trim_left [of v] by simp
qed simp


declare media_params.simps [simp del]

section \<open>Continuations\<close>

text \<open>\<open>decode2231Enc\<close>: charset, language and percent-encoded text between apostrophes.\<close>

definition decode_2231 :: "string \<Rightarrow> string option" where
  "decode_2231 v =
     (let a = cut_at (CHR 0x27) v; b = cut_at (CHR 0x27) (snd a)
      in if count_list v (CHR 0x27) < 2 then None
         else if \<not> List.member [''us-ascii'', ''utf-8''] (to_lower (fst a)) then None
         else unescape (snd b))"

text \<open>The text of piece \<open>n\<close> of a parameter: plain, or encoded, where the first piece has the charset.\<close>

definition media_piece :: "(string \<times> string) list \<Rightarrow> string \<Rightarrow> nat \<Rightarrow> string option" where
  "media_piece ps key n =
     (let simple = key @ ''*'' @ itoa n
      in case map_of ps simple of
           Some v \<Rightarrow> Some v
         | None \<Rightarrow>
             (case map_of ps (simple @ ''*'') of
                None \<Rightarrow> None
              | Some v \<Rightarrow>
                  Some (case (if n = 0 then decode_2231 v else unescape v) of Some x \<Rightarrow> x | None \<Rightarrow> [])))"

text \<open>
  The pieces up to the first number that is missing; there are no more of them than parameters.
\<close>

definition media_pieces :: "(string \<times> string) list \<Rightarrow> string \<Rightarrow> string list" where
  "media_pieces ps key =
     map the (takeWhile (\<lambda>p. p \<noteq> None) (map (media_piece ps key) [0..<length ps]))"

text \<open>The value of a parameter: from its encoded form, its pieces, or as it stands.\<close>

definition media_param :: "(string \<times> string) list \<Rightarrow> string \<Rightarrow> string option" where
  "media_param ps key =
     (if List.member key (CHR ''*'') then None
      else case map_of ps (key @ ''*'') of
             Some v \<Rightarrow> (case decode_2231 v of Some x \<Rightarrow> Some x | None \<Rightarrow> map_of ps key)
           | None \<Rightarrow> if media_pieces ps key \<noteq> [] then Some (concat (media_pieces ps key)) else map_of ps key)"

section \<open>ParseMediaType\<close>

text \<open>The media type, the parameters, and whether an error is returned.\<close>

definition parse_media_type :: "string \<Rightarrow> string \<times> (string \<rightharpoonup> string) \<times> bool" where
  "parse_media_type v =
     (let base = fst (cut_at (CHR '';'') v);
          mediatype = trim_space (to_lower base)
      in if \<not> media_type_ok mediatype then ([], Map.empty, True)
         else case media_params [] (drop (length base) v) of
                MediaParams ps \<Rightarrow> (mediatype, media_param ps, False)
              | DuplicateParameter \<Rightarrow> ([], Map.empty, True)
              | BadParameter \<Rightarrow> (mediatype, Map.empty, True))"

end
