(* ===== verification/Extractor.thy ===== *)
theory Extractor
  imports Model Json Go_Io Go_Query Go_Mime
begin

text \<open>
  \<open>extractor.go\<close>: which parts of a client request are user input. One definition per function
  of the file, with the mutated \<open>*Extraction\<close> as a value that is passed on.
\<close>

section \<open>The library calls on request bodies\<close>

text \<open>
  The limit of \<open>url.ParseQuery\<close> on the number of parameters and the parts that a
  \<open>multipart.Reader\<close> delivers for a boundary and a body are inputs of the model: every theorem
  holds for all of them. The parts are a list, in the order of the \<open>NextPart\<close> calls, each with its
  header and content; the end of the list is \<open>io.EOF\<close>.
\<close>

datatype next_part =
    Part (part_header: header) (part_content: stream)
  | PartError

record wire_lib =
  max_form_params :: "nat option"
  multipart_parts :: "string \<Rightarrow> string \<Rightarrow> next_part list"

text \<open>\<open>Part.FormName\<close> and \<open>Part.FileName\<close>, from the header \<open>Content-Disposition\<close>.\<close>

definition disposition :: "header \<Rightarrow> string \<times> (string \<rightharpoonup> string)" where
  "disposition h =
     (case parse_media_type (header_get h ''Content-Disposition'') of (d, params, err) \<Rightarrow>
        (d, if err then Map.empty else params))"

definition part_param :: "header \<Rightarrow> string \<Rightarrow> string" where
  "part_param h name = (case snd (disposition h) name of None \<Rightarrow> [] | Some v \<Rightarrow> v)"

definition FormName :: "header \<Rightarrow> string" where
  "FormName h = (if fst (disposition h) \<noteq> ''form-data'' then [] else part_param h ''name'')"

text \<open>\<open>filepath.Base\<close> of a path that is not empty.\<close>

definition path_base :: "string \<Rightarrow> string" where
  "path_base p =
     (let base = rev (takeWhile (\<lambda>c. c \<noteq> CHR ''/'') (dropWhile (\<lambda>c. c = CHR ''/'') (rev p)))
      in if base = [] then ''/'' else base)"

definition FileName :: "header \<Rightarrow> string" where
  "FileName h = (let filename = part_param h ''filename'' in if filename = [] then [] else path_base filename)"

section \<open>Leaves\<close>

definition excludedRoleNames :: "string list" where
  "excludedRoleNames = [''system'', ''developer'', ''assistant'', ''tool'']"

definition promptFieldNames :: "string list" where
  "promptFieldNames = [''prompt'', ''query'', ''input'', ''text'', ''description'']"

definition addUserMessage :: "extraction \<Rightarrow> string \<Rightarrow> string \<Rightarrow> extraction" where
  "addUserMessage e text source =
     (if blank text then e
      else e\<lparr>Messages := Messages e @
               [\<lparr>Index = length (Messages e), Text = text, Source = source\<rparr>]\<rparr>)"

definition incrementExcluded :: "extraction \<Rightarrow> string \<Rightarrow> extraction" where
  "incrementExcluded e role =
     (let m = (case ExcludedRoles e of None \<Rightarrow> Map.empty | Some f \<Rightarrow> f)
      in e\<lparr>ExcludedRoles := Some (m(role \<mapsto> role_count (Some m) role + 1))\<rparr>)"

fun hasValue :: "json \<Rightarrow> bool" where
  "hasValue JNull = False"
| "hasValue (JString s) = (\<not> blank s)"
| "hasValue (JArray xs) = (xs \<noteq> [])"
| "hasValue (JObject kvs) = (kvs \<noteq> [])"
| "hasValue _ = True"

definition modelFromJSON :: "json \<Rightarrow> string" where
  "modelFromJSON root =
     (case root of JObject obj \<Rightarrow> trim_space (string_or_empty obj ''model'') | _ \<Rightarrow> [])"

definition protocolForPath :: "string \<Rightarrow> string" where
  "protocolForPath path =
     (let lower = to_lower path in
      if contains lower ''/chat/completions'' then ''openai-chat''
      else if contains lower ''/responses'' then ''openai-responses''
      else if contains lower ''/messages'' then ''anthropic-messages''
      else if contains lower ''generatecontent'' \<or> contains lower ''/v1beta'' then ''gemini''
      else if contains lower ''/images'' \<or> contains lower ''/videos'' \<or> contains lower ''/media''
        then ''media''
      else ''generic'')"

text \<open>
  The index found in the lowered path is used to slice the path itself; the slice panics when
  it starts past the end.
\<close>

definition cut_before :: "char \<Rightarrow> string \<Rightarrow> string" where
  "cut_before sep s = (case index_of s [sep] of None \<Rightarrow> s | Some i \<Rightarrow> take i s)"

definition slice_from :: "string \<Rightarrow> nat \<Rightarrow> string outcome" where
  "slice_from s i = (if i \<le> length s then Return (drop i s) else Panic)"

definition modelFromPath :: "string \<Rightarrow> string outcome" where
  "modelFromPath path =
     (let lower = to_lower path; marker = ''/models/'' in
      case index_of lower marker of
        None \<Rightarrow> Return []
      | Some index \<Rightarrow>
          bind_outcome (slice_from path (index + length marker))
            (\<lambda>model. Return (trim_space (cut_before (CHR ''/'') (cut_before (CHR '':'') model)))))"

definition isPromptField :: "string \<Rightarrow> bool" where
  "isPromptField value = List.member promptFieldNames value"

section \<open>Content\<close>

text \<open>\<open>fmt.Sprintf("%s[%d]", source, index)\<close>.\<close>

definition indexed :: "string \<Rightarrow> nat \<Rightarrow> string" where
  "indexed source i = source @ ''['' @ itoa i @ '']''"

definition text_part_type :: "string \<Rightarrow> bool" where
  "text_part_type partType \<longleftrightarrow>
     equal_fold partType '''' \<or> equal_fold partType ''text'' \<or> equal_fold partType ''input_text''"

function extractContent :: "extraction \<Rightarrow> json \<Rightarrow> string \<Rightarrow> extraction"
  and extractContentItems :: "extraction \<Rightarrow> json list \<Rightarrow> string \<Rightarrow> nat \<Rightarrow> extraction"
where
  "extractContent e (JString s) source = addUserMessage e s source"
| "extractContent e (JArray items) source = extractContentItems e items source 0"
| "extractContent e (JObject typed) source =
     (case get_string typed ''text'' of
        Some text \<Rightarrow> addUserMessage e text (source @ ''.text'')
      | None \<Rightarrow>
          (case map_of typed ''content'' of
             Some nested \<Rightarrow> extractContent e nested (source @ ''.content'')
           | None \<Rightarrow> e))"
| "extractContent e JNull source = e"
| "extractContent e (JBool b) source = e"
| "extractContent e (JNumber n) source = e"
| "extractContentItems e [] source index = e"
| "extractContentItems e (item # rest) source index =
     extractContentItems
       (case item of
          JString part \<Rightarrow> addUserMessage e part (indexed source index)
        | JObject part \<Rightarrow>
            (let partType = string_or_empty part ''type'' in
             case (if text_part_type partType then get_string part ''text'' else None) of
               Some text \<Rightarrow> addUserMessage e text (indexed source index @ ''.text'')
             | None \<Rightarrow>
                 (case map_of part ''content'' of
                    Some nested \<Rightarrow>
                      extractContent e nested (indexed source index @ ''.content'')
                  | None \<Rightarrow> e))
        | _ \<Rightarrow> e)
       rest source (Suc index)"
  by pat_completeness auto
termination
proof (relation "measure (\<lambda>x. case x of
    Inl (e, v, s) \<Rightarrow> size v | Inr (e, xs, s, i) \<Rightarrow> size_list size xs)")
qed (auto simp: json_object_size dest!: json_object_size)

definition extractParts :: "extraction \<Rightarrow> json \<Rightarrow> string \<Rightarrow> extraction" where
  "extractParts e value source = extractContent e value source"


section \<open>Messages and protocols\<close>

definition normal_role :: "string \<Rightarrow> string" where
  "normal_role role = to_lower (trim_space role)"

definition extractRoleMessage :: "extraction \<Rightarrow> json_object \<Rightarrow> string \<Rightarrow> extraction" where
  "extractRoleMessage e obj source =
     (let role0 = normal_role (string_or_empty obj ''role'');
          role = (if role0 = [] then ''user'' else role0)
      in if List.member excludedRoleNames role then incrementExcluded e role
         else if role \<noteq> ''user'' then e
         else case map_of obj ''content'' of
                Some content \<Rightarrow> extractContent e content (source @ ''.content'')
              | None \<Rightarrow>
                  (case map_of obj ''parts'' of
                     Some parts \<Rightarrow> extractParts e parts (source @ ''.parts'')
                   | None \<Rightarrow>
                       (case get_string obj ''text'' of
                          Some text \<Rightarrow> addUserMessage e text (source @ ''.text'')
                        | None \<Rightarrow> e)))"

text \<open>The loop over \<open>messages\<close> that the chat, Anthropic and generic formats share.\<close>

fun extract_messages :: "extraction \<Rightarrow> json list \<Rightarrow> nat \<Rightarrow> extraction" where
  "extract_messages e [] index = e"
| "extract_messages e (raw # rest) index =
     extract_messages
       (case raw of
          JObject message \<Rightarrow> extractRoleMessage e message (indexed ''messages'' index)
        | _ \<Rightarrow> e)
       rest (Suc index)"

text \<open>\<open>if value, ok := object[key]; ok && hasValue(value) { incrementExcluded(...) }\<close>.\<close>

definition exclude_field :: "extraction \<Rightarrow> json_object \<Rightarrow> string \<Rightarrow> string \<Rightarrow> extraction" where
  "exclude_field e obj key role =
     (case map_of obj key of
        Some value \<Rightarrow> if hasValue value then incrementExcluded e role else e
      | None \<Rightarrow> e)"

fun add_strings :: "extraction \<Rightarrow> string \<Rightarrow> json list \<Rightarrow> nat \<Rightarrow> extraction" where
  "add_strings e key [] index = e"
| "add_strings e key (item # rest) index =
     add_strings
       (case item of JString text \<Rightarrow> addUserMessage e text (indexed key index) | _ \<Rightarrow> e)
       key rest (Suc index)"

fun extract_prompt_fields :: "extraction \<Rightarrow> json_object \<Rightarrow> string list \<Rightarrow> extraction" where
  "extract_prompt_fields e obj [] = e"
| "extract_prompt_fields e obj (key # keys) =
     extract_prompt_fields
       (case map_of obj key of
          Some (JString typed) \<Rightarrow> addUserMessage e typed key
        | Some (JArray typed) \<Rightarrow> add_strings e key typed 0
        | _ \<Rightarrow> e)
       obj keys"

text \<open>\<open>if len(extraction.Messages) == 0 { unsupported } else { partial }\<close>.\<close>

definition set_partial :: "extraction \<Rightarrow> extraction" where
  "set_partial e =
     (if Messages e = [] then e\<lparr>Status := ''unsupported''\<rparr> else e\<lparr>Status := ''partial''\<rparr>)"

definition extractGeneric :: "extraction \<Rightarrow> json_object \<Rightarrow> extraction" where
  "extractGeneric e obj =
     (let fields = (\<lambda>e. set_partial (extract_prompt_fields e obj promptFieldNames)) in
      case get_array obj ''messages'' of
        Some messages \<Rightarrow>
          (let e1 = extract_messages e messages 0
           in if Messages e1 \<noteq> [] \<or> messages \<noteq> [] then e1 else fields e1)
      | None \<Rightarrow> fields e)"

definition extractOpenAIChat :: "extraction \<Rightarrow> json_object \<Rightarrow> extraction" where
  "extractOpenAIChat e obj =
     (let e1 = exclude_field e obj ''system'' ''system'';
          e2 = exclude_field e1 obj ''developer'' ''developer''
      in case get_array obj ''messages'' of
           None \<Rightarrow> extractGeneric e2 obj
         | Some messages \<Rightarrow>
             (let e3 = extract_messages e2 messages 0
              in if messages = [] then e3\<lparr>Status := ''empty''\<rparr> else e3))"

fun extract_inputs :: "extraction \<Rightarrow> json list \<Rightarrow> nat \<Rightarrow> extraction" where
  "extract_inputs e [] index = e"
| "extract_inputs e (raw # rest) index =
     extract_inputs
       (case raw of
          JString text \<Rightarrow> addUserMessage e text (indexed ''input'' index)
        | JObject item \<Rightarrow>
            if blank (string_or_empty item ''role'') \<and> string_or_empty item ''type'' = ''input_text''
            then (let text = string_or_empty item ''text'' in
                  if text \<noteq> [] then addUserMessage e text (indexed ''input'' index @ ''.text'')
                  else e)
            else extractRoleMessage e item (indexed ''input'' index)
        | _ \<Rightarrow> e)
       rest (Suc index)"

definition extractResponses :: "extraction \<Rightarrow> json_object \<Rightarrow> extraction" where
  "extractResponses e obj =
     (let e1 = exclude_field e obj ''instructions'' ''system'' in
      case map_of obj ''input'' of
        None \<Rightarrow> if Messages e1 = [] then e1\<lparr>Status := ''empty''\<rparr> else e1
      | Some (JString value) \<Rightarrow> addUserMessage e1 value ''input''
      | Some (JArray value) \<Rightarrow> extract_inputs e1 value 0
      | Some (JObject value) \<Rightarrow> extractRoleMessage e1 value ''input''
      | Some _ \<Rightarrow> e1\<lparr>Status := ''partial''\<rparr>)"

definition extractAnthropic :: "extraction \<Rightarrow> json_object \<Rightarrow> extraction" where
  "extractAnthropic e obj =
     (let e1 = exclude_field e obj ''system'' ''system'' in
      case get_array obj ''messages'' of
        None \<Rightarrow> e1\<lparr>Status := ''empty''\<rparr>
      | Some messages \<Rightarrow> extract_messages e1 messages 0)"

fun extract_contents :: "extraction \<Rightarrow> json list \<Rightarrow> nat \<Rightarrow> extraction" where
  "extract_contents e [] index = e"
| "extract_contents e (raw # rest) index =
     extract_contents
       (case raw of
          JObject content \<Rightarrow>
            (let role = normal_role (string_or_empty content ''role'') in
             if role = ''model'' then incrementExcluded e ''assistant''
             else if role = ''system'' \<or> role = ''developer'' then incrementExcluded e role
             else extractParts e
                    (case map_of content ''parts'' of Some v \<Rightarrow> v | None \<Rightarrow> JNull)
                    (indexed ''contents'' index @ ''.parts''))
        | _ \<Rightarrow> e)
       rest (Suc index)"

definition extractGemini :: "extraction \<Rightarrow> json_object \<Rightarrow> extraction" where
  "extractGemini e obj =
     (let e1 = exclude_field e obj ''systemInstruction'' ''system'';
          e2 = exclude_field e1 obj ''system_instruction'' ''system''
      in case get_array obj ''contents'' of
           None \<Rightarrow> extractGeneric e2 obj
         | Some contents \<Rightarrow> extract_contents e2 contents 0)"

definition extractJSONByProtocol :: "extraction \<Rightarrow> json \<Rightarrow> extraction" where
  "extractJSONByProtocol e root =
     (case root of
        JObject obj \<Rightarrow>
          (let protocol = Protocol e in
           if protocol = ''openai-chat'' then extractOpenAIChat e obj
           else if protocol = ''openai-responses'' \<or> protocol = ''openai-responses-ws''
             then extractResponses e obj
           else if protocol = ''anthropic-messages'' then extractAnthropic e obj
           else if protocol = ''gemini'' then extractGemini e obj
           else extractGeneric e obj)
      | _ \<Rightarrow> e\<lparr>Status := ''unsupported''\<rparr>)"

section \<open>Forms and whole requests\<close>

fun add_values :: "extraction \<Rightarrow> string \<Rightarrow> string list \<Rightarrow> extraction" where
  "add_values e key [] = e"
| "add_values e key (v # vs) = add_values (addUserMessage e v key) key vs"

fun add_form_fields :: "extraction \<Rightarrow> (string \<Rightarrow> string list) \<Rightarrow> string list \<Rightarrow> extraction" where
  "add_form_fields e values [] = e"
| "add_form_fields e values (key # keys) = add_form_fields (add_values e key (values key)) values keys"

definition extractFormValues :: "wire_lib \<Rightarrow> extraction \<Rightarrow> string \<Rightarrow> extraction" where
  "extractFormValues lib e body =
     (case parse_query (max_form_params lib) body of (values, err) \<Rightarrow>
        if err then e\<lparr>Status := ''unsupported''\<rparr>
        else set_partial (add_form_fields e values promptFieldNames))"

text \<open>The loop over the parts: the extraction so far and whether an error ended the loop.\<close>

fun multipart_loop :: "extraction \<Rightarrow> next_part list \<Rightarrow> extraction \<times> bool" where
  "multipart_loop e [] = (e, False)"
| "multipart_loop e (PartError # rest) = (e, True)"
| "multipart_loop e (Part h content # rest) =
     (let name = to_lower (trim_space (FormName h)) in
      if \<not> isPromptField name \<or> FileName h \<noteq> [] then multipart_loop e rest
      else (let (value, err) = read_limited (2 ^ 20) content in
            if err then (e, True) else multipart_loop (addUserMessage e value name) rest))"

text \<open>\<open>extractMultipart\<close> with its error result.\<close>

definition extractMultipart :: "wire_lib \<Rightarrow> extraction \<Rightarrow> string \<Rightarrow> string \<Rightarrow> extraction \<times> bool" where
  "extractMultipart lib e contentType body =
     (let (_, params, err) = parse_media_type contentType;
          boundary = (case params ''boundary'' of Some b \<Rightarrow> b | None \<Rightarrow> [])
      in if err then (e, True)
         else if boundary = [] then (e, True)
         else (let (e1, failed) = multipart_loop e (multipart_parts lib boundary body)
               in if failed then (e1, True) else (set_partial e1, False)))"

definition new_extraction :: "string \<Rightarrow> extraction" where
  "new_extraction path =
     \<lparr>Protocol = protocolForPath path, ModelName = [], Messages = [],
      ExcludedRoles = Some Map.empty, Status = [], Truncated = False,
      PromptText = [], PromptSHA256 = []\<rparr>"

text \<open>
  \<open>ExtractRequest\<close>: every return of the Go function finalizes the extraction that
  \<open>extract_body\<close> gives.
\<close>

definition extract_body :: "wire_lib \<Rightarrow> extraction \<Rightarrow> string \<Rightarrow> string \<Rightarrow> extraction" where
  "extract_body lib e contentType body =
     (if body = [] then e\<lparr>Status := ''empty''\<rparr>
      else let mediaType = fst (parse_media_type contentType) in
           if mediaType = ''application/x-www-form-urlencoded'' then extractFormValues lib e body
           else if mediaType = ''multipart/form-data'' then
             (let (e1, err) = extractMultipart lib e contentType body
              in if err then e1\<lparr>Status := ''unsupported''\<rparr> else e1)
           else
             (case json_unmarshal body of
                None \<Rightarrow> e\<lparr>Status := ''unsupported''\<rparr>
              | Some root \<Rightarrow> extractJSONByProtocol (e\<lparr>ModelName := modelFromJSON root\<rparr>) root))"

definition ExtractRequest :: "wire_lib \<Rightarrow> string \<Rightarrow> string \<Rightarrow> string \<Rightarrow> int \<Rightarrow> extraction" where
  "ExtractRequest lib path contentType body maxPromptBytes =
     finalize (extract_body lib (new_extraction path) contentType body) maxPromptBytes"

definition extract_event :: "extraction \<Rightarrow> json \<Rightarrow> extraction" where
  "extract_event e root =
     (case root of
        JObject obj \<Rightarrow>
          (let eventType = normal_role (string_or_empty obj ''type'') in
           if eventType = ''response.create'' then
             extractResponses (e\<lparr>Protocol := ''openai-responses-ws''\<rparr>) obj
           else if eventType = ''conversation.item.create'' then
             (let e1 = e\<lparr>Protocol := ''openai-responses-ws''\<rparr> in
              case map_of obj ''item'' of
                Some (JObject item) \<Rightarrow> extractRoleMessage e1 item ''item''
              | _ \<Rightarrow> e1\<lparr>Status := ''unsupported''\<rparr>)
           else extractJSONByProtocol e root)
      | _ \<Rightarrow> e\<lparr>Status := ''unsupported''\<rparr>)"

definition extract_payload :: "extraction \<Rightarrow> string \<Rightarrow> extraction" where
  "extract_payload e payload =
     (case json_unmarshal payload of
        None \<Rightarrow> e\<lparr>Status := ''unsupported''\<rparr>
      | Some root \<Rightarrow> extract_event (e\<lparr>ModelName := modelFromJSON root\<rparr>) root)"

definition ExtractWebSocketMessage :: "string \<Rightarrow> string \<Rightarrow> int \<Rightarrow> extraction" where
  "ExtractWebSocketMessage path payload maxPromptBytes =
     finalize (extract_payload (new_extraction path) payload) maxPromptBytes"

end
