(* ===== verification/Extractor_Invariant.thy ===== *)
theory Extractor_Invariant
  imports Extractor
begin

text \<open>
  What every extraction routine of \<open>extractor.go\<close> promises, whatever the request looks like:
  it only appends user messages, numbers them consecutively, never adds a blank one, never
  lowers a counter and leaves the other fields alone. The contract is the locale
  \<open>collector\<close>; the routines of every protocol interpret it.
\<close>

section \<open>The invariant\<close>

definition well_indexed :: "extraction \<Rightarrow> bool" where
  "well_indexed e \<longleftrightarrow>
     map Index (Messages e) = [0..<length (Messages e)] \<and> (\<forall>m \<in> set (Messages e). \<not> blank (Text m))"

text \<open>The fields that no extraction routine writes.\<close>

definition same_frame :: "extraction \<Rightarrow> extraction \<Rightarrow> bool" where
  "same_frame e e' \<longleftrightarrow>
     Protocol e' = Protocol e \<and> ModelName e' = ModelName e \<and> Truncated e' = Truncated e \<and>
     PromptText e' = PromptText e \<and> PromptSHA256 e' = PromptSHA256 e"

definition extends :: "extraction \<Rightarrow> extraction \<Rightarrow> bool" where
  "extends e e' \<longleftrightarrow>
     same_frame e e' \<and> prefix (Messages e) (Messages e') \<and>
     (well_indexed e \<longrightarrow> well_indexed e') \<and>
     (\<forall>r. role_count (ExcludedRoles e) r \<le> role_count (ExcludedRoles e') r)"

lemma extends_refl [simp, intro]: "extends e e"
  by (simp add: extends_def same_frame_def)

lemma extends_trans: "extends a b \<Longrightarrow> extends b c \<Longrightarrow> extends a c"
  by (auto simp: extends_def same_frame_def intro: prefix_order.trans order_trans)

lemma extends_status [keeps_inv]: "extends a b \<Longrightarrow> extends a (b\<lparr>Status := s\<rparr>)"
  by (simp add: extends_def same_frame_def well_indexed_def)

lemma extends_frame:
  "extends e e' \<Longrightarrow> Protocol e' = Protocol e"
  "extends e e' \<Longrightarrow> ModelName e' = ModelName e"
  "extends e e' \<Longrightarrow> Truncated e' = Truncated e"
  by (simp_all add: extends_def same_frame_def)

lemma extends_well_indexed: "extends e e' \<Longrightarrow> well_indexed e \<Longrightarrow> well_indexed e'"
  by (simp add: extends_def)

section \<open>The routines keep it\<close>

lemma addUserMessage_extends_self: "extends e (addUserMessage e t src)"
  by (auto simp: addUserMessage_def extends_def same_frame_def well_indexed_def)

lemma addUserMessage_extends [keeps_inv]: "extends a e \<Longrightarrow> extends a (addUserMessage e t src)"
  by (rule extends_trans [OF _ addUserMessage_extends_self])

lemma incrementExcluded_extends_self: "extends e (incrementExcluded e r)"
  by (auto simp: incrementExcluded_def extends_def same_frame_def well_indexed_def role_count_def
      split: option.split)

lemma incrementExcluded_extends [keeps_inv]: "extends a e \<Longrightarrow> extends a (incrementExcluded e r)"
  by (rule extends_trans [OF _ incrementExcluded_extends_self])

lemma extractContent_extends [keeps_inv]:
  "extends a e \<Longrightarrow> extends a (extractContent e v src)"
  "extends a e \<Longrightarrow> extends a (extractContentItems e items src i)"
proof (induction e v src and e items src i rule: extractContent_extractContentItems.induct)
  case (3 e typed source)
  then show ?case by (simp_all add: keeps_inv split: option.split)
next
  case (8 e item rest source index)
  show ?case
    unfolding extractContentItems.simps
    by (rule 8(2)) (use 8 in \<open>simp_all add: keeps_inv Let_def split: json.split option.split\<close>)
qed (simp_all add: keeps_inv)

lemma extractRoleMessage_extends [keeps_inv]:
  "extends a e \<Longrightarrow> extends a (extractRoleMessage e obj src)"
  by (simp_all add: extractRoleMessage_def extractParts_def Let_def keeps_inv split: option.split)

lemma extract_messages_extends [keeps_inv]:
  "extends a e \<Longrightarrow> extends a (extract_messages e ms i)"
  by (induction e ms i rule: extract_messages.induct)
    (simp_all add: keeps_inv split: json.split)

lemma exclude_field_extends [keeps_inv]: "extends a e \<Longrightarrow> extends a (exclude_field e obj k r)"
  by (simp_all add: exclude_field_def keeps_inv split: option.split)

lemma add_strings_extends [keeps_inv]: "extends a e \<Longrightarrow> extends a (add_strings e k xs i)"
  by (induction e k xs i rule: add_strings.induct) (simp_all add: keeps_inv split: json.split)

lemma extract_prompt_fields_extends [keeps_inv]:
  "extends a e \<Longrightarrow> extends a (extract_prompt_fields e obj ks)"
  by (induction e obj ks rule: extract_prompt_fields.induct)
    (simp_all add: keeps_inv split: json.split option.split)

lemma set_partial_extends [keeps_inv]: "extends a e \<Longrightarrow> extends a (set_partial e)"
  by (simp add: set_partial_def extends_status)

lemma extractGeneric_extends [keeps_inv]: "extends a e \<Longrightarrow> extends a (extractGeneric e obj)"
  by (simp_all add: extractGeneric_def Let_def keeps_inv split: option.split)

lemma extractOpenAIChat_extends [keeps_inv]: "extends a e \<Longrightarrow> extends a (extractOpenAIChat e obj)"
  by (simp_all add: extractOpenAIChat_def Let_def keeps_inv split: option.split)

lemma extract_inputs_extends [keeps_inv]: "extends a e \<Longrightarrow> extends a (extract_inputs e xs i)"
  by (induction e xs i rule: extract_inputs.induct)
    (simp_all add: Let_def keeps_inv split: json.split)

lemma extractResponses_extends [keeps_inv]: "extends a e \<Longrightarrow> extends a (extractResponses e obj)"
  by (simp_all add: extractResponses_def Let_def keeps_inv split: option.split json.split)

lemma extractAnthropic_extends [keeps_inv]: "extends a e \<Longrightarrow> extends a (extractAnthropic e obj)"
  by (simp_all add: extractAnthropic_def Let_def keeps_inv split: option.split)

lemma extract_contents_extends [keeps_inv]: "extends a e \<Longrightarrow> extends a (extract_contents e xs i)"
  by (induction e xs i rule: extract_contents.induct)
    (simp_all add: Let_def extractParts_def keeps_inv split: json.split)

lemma extractGemini_extends [keeps_inv]: "extends a e \<Longrightarrow> extends a (extractGemini e obj)"
  by (simp_all add: extractGemini_def Let_def keeps_inv split: option.split)

lemma extractJSONByProtocol_extends [keeps_inv]:
  "extends a e \<Longrightarrow> extends a (extractJSONByProtocol e root)"
  by (simp_all add: extractJSONByProtocol_def Let_def keeps_inv split: json.split)

lemma add_values_extends [keeps_inv]: "extends a e \<Longrightarrow> extends a (add_values e k vs)"
  by (induction e k vs rule: add_values.induct) (simp_all add: keeps_inv)

lemma add_form_fields_extends [keeps_inv]: "extends a e \<Longrightarrow> extends a (add_form_fields e vals ks)"
  by (induction e vals ks rule: add_form_fields.induct) (simp_all add: keeps_inv)

lemma extractFormValues_extends [keeps_inv]:
  "extends a e \<Longrightarrow> extends a (extractFormValues lib e body)"
  by (simp_all add: extractFormValues_def keeps_inv split: prod.split)

lemma multipart_loop_extends [keeps_inv]: "extends a e \<Longrightarrow> extends a (fst (multipart_loop e ps))"
proof (induction e ps rule: multipart_loop.induct)
  case (3 e h content rest)
  then show ?case by (cases "read_limited (2 ^ 20) content") (simp add: Let_def keeps_inv)
qed simp_all

lemma extractMultipart_extends [keeps_inv]:
  "extends a e \<Longrightarrow> extends a (fst (extractMultipart lib e ct body))"
proof -
  assume "extends a e"
  then have "extends a (fst (multipart_loop e ps))" for ps by (rule keeps_inv)
  with \<open>extends a e\<close> show ?thesis
    by (simp add: extractMultipart_def Let_def case_prod_beta keeps_inv split: option.split)
qed


section \<open>The contract and its consequences\<close>

lemma prompt_parts_well_indexed: "well_indexed e \<Longrightarrow> prompt_parts (Messages e) = map Text (Messages e)"
  by (simp add: well_indexed_def prompt_parts_def cong: filter_cong)

locale collector =
  fixes run :: "extraction \<Rightarrow> 'i \<Rightarrow> extraction"
  assumes run_extends: "extends e (run e x)"
begin

lemma run_keeps_earlier:
  "k < length (Messages e) \<Longrightarrow> Messages (run e x) ! k = Messages e ! k"
  using run_extends [of e x] by (auto simp: extends_def prefix_def nth_append)

lemma run_index:
  assumes "well_indexed e" and "k < length (Messages (run e x))"
  shows "Index (Messages (run e x) ! k) = k"
proof -
  have "map Index (Messages (run e x)) ! k = [0..<length (Messages (run e x))] ! k"
    using extends_well_indexed [OF run_extends assms(1)] by (simp add: well_indexed_def)
  then show ?thesis using assms(2) by simp
qed

lemma run_prompt:
  "well_indexed e \<Longrightarrow>
     PromptText (finalize (run e x) m)
       = truncateUTF8 (join (map Text (Messages (run e x))) paragraph_break) m"
  using extends_well_indexed [OF run_extends]
  by (simp add: fullPrompt_def prompt_parts_well_indexed)

lemma run_prompt_empty:
  "well_indexed e \<Longrightarrow> fullPrompt (Messages (run e x)) = [] \<longleftrightarrow> Messages (run e x) = []"
  using extends_well_indexed [OF run_extends, of e x]
  by (auto simp: fullPrompt_empty_iff well_indexed_def)

end

interpretation chat: collector extractOpenAIChat
  by unfold_locales (simp add: keeps_inv)

interpretation responses: collector extractResponses
  by unfold_locales (simp add: keeps_inv)

interpretation anthropic: collector extractAnthropic
  by unfold_locales (simp add: keeps_inv)

interpretation gemini: collector extractGemini
  by unfold_locales (simp add: keeps_inv)

interpretation generic: collector extractGeneric
  by unfold_locales (simp add: keeps_inv)

interpretation json_body: collector extractJSONByProtocol
  by unfold_locales (simp add: keeps_inv)

interpretation form_body: collector "extractFormValues lib" for lib
  by unfold_locales (simp add: keeps_inv)

interpretation multipart_body:
  collector "\<lambda>e arg. fst (extractMultipart lib e (fst arg) (snd arg))" for lib
  by unfold_locales (simp add: keeps_inv)

section \<open>Whole requests\<close>

lemma new_extraction_well_indexed [simp]: "well_indexed (new_extraction path)"
  by (simp add: well_indexed_def new_extraction_def)

lemma well_indexed_status [simp]: "well_indexed (e\<lparr>Status := s\<rparr>) = well_indexed e"
  by (simp add: well_indexed_def)

lemma well_indexed_model [simp]: "well_indexed (e\<lparr>ModelName := s\<rparr>) = well_indexed e"
  by (simp add: well_indexed_def)

lemma well_indexed_protocol [simp]: "well_indexed (e\<lparr>Protocol := s\<rparr>) = well_indexed e"
  by (simp add: well_indexed_def)

lemma well_indexed_finalize [simp]: "well_indexed (finalize e m) = well_indexed e"
  by (simp add: well_indexed_def)

lemma extract_body_extends:
  "extends (e\<lparr>ModelName := ModelName (extract_body lib e ct body)\<rparr>) (extract_body lib e ct body)"
proof -
  have set_model: "e\<lparr>ModelName := ModelName e'\<rparr> = e" if "extends e e'" for e e' :: extraction
    using extends_frame(2) [OF that] by simp
  have parts: "extends e (fst (extractMultipart lib e ct body))" "extends e (extractFormValues lib e body)"
    by (simp_all add: keeps_inv)
  have json: "extends e' (extractJSONByProtocol e' root)" for e' root
    by (simp add: keeps_inv)
  show ?thesis
    using parts json extends_frame(2) [OF json]
    by (auto simp: extract_body_def Let_def case_prod_beta set_model keeps_inv split: option.split)
qed

lemma extract_body_well_indexed [simp]:
  "well_indexed e \<Longrightarrow> well_indexed (extract_body lib e ct body)"
  using extends_well_indexed [OF extract_body_extends] by simp

lemma extract_event_well_indexed [simp]:
  "well_indexed e \<Longrightarrow> well_indexed (extract_event e root)"
proof -
  assume wi: "well_indexed e"
  have "well_indexed e1 \<Longrightarrow> well_indexed (extractResponses e1 obj)"
    "well_indexed e1 \<Longrightarrow> well_indexed (extractRoleMessage e1 obj src)"
    "well_indexed e1 \<Longrightarrow> well_indexed (extractJSONByProtocol e1 r)" for e1 obj src r
    by (auto intro: extends_well_indexed keeps_inv)
  with wi show ?thesis
    by (auto simp: extract_event_def Let_def split: json.split option.split)
qed

lemma extract_payload_well_indexed [simp]:
  "well_indexed e \<Longrightarrow> well_indexed (extract_payload e payload)"
  by (auto simp: extract_payload_def split: option.split)

lemma ExtractRequest_well_indexed: "well_indexed (ExtractRequest lib path ct body m)"
  by (simp add: ExtractRequest_def)

lemma ExtractWebSocketMessage_well_indexed: "well_indexed (ExtractWebSocketMessage path payload m)"
  by (simp add: ExtractWebSocketMessage_def)

end
