(* ===== verification/Extractor_Spec.thy ===== *)
theory Extractor_Spec
  imports Extractor_Invariant
begin

text \<open>
  The abstract specification of \<open>extractor.go\<close>: for each protocol, the list of strings of a
  JSON request that are user input, and how often each role is excluded, written as functions
  of the request alone. The routines of \<open>extractor.go\<close> refine it: their messages are these
  strings, blank ones left out, in this order.
\<close>

section \<open>The user input of a request\<close>

function content_texts :: "json \<Rightarrow> string list"
  and item_texts :: "json \<Rightarrow> string list"
where
  "content_texts (JString s) = [s]"
| "content_texts (JArray items) = concat (map item_texts items)"
| "content_texts (JObject typed) =
     (case get_string typed ''text'' of
        Some t \<Rightarrow> [t]
      | None \<Rightarrow> (case map_of typed ''content'' of Some nested \<Rightarrow> content_texts nested | None \<Rightarrow> []))"
| "content_texts JNull = []"
| "content_texts (JBool b) = []"
| "content_texts (JNumber n) = []"
| "item_texts (JString s) = [s]"
| "item_texts (JObject part) =
     (case (if text_part_type (string_or_empty part ''type'') then get_string part ''text'' else None) of
        Some t \<Rightarrow> [t]
      | None \<Rightarrow> (case map_of part ''content'' of Some nested \<Rightarrow> content_texts nested | None \<Rightarrow> []))"
| "item_texts (JArray items) = []"
| "item_texts JNull = []"
| "item_texts (JBool b) = []"
| "item_texts (JNumber n) = []"
  by pat_completeness auto
termination
proof (relation "measure (\<lambda>x. case x of Inl v \<Rightarrow> 2 * size v | Inr v \<Rightarrow> Suc (2 * size v))")
  fix items :: "json list" and x
  assume "x \<in> set items"
  then have "size x \<le> size_list size items" by (rule size_list_estimation') simp
  then show "(Inr x, Inl (JArray items)) \<in> measure (\<lambda>x. case x of Inl v \<Rightarrow> 2 * size v | Inr v \<Rightarrow> Suc (2 * size v))"
    by simp
qed (auto dest!: json_object_size)

definition effective_role :: "json_object \<Rightarrow> string" where
  "effective_role obj =
     (let role = normal_role (string_or_empty obj ''role'') in if role = [] then ''user'' else role)"

definition role_texts :: "json_object \<Rightarrow> string list" where
  "role_texts obj =
     (if effective_role obj \<noteq> ''user'' then []
      else case map_of obj ''content'' of
             Some content \<Rightarrow> content_texts content
           | None \<Rightarrow> (case map_of obj ''parts'' of
                        Some parts \<Rightarrow> content_texts parts
                      | None \<Rightarrow> (case get_string obj ''text'' of Some t \<Rightarrow> [t] | None \<Rightarrow> [])))"

definition message_texts :: "json \<Rightarrow> string list" where
  "message_texts raw = (case raw of JObject obj \<Rightarrow> role_texts obj | _ \<Rightarrow> [])"

definition string_items :: "json list \<Rightarrow> string list" where
  "string_items xs = concat (map (\<lambda>x. case x of JString s \<Rightarrow> [s] | _ \<Rightarrow> []) xs)"

definition field_texts :: "json_object \<Rightarrow> string \<Rightarrow> string list" where
  "field_texts obj key =
     (case map_of obj key of
        Some (JString s) \<Rightarrow> [s]
      | Some (JArray xs) \<Rightarrow> string_items xs
      | _ \<Rightarrow> [])"

definition generic_texts :: "json_object \<Rightarrow> string list" where
  "generic_texts obj =
     (case get_array obj ''messages'' of
        Some (m # ms) \<Rightarrow> concat (map message_texts (m # ms))
      | _ \<Rightarrow> concat (map (field_texts obj) promptFieldNames))"

definition chat_texts :: "json_object \<Rightarrow> string list" where
  "chat_texts obj =
     (case get_array obj ''messages'' of
        Some ms \<Rightarrow> concat (map message_texts ms)
      | None \<Rightarrow> generic_texts obj)"

definition input_texts :: "json \<Rightarrow> string list" where
  "input_texts raw =
     (case raw of
        JString s \<Rightarrow> [s]
      | JObject item \<Rightarrow>
          if blank (string_or_empty item ''role'') \<and> string_or_empty item ''type'' = ''input_text''
          then [string_or_empty item ''text''] else role_texts item
      | _ \<Rightarrow> [])"

definition responses_texts :: "json_object \<Rightarrow> string list" where
  "responses_texts obj =
     (case map_of obj ''input'' of
        Some (JString s) \<Rightarrow> [s]
      | Some (JArray xs) \<Rightarrow> concat (map input_texts xs)
      | Some (JObject item) \<Rightarrow> role_texts item
      | _ \<Rightarrow> [])"

definition anthropic_texts :: "json_object \<Rightarrow> string list" where
  "anthropic_texts obj =
     (case get_array obj ''messages'' of Some ms \<Rightarrow> concat (map message_texts ms) | None \<Rightarrow> [])"

text \<open>Of a Gemini request the contents of the user; an absent role is the user's.\<close>

definition gemini_item_texts :: "json \<Rightarrow> string list" where
  "gemini_item_texts raw =
     (case raw of
        JObject content \<Rightarrow>
          if effective_role content \<noteq> ''user'' then []
          else (case map_of content ''parts'' of Some parts \<Rightarrow> content_texts parts | None \<Rightarrow> [])
      | _ \<Rightarrow> [])"

definition gemini_texts :: "json_object \<Rightarrow> string list" where
  "gemini_texts obj =
     (case get_array obj ''contents'' of
        Some cs \<Rightarrow> concat (map gemini_item_texts cs)
      | None \<Rightarrow> generic_texts obj)"

definition request_texts :: "string \<Rightarrow> json \<Rightarrow> string list" where
  "request_texts protocol root =
     (case root of
        JObject obj \<Rightarrow>
          if protocol = ''openai-chat'' then chat_texts obj
          else if protocol \<in> {''openai-responses'', ''openai-responses-ws''} then responses_texts obj
          else if protocol = ''anthropic-messages'' then anthropic_texts obj
          else if protocol = ''gemini'' then gemini_texts obj
          else generic_texts obj
      | _ \<Rightarrow> [])"

text \<open>
  The roles that a Gemini request may have: \<open>extractGemini\<close> tells the user from the model, the system
  and the developer, and takes every other role for the user.
\<close>

definition gemini_role :: "json \<Rightarrow> bool" where
  "gemini_role raw =
     (case raw of
        JObject content \<Rightarrow> List.member [''user'', ''model'', ''system'', ''developer''] (effective_role content)
      | _ \<Rightarrow> True)"

definition known_roles :: "string \<Rightarrow> json \<Rightarrow> bool" where
  "known_roles protocol root \<longleftrightarrow>
     (case root of
        JObject obj \<Rightarrow>
          protocol = ''gemini'' \<longrightarrow> (case get_array obj ''contents'' of Some cs \<Rightarrow> list_all gemini_role cs | None \<Rightarrow> True)
      | _ \<Rightarrow> True)"

section \<open>What is stored\<close>

text \<open>The texts that the code stores, whatever the roles; with known roles, these are the user's.\<close>

definition gemini_stored_item :: "json \<Rightarrow> string list" where
  "gemini_stored_item raw =
     (case raw of
        JObject content \<Rightarrow>
          if normal_role (string_or_empty content ''role'') \<in> {''model'', ''system'', ''developer''} then []
          else (case map_of content ''parts'' of Some parts \<Rightarrow> content_texts parts | None \<Rightarrow> [])
      | _ \<Rightarrow> [])"

definition gemini_stored :: "json_object \<Rightarrow> string list" where
  "gemini_stored obj =
     (case get_array obj ''contents'' of
        Some cs \<Rightarrow> concat (map gemini_stored_item cs)
      | None \<Rightarrow> generic_texts obj)"

definition stored_texts :: "string \<Rightarrow> json \<Rightarrow> string list" where
  "stored_texts protocol root =
     (case root of
        JObject obj \<Rightarrow> if protocol = ''gemini'' then gemini_stored obj else request_texts protocol root
      | _ \<Rightarrow> [])"

lemma gemini_stored_known: "gemini_role raw \<Longrightarrow> gemini_stored_item raw = gemini_item_texts raw"
  by (cases raw) (auto simp: gemini_role_def gemini_stored_item_def gemini_item_texts_def effective_role_def Let_def split: if_splits)

lemma stored_texts_known:
  assumes "known_roles protocol root"
  shows "stored_texts protocol root = request_texts protocol root"
proof -
  have "list_all gemini_role cs \<Longrightarrow> concat (map gemini_stored_item cs) = concat (map gemini_item_texts cs)" for cs
    by (induction cs) (simp_all add: gemini_stored_known)
  then show ?thesis
    using assms by (auto simp: known_roles_def stored_texts_def request_texts_def gemini_stored_def gemini_texts_def
        split: json.splits option.splits)
qed

section \<open>Refinement\<close>

abbreviation texts :: "extraction \<Rightarrow> string list" where
  "texts e \<equiv> map Text (Messages e)"

abbreviation nonblank :: "string list \<Rightarrow> string list" where
  "nonblank \<equiv> filter (\<lambda>t. \<not> blank t)"

named_theorems adds_texts

lemma texts_status [adds_texts]: "texts (e\<lparr>Status := s\<rparr>) = texts e" by simp

lemma texts_addUserMessage [adds_texts]: "texts (addUserMessage e t src) = texts e @ nonblank [t]"
  by (simp add: addUserMessage_def)

lemma texts_incrementExcluded [adds_texts]: "texts (incrementExcluded e r) = texts e"
  by (simp add: incrementExcluded_def Let_def)

lemma texts_extractContent [adds_texts]:
  "texts (extractContent e v src) = texts e @ nonblank (content_texts v)"
  "texts (extractContentItems e items src i) = texts e @ nonblank (concat (map item_texts items))"
proof (induction e v src and e items src i rule: extractContent_extractContentItems.induct)
  case (8 e item rest source index)
  show ?case
    unfolding extractContentItems.simps 8(2)
    using 8(1) by (cases item) (auto simp: adds_texts Let_def split: option.split)
qed (auto simp: adds_texts split: option.split)

lemma texts_extractRoleMessage [adds_texts]:
  "texts (extractRoleMessage e obj src) = texts e @ nonblank (role_texts obj)"
  by (auto simp: extractRoleMessage_def role_texts_def effective_role_def extractParts_def
      excludedRoleNames_def Let_def adds_texts split: option.split)

lemma texts_extract_messages [adds_texts]:
  "texts (extract_messages e ms i) = texts e @ nonblank (concat (map message_texts ms))"
  by (induction e ms i rule: extract_messages.induct)
    (auto simp: adds_texts message_texts_def split: json.split)

lemma texts_exclude_field [adds_texts]: "texts (exclude_field e obj k r) = texts e"
  by (auto simp: exclude_field_def adds_texts split: option.split)

lemma texts_add_strings [adds_texts]:
  "texts (add_strings e k xs i) = texts e @ nonblank (string_items xs)"
  by (induction e k xs i rule: add_strings.induct)
    (auto simp: adds_texts string_items_def split: json.split)

lemma texts_extract_prompt_fields [adds_texts]:
  "texts (extract_prompt_fields e obj ks) = texts e @ nonblank (concat (map (field_texts obj) ks))"
  by (induction e obj ks rule: extract_prompt_fields.induct)
    (auto simp: adds_texts field_texts_def split: json.split option.split)

lemma texts_set_partial [adds_texts]: "texts (set_partial e) = texts e"
  by (simp add: set_partial_def)

lemma texts_extract_inputs [adds_texts]:
  "texts (extract_inputs e xs i) = texts e @ nonblank (concat (map input_texts xs))"
  by (induction e xs i rule: extract_inputs.induct)
    (auto simp: adds_texts input_texts_def Let_def split: json.split)

lemma texts_extract_contents [adds_texts]:
  "texts (extract_contents e xs i) = texts e @ nonblank (concat (map gemini_stored_item xs))"
  by (induction e xs i rule: extract_contents.induct)
    (auto simp: adds_texts gemini_stored_item_def extractParts_def Let_def split: json.split option.split)

lemma texts_extractGeneric [adds_texts]:
  "Messages e = [] \<Longrightarrow> texts (extractGeneric e obj) = nonblank (generic_texts obj)"
  by (auto simp: extractGeneric_def generic_texts_def Let_def adds_texts split: option.split list.split)

lemma no_messages_exclude_field:
  "Messages e = [] \<Longrightarrow> Messages (exclude_field e obj k r) = []"
  using texts_exclude_field by (metis map_is_Nil_conv)

lemma texts_extractOpenAIChat:
  "Messages e = [] \<Longrightarrow> texts (extractOpenAIChat e obj) = nonblank (chat_texts obj)"
  by (auto simp: extractOpenAIChat_def chat_texts_def Let_def adds_texts no_messages_exclude_field
      split: option.split)

lemma texts_extractResponses:
  "Messages e = [] \<Longrightarrow> texts (extractResponses e obj) = nonblank (responses_texts obj)"
  by (auto simp: extractResponses_def responses_texts_def Let_def adds_texts no_messages_exclude_field
      split: option.split json.split)

lemma texts_extractAnthropic:
  "Messages e = [] \<Longrightarrow> texts (extractAnthropic e obj) = nonblank (anthropic_texts obj)"
  by (auto simp: extractAnthropic_def anthropic_texts_def Let_def adds_texts no_messages_exclude_field
      split: option.split)

lemma texts_extractGemini:
  "Messages e = [] \<Longrightarrow> texts (extractGemini e obj) = nonblank (gemini_stored obj)"
  by (auto simp: extractGemini_def gemini_stored_def Let_def adds_texts no_messages_exclude_field
      split: option.split)

lemma texts_extractJSONByProtocol:
  "Messages e = [] \<Longrightarrow>
     texts (extractJSONByProtocol e root) = nonblank (stored_texts (Protocol e) root)"
  by (auto simp: extractJSONByProtocol_def stored_texts_def request_texts_def Let_def texts_extractOpenAIChat
      texts_extractResponses texts_extractAnthropic texts_extractGemini adds_texts split: json.split)

section \<open>Counting excluded roles\<close>

abbreviation counted :: "extraction \<Rightarrow> string \<Rightarrow> int" where
  "counted e r \<equiv> role_count (ExcludedRoles e) r"

text \<open>Whether a message is excluded and counted under role \<open>r\<close>.\<close>

definition excluded_as :: "string \<Rightarrow> json \<Rightarrow> bool" where
  "excluded_as r raw =
     (case raw of
        JObject obj \<Rightarrow> List.member excludedRoleNames r \<and> effective_role obj = r
      | _ \<Rightarrow> False)"

named_theorems counts

lemma counted_status [counts]: "counted (e\<lparr>Status := s\<rparr>) r = counted e r" by simp

lemma counted_addUserMessage [counts]: "counted (addUserMessage e t src) r = counted e r"
  by (simp add: addUserMessage_def)

lemma counted_incrementExcluded [counts]:
  "counted (incrementExcluded e role) r = counted e r + (if role = r then 1 else 0)"
  by (auto simp: incrementExcluded_def role_count_def Let_def split: option.split)

lemma counted_extractContent [counts]:
  "counted (extractContent e v src) r = counted e r"
  "counted (extractContentItems e items src i) r = counted e r"
proof (induction e v src and e items src i rule: extractContent_extractContentItems.induct)
  case (8 e item rest source index)
  show ?case
    unfolding extractContentItems.simps 8(2)
    using 8(1) by (cases item) (auto simp: counts Let_def split: option.split)
qed (auto simp: counts split: option.split)

lemma counted_extractRoleMessage [counts]:
  "counted (extractRoleMessage e obj src) r = counted e r + of_bool (excluded_as r (JObject obj))"
  by (auto simp: extractRoleMessage_def excluded_as_def effective_role_def extractParts_def
      excludedRoleNames_def Let_def counts split: option.split)

lemma counted_extract_messages [counts]:
  "counted (extract_messages e ms i) r = counted e r + int (length (filter (excluded_as r) ms))"
  by (induction e ms i rule: extract_messages.induct)
    (auto simp: counts excluded_as_def split: json.split)

lemma counted_exclude_field [counts]:
  "counted (exclude_field e obj k role) r =
     counted e r + of_bool (role = r \<and> (\<exists>v. map_of obj k = Some v \<and> hasValue v))"
  by (auto simp: exclude_field_def counts split: option.split)

lemma counted_extractOpenAIChat:
  assumes "get_array obj ''messages'' = Some ms"
  shows "counted (extractOpenAIChat e obj) r = counted e r
    + of_bool (r = ''system'' \<and> (\<exists>v. map_of obj ''system'' = Some v \<and> hasValue v))
    + of_bool (r = ''developer'' \<and> (\<exists>v. map_of obj ''developer'' = Some v \<and> hasValue v))
    + int (length (filter (excluded_as r) ms))"
  using assms by (auto simp: extractOpenAIChat_def counts Let_def)

end
