(* ===== verification/Redaction.thy ===== *)
theory Redaction
  imports Extractor_Spec
begin

text \<open>
  Non-interference of the audit copy. \<open>redact_object\<close> erases from a JSON request everything
  the audit copy must not hold: every top-level field outside the protocol's allow list, the
  values of the system-prompt fields (only whether they are present is kept) and the content
  of every message of a role that is not the user's (only its role is kept). Extraction from
  the redacted request gives the same result as from the request itself, so nothing that was
  erased can reach a stored record.
\<close>

definition redact_value :: "json \<Rightarrow> json" where
  "redact_value v = (if hasValue v then JBool True else JNull)"

definition only_role :: "json_object \<Rightarrow> json" where
  "only_role obj = JObject [(''role'', JString (string_or_empty obj ''role''))]"

definition redact_message :: "json \<Rightarrow> json" where
  "redact_message raw =
     (case raw of
        JObject obj \<Rightarrow> if effective_role obj = ''user'' then raw else only_role obj
      | _ \<Rightarrow> JNull)"

definition redact_input :: "json \<Rightarrow> json" where
  "redact_input raw = (case raw of JString s \<Rightarrow> raw | _ \<Rightarrow> redact_message raw)"

definition redact_content :: "json \<Rightarrow> json" where
  "redact_content raw =
     (case raw of
        JObject obj \<Rightarrow>
          if normal_role (string_or_empty obj ''role'') \<in> {''model'', ''system'', ''developer''}
          then only_role obj else raw
      | _ \<Rightarrow> JNull)"

definition redact_array :: "(json \<Rightarrow> json) \<Rightarrow> json \<Rightarrow> json" where
  "redact_array f v = (case v of JArray xs \<Rightarrow> JArray (map f xs) | _ \<Rightarrow> JNull)"

definition responses_protocol :: "string \<Rightarrow> bool" where
  "responses_protocol p \<longleftrightarrow> p = ''openai-responses'' \<or> p = ''openai-responses-ws''"

definition kept_fields :: "string \<Rightarrow> string list" where
  "kept_fields p =
     (if p = ''openai-chat'' then [''system'', ''developer'', ''messages''] @ promptFieldNames
      else if responses_protocol p then [''instructions'', ''input'']
      else if p = ''anthropic-messages'' then [''system'', ''messages'']
      else if p = ''gemini'' then
        [''systemInstruction'', ''system_instruction'', ''contents'', ''messages''] @ promptFieldNames
      else ''messages'' # promptFieldNames)"

definition system_fields :: "string list" where
  "system_fields =
     [''system'', ''developer'', ''instructions'', ''systemInstruction'', ''system_instruction'']"

definition redact_responses_input :: "json \<Rightarrow> json" where
  "redact_responses_input v =
     (case v of
        JArray xs \<Rightarrow> JArray (map redact_input xs)
      | JObject obj \<Rightarrow> redact_message v
      | _ \<Rightarrow> v)"

definition redact_field :: "string \<Rightarrow> string \<Rightarrow> json \<Rightarrow> json" where
  "redact_field p k v =
     (if List.member system_fields k then redact_value v
      else if k = ''messages'' then redact_array redact_message v
      else if k = ''contents'' then redact_array redact_content v
      else if k = ''input'' \<and> responses_protocol p then redact_responses_input v
      else v)"

definition redact_object :: "string \<Rightarrow> json_object \<Rightarrow> json_object" where
  "redact_object p obj =
     map (\<lambda>(k, v). (k, redact_field p k v)) (filter (\<lambda>(k, v). List.member (kept_fields p) k) obj)"

section \<open>Redaction is invisible to the extractor\<close>

lemma map_of_redact:
  "map_of (redact_object p obj) k =
     (if List.member (kept_fields p) k then map_option (redact_field p k) (map_of obj k) else None)"
  by (induction obj) (auto simp: redact_object_def)

lemma hasValue_redact_value [simp]: "hasValue (redact_value v) = hasValue v"
  by (simp add: redact_value_def)

lemma role_only_role [simp]: "string_or_empty [(''role'', JString r)] ''role'' = r"
  by (simp add: string_or_empty_def get_string_def)

lemma effective_only_role [simp]:
  "effective_role [(''role'', JString (string_or_empty obj ''role''))] = effective_role obj"
  by (simp add: effective_role_def)

text \<open>A message whose role is not the user's matters only through its role.\<close>

lemma extractRoleMessage_other_role:
  "effective_role obj \<noteq> ''user'' \<Longrightarrow> effective_role obj' = effective_role obj \<Longrightarrow>
     extractRoleMessage e obj' src = extractRoleMessage e obj src"
  by (simp add: extractRoleMessage_def effective_role_def Let_def)

lemma extractRoleMessage_only_role:
  "effective_role obj \<noteq> ''user'' \<Longrightarrow>
     extractRoleMessage e [(''role'', JString (string_or_empty obj ''role''))] src
       = extractRoleMessage e obj src"
  by (rule extractRoleMessage_other_role) simp_all

lemma extract_messages_redact [simp]:
  "extract_messages e (map redact_message ms) i = extract_messages e ms i"
proof (induction e ms i rule: extract_messages.induct)
  case (2 e raw rest index)
  then show ?case
    by (cases raw) (auto simp: redact_message_def only_role_def extractRoleMessage_only_role)
qed simp

lemma blank_role_is_user: "blank (string_or_empty obj ''role'') \<Longrightarrow> effective_role obj = ''user''"
  by (simp add: effective_role_def normal_role_def to_lower_def)

lemma extract_inputs_redact [simp]:
  "extract_inputs e (map redact_input xs) i = extract_inputs e xs i"
proof (induction e xs i rule: extract_inputs.induct)
  case (2 e raw rest index)
  then show ?case
    using blank_role_is_user
    by (cases raw)
      (auto simp: redact_input_def redact_message_def only_role_def extractRoleMessage_only_role)
qed simp

lemma extract_contents_redact [simp]:
  "extract_contents e (map redact_content xs) i = extract_contents e xs i"
proof (induction e xs i rule: extract_contents.induct)
  case (2 e raw rest index)
  then show ?case
    by (cases raw) (auto simp: redact_content_def only_role_def Let_def)
qed simp

lemma exclude_field_redact:
  "List.member (kept_fields p) k \<Longrightarrow> List.member system_fields k \<Longrightarrow>
     exclude_field e (redact_object p obj) k r = exclude_field e obj k r"
  by (auto simp: exclude_field_def map_of_redact redact_field_def split: option.split)

lemma get_array_messages_redact:
  "List.member (kept_fields p) ''messages'' \<Longrightarrow>
     get_array (redact_object p obj) ''messages'' = map_option (map redact_message) (get_array obj ''messages'')"
  by (auto simp: get_array_def map_of_redact redact_field_def redact_array_def system_fields_def
      split: option.split json.split)

lemma get_array_contents_redact:
  "List.member (kept_fields p) ''contents'' \<Longrightarrow>
     get_array (redact_object p obj) ''contents'' = map_option (map redact_content) (get_array obj ''contents'')"
  by (auto simp: get_array_def map_of_redact redact_field_def redact_array_def system_fields_def
      split: option.split json.split)

lemma prompt_fields_redact:
  assumes "set ks \<subseteq> set promptFieldNames" and "set promptFieldNames \<subseteq> set (kept_fields p)"
    and "\<not> responses_protocol p"
  shows "extract_prompt_fields e (redact_object p obj) ks = extract_prompt_fields e obj ks"
  using assms(1)
proof (induction ks arbitrary: e)
  case (Cons k ks)
  have "map_of (redact_object p obj) k = map_of obj k"
    using Cons.prems assms(2,3)
    by (cases "map_of obj k")
      (auto simp: map_of_redact redact_field_def system_fields_def promptFieldNames_def)
  with Cons show ?case by simp
qed simp

lemma extractGeneric_redact:
  assumes "set (''messages'' # promptFieldNames) \<subseteq> set (kept_fields p)" and "\<not> responses_protocol p"
  shows "extractGeneric e (redact_object p obj) = extractGeneric e obj"
  using assms
  by (auto simp: extractGeneric_def get_array_messages_redact prompt_fields_redact Let_def
      split: option.split)

lemma extractGeneric_redact_fallback:
  "extractGeneric e (redact_object ''openai-chat'' obj) = extractGeneric e obj"
  "extractGeneric e (redact_object ''gemini'' obj) = extractGeneric e obj"
  by (rule extractGeneric_redact; auto simp: kept_fields_def responses_protocol_def)+

lemma extractOpenAIChat_redact:
  "extractOpenAIChat e (redact_object ''openai-chat'' obj) = extractOpenAIChat e obj"
  by (auto simp: extractOpenAIChat_def exclude_field_redact get_array_messages_redact
      extractGeneric_redact_fallback kept_fields_def system_fields_def responses_protocol_def Let_def
      split: option.split)

lemma extractResponses_redact:
  assumes "responses_protocol p"
  shows "extractResponses e (redact_object p obj) = extractResponses e obj"
proof -
  have k: "kept_fields p = [''instructions'', ''input'']"
    using assms by (auto simp: kept_fields_def responses_protocol_def)
  have f: "redact_field p ''input'' = redact_responses_input"
    using assms by (auto simp: redact_field_def system_fields_def)
  have r: "extractRoleMessage e' obj src = extractRoleMessage e' obj' src"
    if "redact_message (JObject obj') = JObject obj" for e' obj obj' src
    using that by (auto simp: redact_message_def only_role_def extractRoleMessage_only_role split: if_splits)
  have x: "exclude_field e (redact_object p obj) ''instructions'' ''system''
      = exclude_field e obj ''instructions'' ''system''"
    by (rule exclude_field_redact) (simp_all add: k system_fields_def)
  show ?thesis
    unfolding extractResponses_def x map_of_redact k
    by (auto simp: f redact_responses_input_def redact_message_def only_role_def
        extractRoleMessage_only_role Let_def split: option.split json.split)
qed

lemma extractAnthropic_redact:
  "extractAnthropic e (redact_object ''anthropic-messages'' obj) = extractAnthropic e obj"
  by (auto simp: extractAnthropic_def exclude_field_redact get_array_messages_redact
      kept_fields_def system_fields_def responses_protocol_def Let_def split: option.split)

lemma extractGemini_redact:
  "extractGemini e (redact_object ''gemini'' obj) = extractGemini e obj"
  by (auto simp: extractGemini_def exclude_field_redact get_array_contents_redact
      extractGeneric_redact_fallback kept_fields_def system_fields_def responses_protocol_def Let_def
      split: option.split)

lemma extractJSONByProtocol_redact:
  "extractJSONByProtocol e (JObject (redact_object (Protocol e) obj)) = extractJSONByProtocol e (JObject obj)"
proof -
  have g: "extractGeneric e (redact_object (Protocol e) obj) = extractGeneric e obj"
    if "Protocol e \<noteq> ''openai-chat''" "\<not> responses_protocol (Protocol e)"
      "Protocol e \<noteq> ''anthropic-messages''" "Protocol e \<noteq> ''gemini''"
    using that by (intro extractGeneric_redact) (auto simp: kept_fields_def)
  show ?thesis
    using g extractOpenAIChat_redact [of e obj] extractResponses_redact [of "Protocol e" e obj]
      extractAnthropic_redact [of e obj] extractGemini_redact [of e obj]
    by (auto simp: extractJSONByProtocol_def responses_protocol_def Let_def)
qed

text \<open>The extractor sees an object only as a map: the order of its entries does not matter.\<close>

lemma extractGeneric_map_of:
  assumes "map_of obj = map_of obj'"
  shows "extractGeneric e obj = extractGeneric e obj'"
proof -
  have "extract_prompt_fields e obj ks = extract_prompt_fields e obj' ks" for e ks
    using assms by (induction ks arbitrary: e) simp_all
  then show ?thesis using assms by (simp add: extractGeneric_def get_array_def)
qed

lemma extractJSONByProtocol_map_of:
  assumes "map_of obj = map_of obj'"
  shows "extractJSONByProtocol e (JObject obj) = extractJSONByProtocol e (JObject obj')"
proof -
  have "extractOpenAIChat e obj = extractOpenAIChat e obj'"
    "extractResponses e obj = extractResponses e obj'"
    "extractAnthropic e obj = extractAnthropic e obj'"
    "extractGemini e obj = extractGemini e obj'"
    unfolding extractOpenAIChat_def extractResponses_def extractAnthropic_def extractGemini_def
      exclude_field_def get_array_def assms extractGeneric_map_of [OF assms]
    by (rule refl)+
  then show ?thesis
    by (simp add: extractJSONByProtocol_def extractGeneric_map_of [OF assms] Let_def)
qed

end
