(* ===== verification/Json_Facts.thy ===== *)
theory Json_Facts
  imports Json
begin

text \<open>
  Two facts on the JSON decoder. It never runs out of fuel, so its \<open>None\<close> is always an error
  that \<open>json.Unmarshal\<close> reports too; and every string it returns is valid UTF-8, whatever
  bytes the body holds.
\<close>

section \<open>The decoder consumes its input\<close>

lemma skip_ws_le: "length (skip_ws s) \<le> length s"
  by (simp add: skip_ws_def length_dropWhile_le)

lemma skip_ws_Cons: "skip_ws s = c # t \<Longrightarrow> length t < length s"
  using skip_ws_le [of s] by simp

lemma less_skip_ws: "n < length (skip_ws s) \<Longrightarrow> n < length s"
  using skip_ws_le [of s] by simp

lemma hex4_rest: "hex4 s = Some (r, t) \<Longrightarrow> length t < length s"
  by (induction s rule: hex4.induct) (auto split: option.splits)

lemma low_surrogate_rest: "low_surrogate s = Some (r, t) \<Longrightarrow> length t < length s"
  by (auto simp: low_surrogate_def split: list.splits option.splits if_splits dest!: hex4_rest)

lemma unicode_escape_rest: "unicode_escape s = Emit x t \<Longrightarrow> length t < length s"
  by (auto simp: unicode_escape_def split: option.splits if_splits
      dest!: hex4_rest low_surrogate_rest)

lemma escape_step_rest: "escape_step s = Emit x t \<Longrightarrow> length t < length s"
  by (auto simp: escape_step_def split: list.splits option.splits if_splits
      dest!: unicode_escape_rest)

lemma string_step_rest:
  "string_step s = Emit x t \<Longrightarrow> length t < length s"
  "string_step s = EndQuote t \<Longrightarrow> length t < length s"
proof -
  assume e: "string_step s = Emit x t"
  then have "s \<noteq> []" by (auto simp: string_step_def)
  with decode_rune_width_pos [OF this] e show "length t < length s"
    by (auto simp: string_step_def split: list.splits if_splits dest!: escape_step_rest)
next
  assume "string_step s = EndQuote t"
  then show "length t < length s"
    by (auto simp: string_step_def escape_step_def unicode_escape_def
        split: list.splits if_splits option.splits)
qed

lemma parse_string_rest: "parse_string f s acc = Inr (x, t) \<Longrightarrow> length t < length s"
proof (induction f arbitrary: s acc)
  case (Suc f)
  then show ?case
    by (auto split: char_step.splits dest!: string_step_rest dest: less_trans)
qed simp

lemma parse_string_fuel: "length s < f \<Longrightarrow> parse_string f s acc \<noteq> Inl OutOfFuel"
proof (induction f arbitrary: s acc)
  case (Suc f)
  show ?case
  proof (cases "string_step s")
    case (Emit x t)
    then have "length t < f" using Suc.prems string_step_rest(1) [of s x t] by simp
    with Suc.IH Emit show ?thesis by simp
  qed simp_all
qed simp

declare parse_string.simps [simp del]

lemma take_digits_rest: "take_digits s = (ds, t) \<Longrightarrow> length s = length ds + length t"
  by (metis Pair_inject length_append takeWhile_dropWhile_id take_digits_def)

lemma parse_fraction_rest: "parse_fraction s = Some (ds, t) \<Longrightarrow> length t \<le> length s"
  by (auto simp: parse_fraction_def split: list.splits if_splits prod.splits dest!: take_digits_rest)

lemma parse_exponent_rest: "parse_exponent s = Some (e, t) \<Longrightarrow> length t \<le> length s"
  by (auto simp: parse_exponent_def Let_def split: list.splits if_splits prod.splits
      dest!: take_digits_rest)

lemma parse_number_rest: "parse_number s = Inr (v, t) \<Longrightarrow> length t < length s"
  by (auto simp: parse_number_def Let_def simp flip: length_greater_0_conv
      split: list.splits if_splits prod.splits option.splits
      dest!: take_digits_rest parse_fraction_rest parse_exponent_rest)

lemma parse_literal_rest: "parse_literal s = Inr (v, t) \<Longrightarrow> length t < length s"
  by (auto simp: parse_literal_def split: if_splits dest: parse_number_rest prefix_length_le)


section \<open>Inversion\<close>

text \<open>How a value, the elements of an array and the members of an object can have been parsed.\<close>

lemma parse_valueE:
  assumes "parse_value (Suc f) d s = Inr (v, t)"
  obtains
    (empty_array) u where "skip_ws s = CHR ''['' # u" "skip_ws u = CHR '']'' # t" "v = JArray []"
  | (array) u w where "skip_ws s = CHR ''['' # u" "skip_ws u = w" "parse_elems f (Suc d) w [] = Inr (v, t)"
  | (empty_object) u where "skip_ws s = CHR ''{'' # u" "skip_ws u = CHR ''}'' # t" "v = JObject []"
  | (object) u w where "skip_ws s = CHR ''{'' # u" "skip_ws u = w" "parse_members f (Suc d) w [] = Inr (v, t)"
  | (str) u x where "skip_ws s = dquote # u" "parse_string (Suc (length u)) u [] = Inr (x, t)" "v = JString x"
  | (literal) u where "skip_ws s = u" "parse_literal u = Inr (v, t)"
  using assms by (auto split: list.splits if_splits sum.splits)

lemma parse_elemsE:
  assumes "parse_elems (Suc f) d s acc = Inr (v, t)"
  obtains
    (more) x u w where "parse_value f d s = Inr (x, u)" "skip_ws u = CHR '','' # w"
      "parse_elems f d w (acc @ [x]) = Inr (v, t)"
  | (last) x u where "parse_value f d s = Inr (x, u)" "skip_ws u = CHR '']'' # t" "v = JArray (acc @ [x])"
  using assms by (auto split: list.splits if_splits sum.splits)

lemma parse_membersE:
  assumes "parse_members (Suc f) d s acc = Inr (v, t)"
  obtains
    (more) s1 key s2 s3 x s4 s5 where "skip_ws s = dquote # s1"
      "parse_string (Suc (length s1)) s1 [] = Inr (key, s2)" "skip_ws s2 = CHR '':'' # s3"
      "parse_value f d s3 = Inr (x, s4)" "skip_ws s4 = CHR '','' # s5"
      "parse_members f d s5 ((key, x) # acc) = Inr (v, t)"
  | (last) s1 key s2 s3 x s4 where "skip_ws s = dquote # s1"
      "parse_string (Suc (length s1)) s1 [] = Inr (key, s2)" "skip_ws s2 = CHR '':'' # s3"
      "parse_value f d s3 = Inr (x, s4)" "skip_ws s4 = CHR ''}'' # t"
      "v = JObject ((key, x) # acc)"
  using assms by (auto split: list.splits if_splits sum.splits)

lemma parse_rest:
  "(\<forall>d s v t. parse_value f d s = Inr (v, t) \<longrightarrow> length t < length s) \<and>
   (\<forall>d s acc v t. parse_elems f d s acc = Inr (v, t) \<longrightarrow> length t < length s) \<and>
   (\<forall>d s acc v t. parse_members f d s acc = Inr (v, t) \<longrightarrow> length t < length s)"
proof (induction f)
  case (Suc f)
  note IH = Suc [THEN conjunct1, rule_format] Suc [THEN conjunct2, THEN conjunct1, rule_format]
    Suc [THEN conjunct2, THEN conjunct2, rule_format]
  have "length t < length s" if "parse_value (Suc f) d s = Inr (v, t)" for d s v t
    using that
    by (cases rule: parse_valueE)
      (auto dest!: IH parse_string_rest parse_literal_rest skip_ws_Cons less_skip_ws)
  moreover have "length t < length s" if "parse_elems (Suc f) d s acc = Inr (v, t)" for d s acc v t
    using that by (cases rule: parse_elemsE) (auto dest!: IH skip_ws_Cons)
  moreover have "length t < length s" if "parse_members (Suc f) d s acc = Inr (v, t)" for d s acc v t
    using that by (cases rule: parse_membersE) (auto dest!: IH skip_ws_Cons parse_string_rest)
  ultimately show ?case by blast
qed simp

section \<open>The fuel is enough\<close>

lemma parse_number_fuel: "parse_number s \<noteq> Inl OutOfFuel"
  by (auto simp: parse_number_def Let_def split: list.split option.split prod.split)

lemma parse_literal_fuel: "parse_literal s \<noteq> Inl OutOfFuel"
  by (simp add: parse_literal_def parse_number_fuel)

lemma skip_ws_Cons_le: "skip_ws s = x # u \<Longrightarrow> Suc (length u) \<le> length s"
  using skip_ws_Cons by (simp add: Suc_le_eq)

text \<open>Where a parser can run out of fuel: in one of the parsers it calls.\<close>

lemma parse_value_out_of_fuelE:
  assumes "parse_value (Suc f) d s = Inl OutOfFuel"
  obtains
    (array) c u x w where "skip_ws s = c # u" "skip_ws u = x # w"
      "parse_elems f (Suc d) (x # w) [] = Inl OutOfFuel"
  | (object) c u x w where "skip_ws s = c # u" "skip_ws u = x # w"
      "parse_members f (Suc d) (x # w) [] = Inl OutOfFuel"
proof -
  have "parse_literal w \<noteq> Inl OutOfFuel" "parse_string (Suc (length w)) w [] \<noteq> Inl OutOfFuel" for w
    by (simp_all add: parse_literal_fuel parse_string_fuel)
  then show ?thesis using assms that by (auto split: list.splits if_splits sum.splits)
qed

lemma parse_elems_out_of_fuelE:
  assumes "parse_elems (Suc f) d s acc = Inl OutOfFuel"
  obtains
    (here) "parse_value f d s = Inl OutOfFuel"
  | (more) x u c w where "parse_value f d s = Inr (x, u)" "skip_ws u = c # w"
      "parse_elems f d w (acc @ [x]) = Inl OutOfFuel"
  using assms by (auto split: list.splits if_splits sum.splits)

lemma parse_members_out_of_fuelE:
  assumes "parse_members (Suc f) d s acc = Inl OutOfFuel"
  obtains
    (here) s1 key s2 c s3 where "skip_ws s = dquote # s1"
      "parse_string (Suc (length s1)) s1 [] = Inr (key, s2)" "skip_ws s2 = c # s3"
      "parse_value f d s3 = Inl OutOfFuel"
  | (more) s1 key s2 c s3 x s4 c' s5 where "skip_ws s = dquote # s1"
      "parse_string (Suc (length s1)) s1 [] = Inr (key, s2)" "skip_ws s2 = c # s3"
      "parse_value f d s3 = Inr (x, s4)" "skip_ws s4 = c' # s5"
      "parse_members f d s5 ((key, x) # acc) = Inl OutOfFuel"
proof -
  have "parse_string (Suc (length w)) w [] \<noteq> Inl OutOfFuel" for w
    by (simp add: parse_string_fuel)
  then show ?thesis using assms that by (auto split: list.splits if_splits sum.splits)
qed

lemma parse_fuel:
  "(\<forall>d s. parse_value f d s = Inl OutOfFuel \<longrightarrow> f \<le> 2 * length s) \<and>
   (\<forall>d s acc. parse_elems f d s acc = Inl OutOfFuel \<longrightarrow> f \<le> Suc (2 * length s)) \<and>
   (\<forall>d s acc. parse_members f d s acc = Inl OutOfFuel \<longrightarrow> f \<le> 2 * length s)"
proof (induction f)
  case (Suc f)
  note IH = Suc [THEN conjunct1, rule_format] Suc [THEN conjunct2, THEN conjunct1, rule_format]
    Suc [THEN conjunct2, THEN conjunct2, rule_format]
  note rest = parse_rest [THEN conjunct1, rule_format]
  have "Suc f \<le> 2 * length s" if "parse_value (Suc f) d s = Inl OutOfFuel" for d s
    using that by (cases rule: parse_value_out_of_fuelE) (auto dest!: IH skip_ws_Cons_le)
  moreover have "Suc f \<le> Suc (2 * length s)" if "parse_elems (Suc f) d s acc = Inl OutOfFuel" for d s acc
    using that by (cases rule: parse_elems_out_of_fuelE) (auto dest!: IH rest skip_ws_Cons_le)
  moreover have "Suc f \<le> 2 * length s" if "parse_members (Suc f) d s acc = Inl OutOfFuel" for d s acc
    using that
    by (cases rule: parse_members_out_of_fuelE)
      (auto dest!: IH rest skip_ws_Cons_le parse_string_rest)
  ultimately show ?case by blast
qed simp

lemma json_unmarshal_fuel: "parse_value (2 * length s + 2) 0 s \<noteq> Inl OutOfFuel"
  by (auto simp del: parse_value.simps dest!: parse_fuel [THEN conjunct1, rule_format])

section \<open>Decoded strings are valid UTF-8\<close>

lemma string_step_valid: "string_step s = Emit x t \<Longrightarrow> valid_utf8 x"
proof -
  have u: "unicode_escape s = Emit x t \<Longrightarrow> valid_utf8 x" for s
    by (auto simp: unicode_escape_def encode_rune_valid split: option.splits if_splits)
  have "simple_escape c = Some x \<Longrightarrow> valid_utf8 x" for c
    by (auto simp: simple_escape_def dquote_def backslash_def intro!: valid_utf8_ascii
        simp: byte_def split: if_splits)
  with u have "escape_step s = Emit x t \<Longrightarrow> valid_utf8 x" for s
    by (auto simp: escape_step_def split: list.splits option.splits if_splits)
  then show "string_step s = Emit x t \<Longrightarrow> valid_utf8 x"
    by (auto simp: string_step_def encode_rune_valid valid_utf8_ascii split: list.splits if_splits)
qed

lemma parse_string_valid: "parse_string f s acc = Inr (x, t) \<Longrightarrow> valid_utf8 acc \<Longrightarrow> valid_utf8 x"
proof (induction f arbitrary: s acc)
  case (Suc f)
  then show ?case
    by (auto simp: parse_string.simps split: char_step.splits
        dest: string_step_valid intro: valid_utf8_append)
qed (simp add: parse_string.simps)

text \<open>Every string value inside a JSON value is valid UTF-8.\<close>

fun utf8_json :: "json \<Rightarrow> bool" where
  "utf8_json (JString s) = valid_utf8 s"
| "utf8_json (JArray xs) = list_all utf8_json xs"
| "utf8_json (JObject kvs) = list_all (\<lambda>kv. utf8_json (snd kv)) kvs"
| "utf8_json _ = True"

lemma parse_literal_utf8: "parse_literal s = Inr (v, t) \<Longrightarrow> utf8_json v"
  by (auto simp: parse_literal_def parse_number_def Let_def
      split: if_splits list.splits prod.splits option.splits)

lemma parse_utf8:
  "(\<forall>d s v t. parse_value f d s = Inr (v, t) \<longrightarrow> utf8_json v) \<and>
   (\<forall>d s acc v t. parse_elems f d s acc = Inr (v, t) \<longrightarrow> utf8_json (JArray acc) \<longrightarrow> utf8_json v) \<and>
   (\<forall>d s acc v t. parse_members f d s acc = Inr (v, t) \<longrightarrow> utf8_json (JObject acc) \<longrightarrow> utf8_json v)"
proof (induction f)
  case (Suc f)
  note IH = Suc [THEN conjunct1, rule_format] Suc [THEN conjunct2, THEN conjunct1, rule_format]
    Suc [THEN conjunct2, THEN conjunct2, rule_format]
  have "utf8_json v" if "parse_value (Suc f) d s = Inr (v, t)" for d s v t
    using that
    by (cases rule: parse_valueE) (auto dest: IH parse_string_valid parse_literal_utf8)
  moreover have "utf8_json v"
    if "parse_elems (Suc f) d s acc = Inr (v, t)" "utf8_json (JArray acc)" for d s acc v t
    using that(1) by (cases rule: parse_elemsE) (use that(2) in \<open>auto dest!: IH(1) dest: IH(2)\<close>)
  moreover have "utf8_json v"
    if "parse_members (Suc f) d s acc = Inr (v, t)" "utf8_json (JObject acc)" for d s acc v t
    using that(1) by (cases rule: parse_membersE) (use that(2) in \<open>auto dest!: IH(1) dest: IH(3)\<close>)
  ultimately show ?case by blast
qed simp

lemma json_unmarshal_utf8: "json_unmarshal s = Some v \<Longrightarrow> utf8_json v"
  by (auto simp: json_unmarshal_def simp del: parse_value.simps split: sum.splits if_splits
      dest: parse_utf8 [THEN conjunct1, rule_format])

lemma utf8_json_lookup: "utf8_json (JObject kvs) \<Longrightarrow> map_of kvs k = Some v \<Longrightarrow> utf8_json v"
  by (drule map_of_SomeD) (force simp: list_all_iff)

end
