(* ===== verification/Audit_Copy.thy ===== *)
theory Audit_Copy
  imports Redaction Json_Facts
begin

text \<open>
  The properties of the audit copy that \<open>ExtractRequest\<close> and \<open>ExtractWebSocketMessage\<close>
  promise to the rest of the sidecar, with the facts on statuses, encodings and paths they
  need.
\<close>

section \<open>Statuses\<close>

named_theorems keeps_status

lemma Status_addUserMessage [keeps_status]: "Status (addUserMessage e t src) = Status e"
  by (simp add: addUserMessage_def)

lemma Status_incrementExcluded [keeps_status]: "Status (incrementExcluded e r) = Status e"
  by (simp add: incrementExcluded_def Let_def)

lemma Status_extractContent [keeps_status]:
  "Status (extractContent e v src) = Status e"
  "Status (extractContentItems e items src i) = Status e"
proof (induction e v src and e items src i rule: extractContent_extractContentItems.induct)
  case (8 e item rest source index)
  show ?case
    unfolding extractContentItems.simps 8(2)
    using 8(1) by (cases item) (auto simp: keeps_status Let_def split: option.split)
qed (auto simp: keeps_status split: option.split)

lemma Status_extractRoleMessage [keeps_status]: "Status (extractRoleMessage e obj src) = Status e"
  by (auto simp: extractRoleMessage_def extractParts_def Let_def keeps_status split: option.split)

lemma Status_extract_messages [keeps_status]: "Status (extract_messages e ms i) = Status e"
  by (induction e ms i rule: extract_messages.induct) (auto simp: keeps_status split: json.split)

lemma Status_exclude_field [keeps_status]: "Status (exclude_field e obj k r) = Status e"
  by (auto simp: exclude_field_def keeps_status split: option.split)

lemma Status_extract_inputs [keeps_status]: "Status (extract_inputs e xs i) = Status e"
  by (induction e xs i rule: extract_inputs.induct)
    (auto simp: keeps_status Let_def split: json.split)

lemma Status_extract_contents [keeps_status]: "Status (extract_contents e xs i) = Status e"
  by (induction e xs i rule: extract_contents.induct)
    (auto simp: keeps_status Let_def extractParts_def split: json.split)

text \<open>JSON requests are marked unsupported only when nothing was extracted.\<close>

definition sound_status :: "extraction \<Rightarrow> bool" where
  "sound_status e \<longleftrightarrow> (Status e = ''unsupported'' \<longrightarrow> Messages e = [])"

lemma set_partial_sound: "sound_status (set_partial e)"
  by (simp add: set_partial_def sound_status_def)

lemma extractGeneric_sound: "Status e \<noteq> ''unsupported'' \<Longrightarrow> sound_status (extractGeneric e obj)"
  using set_partial_sound
  by (auto simp: extractGeneric_def Let_def sound_status_def keeps_status split: option.split)

lemma sound_if: "Status e \<noteq> ''unsupported'' \<Longrightarrow> sound_status e"
  by (simp add: sound_status_def)

lemma protocols_sound:
  assumes "Status e = []"
  shows "sound_status (extractOpenAIChat e obj)" "sound_status (extractResponses e obj)"
    "sound_status (extractAnthropic e obj)" "sound_status (extractGemini e obj)"
  using assms
  by (auto simp: extractOpenAIChat_def extractResponses_def extractAnthropic_def extractGemini_def Let_def
      keeps_status intro!: extractGeneric_sound intro: sound_if split: json.split option.split)

lemma extractJSONByProtocol_sound:
  assumes "Status e = []" and "Messages e = []"
  shows "sound_status (extractJSONByProtocol e root)"
proof (cases root)
  case (JObject obj)
  then show ?thesis
    using assms protocols_sound [of e obj] extractGeneric_sound [of e obj]
    by (simp add: extractJSONByProtocol_def Let_def)
qed (simp_all add: extractJSONByProtocol_def sound_status_def assms)

lemma extract_event_sound:
  "Status e = [] \<Longrightarrow> Messages e = [] \<Longrightarrow> sound_status (extract_event e root)"
proof -
  assume e: "Status e = []" "Messages e = []"
  have "sound_status (extractResponses (e\<lparr>Protocol := p\<rparr>) obj)" for obj p
    using e by (auto simp: extractResponses_def Let_def keeps_status sound_status_def split: json.split option.split)
  with e extractJSONByProtocol_sound [OF e] show ?thesis
    by (auto simp: extract_event_def Let_def sound_status_def keeps_status split: json.split option.split)
qed

section \<open>Encodings\<close>

text \<open>Every value of an object is made of valid strings.\<close>

definition utf8_object :: "json_object \<Rightarrow> bool" where
  "utf8_object obj \<longleftrightarrow> (\<forall>k v. map_of obj k = Some v \<longrightarrow> utf8_json v)"

lemma utf8_objectI: "utf8_json (JObject obj) \<Longrightarrow> utf8_object obj"
  using utf8_json_lookup by (simp add: utf8_object_def)

lemma utf8_objectD: "utf8_object obj \<Longrightarrow> map_of obj k = Some v \<Longrightarrow> utf8_json v"
  by (simp add: utf8_object_def)

abbreviation utf8_strings :: "string list \<Rightarrow> bool" where
  "utf8_strings \<equiv> list_all valid_utf8"

lemma get_string_utf8: "utf8_object obj \<Longrightarrow> get_string obj k = Some s \<Longrightarrow> valid_utf8 s"
  by (auto simp: get_string_def split: option.splits json.splits dest!: utf8_objectD)

lemma string_or_empty_utf8: "utf8_object obj \<Longrightarrow> valid_utf8 (string_or_empty obj k)"
  by (auto simp: string_or_empty_def split: option.split dest: get_string_utf8)

lemma get_array_utf8: "utf8_object obj \<Longrightarrow> get_array obj k = Some xs \<Longrightarrow> list_all utf8_json xs"
  by (auto simp: get_array_def split: option.splits json.splits dest!: utf8_objectD)

lemma content_texts_utf8:
  "utf8_json v \<Longrightarrow> utf8_strings (content_texts v)"
  "utf8_json v \<Longrightarrow> utf8_strings (item_texts v)"
proof (induction v and v rule: content_texts_item_texts.induct)
  case (2 items)
  then show ?case by (auto simp: list_all_iff)
next
  case (3 typed)
  then have "utf8_object typed" by (blast intro: utf8_objectI)
  with 3(1) show ?case by (auto split: option.split dest: get_string_utf8 utf8_objectD)
next
  case (8 part)
  then have "utf8_object part" by (blast intro: utf8_objectI)
  with 8(1) show ?case by (auto split: option.split dest: get_string_utf8 utf8_objectD)
qed auto

lemma role_texts_utf8: "utf8_object obj \<Longrightarrow> utf8_strings (role_texts obj)"
  by (auto simp: role_texts_def split: option.split
      intro: content_texts_utf8 get_string_utf8 utf8_objectD)

lemma concat_utf8:
  "list_all utf8_json xs \<Longrightarrow> (\<And>x. utf8_json x \<Longrightarrow> utf8_strings (f x)) \<Longrightarrow>
     utf8_strings (concat (map f xs))"
  by (auto simp: list_all_iff)

lemma item_functions_utf8:
  assumes "utf8_json raw"
  shows "utf8_strings (message_texts raw)" "utf8_strings (input_texts raw)"
    "utf8_strings (gemini_stored_item raw)"
proof -
  have "utf8_object obj" if "raw = JObject obj" for obj using assms that by (blast intro: utf8_objectI)
  with assms show "utf8_strings (message_texts raw)" "utf8_strings (input_texts raw)"
    "utf8_strings (gemini_stored_item raw)"
    by (auto simp: message_texts_def input_texts_def gemini_stored_item_def split: json.split option.split
        intro: role_texts_utf8 string_or_empty_utf8 content_texts_utf8 dest: utf8_objectD)
qed

lemma field_texts_utf8: "utf8_object obj \<Longrightarrow> utf8_strings (field_texts obj k)"
proof (cases "map_of obj k")
  case (Some v)
  assume "utf8_object obj"
  then have v: "utf8_json v" using Some by (rule utf8_objectD)
  have "utf8_strings (string_items xs)" if "list_all utf8_json xs" for xs
    using that unfolding string_items_def by (rule concat_utf8) (auto split: json.split)
  then show ?thesis using Some v by (cases v) (auto simp: field_texts_def)
qed (simp add: field_texts_def)

lemma generic_texts_utf8:
  assumes "utf8_object obj"
  shows "utf8_strings (generic_texts obj)"
proof -
  have "utf8_strings (concat (map (field_texts obj) ks))" for ks
    using field_texts_utf8 [OF assms] by (induction ks) auto
  moreover have "utf8_strings (concat (map message_texts ms))"
    if "get_array obj ''messages'' = Some ms" for ms
    using get_array_utf8 [OF assms that] item_functions_utf8(1) by (rule concat_utf8)
  ultimately show ?thesis
    unfolding generic_texts_def by (auto split: option.split list.split simp del: concat.simps list.map)
qed

lemma stored_texts_utf8:
  assumes "utf8_json root"
  shows "utf8_strings (stored_texts p root)"
proof (cases root)
  case (JObject obj)
  have o: "utf8_object obj" using assms JObject by (blast intro: utf8_objectI)
  have "utf8_strings (concat (map message_texts xs))" "utf8_strings (concat (map input_texts xs))"
    "utf8_strings (concat (map gemini_stored_item xs))" if "list_all utf8_json xs" for xs
    using that item_functions_utf8 by (auto intro!: concat_utf8)
  note lists = this get_array_utf8 [OF o]
  have "utf8_strings (responses_texts obj)"
  proof (cases "map_of obj ''input''")
    case (Some v)
    with o have "utf8_json v" by (rule utf8_objectD)
    with Some lists show ?thesis
      by (cases v) (auto simp: responses_texts_def intro!: role_texts_utf8 utf8_objectI)
  qed (simp add: responses_texts_def)
  with lists generic_texts_utf8 [OF o] show ?thesis
    by (auto simp: JObject stored_texts_def request_texts_def chat_texts_def anthropic_texts_def gemini_stored_def
        split: option.split)
qed (simp_all add: stored_texts_def)

lemma join_utf8: "utf8_strings xs \<Longrightarrow> valid_utf8 sep \<Longrightarrow> valid_utf8 (join xs sep)"
  by (induction xs sep rule: join.induct) (auto intro: valid_utf8_append)

lemma paragraph_break_utf8: "valid_utf8 paragraph_break"
  using valid_utf8_append [of "[char_of (10 :: nat)]" "[char_of (10 :: nat)]"]
  by (simp add: paragraph_break_def valid_utf8_ascii byte_def)

section \<open>Model names in paths\<close>

lemma cut_before_notin: "c \<notin> set (cut_before c s)"
proof (cases "index_of s [c]")
  case None
  then have "\<not> sublist [c] s" by (simp add: index_of_None)
  then have "c \<notin> set s" by (auto simp: sublist_def dest!: split_list)
  with None show ?thesis by (simp add: cut_before_def)
next
  case (Some i)
  have "c \<notin> set (take i s)"
  proof
    assume "c \<in> set (take i s)"
    then obtain j where j: "j < i" "j < length s" "s ! j = c" by (auto simp: in_set_conv_nth)
    then have "prefix [c] (drop j s)" by (simp add: Cons_nth_drop_Suc [symmetric])
    with index_of_first [OF Some j(1)] show False by simp
  qed
  with Some show ?thesis by (simp add: cut_before_def)
qed

lemma cut_before_prefix: "prefix (cut_before c s) s"
  by (auto simp: cut_before_def take_is_prefix split: option.split)

lemma set_cut_before: "set (cut_before c s) \<subseteq> set s"
  using cut_before_prefix set_mono_prefix by blast

lemma modelFromPath_ascii_returns:
  assumes "ascii path"
  shows "\<exists>model. modelFromPath path = Return model \<and> CHR ''/'' \<notin> set model \<and> CHR '':'' \<notin> set model
     \<and> sublist model path"
proof (cases "index_of (to_lower path) ''/models/''")
  case None
  then show ?thesis by (simp add: modelFromPath_def)
next
  case (Some i)
  then have "i + 8 \<le> length path"
    using index_of_bound [OF Some] to_lower_ascii_length [OF assms] by simp
  then have m: "modelFromPath path
      = Return (trim_space (cut_before (CHR ''/'') (cut_before (CHR '':'') (drop (i + 8) path))))"
    using Some by (simp add: modelFromPath_def slice_from_def Let_def numeral_eq_Suc)
  let ?a = "cut_before (CHR '':'') (drop (i + 8) path)"
  have "CHR ''/'' \<notin> set (cut_before (CHR ''/'') ?a)" "CHR '':'' \<notin> set (cut_before (CHR ''/'') ?a)"
    using cut_before_notin set_cut_before by blast+
  moreover have "sublist (trim_space (cut_before (CHR ''/'') ?a)) path"
    by (meson cut_before_prefix prefix_imp_sublist sublist_drop sublist_order.order.trans trim_space_sublist)
  ultimately show ?thesis using m set_trim_space by blast
qed

end
