(* ===== verification/Go_Time.thy ===== *)
theory Go_Time
  imports Go_Text
begin

text \<open>
  What the sidecar uses of package \<open>time\<close>: \<open>time.ParseDuration\<close> for the intervals of the
  configuration and \<open>time.Parse(time.RFC3339, _)\<close> for the time range of a listing. A duration is
  a number of nanoseconds; a time is the number of nanoseconds since the Unix epoch.
\<close>

section \<open>Rounding to float64\<close>

text \<open>
  The fraction of a duration is computed in 64-bit floating point. A positive number is kept as
  a quotient of naturals; \<open>round_double\<close> is the nearest number with a significand of 53 bits,
  ties to even. The numbers that occur are far from the limits of the exponent.
\<close>

definition round_half_even :: "nat \<Rightarrow> nat \<Rightarrow> nat" where
  "round_half_even p q =
     (let n = p div q; r = p mod q
      in if 2 * r < q \<or> 2 * r = q \<and> even n then n else n + 1)"

fun bit_length :: "nat \<Rightarrow> nat" where
  "bit_length n = (if n = 0 then 0 else Suc (bit_length (n div 2)))"

declare bit_length.simps [simp del]

definition scale_by :: "int \<Rightarrow> nat \<times> nat \<Rightarrow> nat \<times> nat" where
  "scale_by k x = (if 0 \<le> k then (fst x * 2 ^ nat k, snd x) else (fst x, snd x * 2 ^ nat (- k)))"

text \<open>The power of two that brings the number between \<open>2 ^ 52\<close> and \<open>2 ^ 53\<close>.\<close>

definition double_shift :: "nat \<times> nat \<Rightarrow> int" where
  "double_shift x =
     (let k = 53 - (int (bit_length (fst x)) - int (bit_length (snd x))); y = scale_by k x
      in if 2 ^ 53 * snd y \<le> fst y then k - 1 else k)"

definition round_double :: "nat \<times> nat \<Rightarrow> nat \<times> nat" where
  "round_double x =
     (if fst x = 0 then (0, 1)
      else let k = double_shift x; y = scale_by k x
           in scale_by (- k) (round_half_even (fst y) (snd y), 1))"

section \<open>Durations\<close>

text \<open>\<open>leadingInt\<close>: the value of the leading digits and the rest; \<open>None\<close> when it exceeds \<open>2 ^ 63\<close>.\<close>

fun leading_int :: "nat \<Rightarrow> string \<Rightarrow> (nat \<times> string) option" where
  "leading_int x [] = Some (x, [])"
| "leading_int x (c # s) =
     (if \<not> is_digit c then Some (x, c # s)
      else if 2 ^ 63 div 10 < x then None
      else let y = x * 10 + (byte c - 48) in if 2 ^ 63 < y then None else leading_int y s)"

text \<open>\<open>leadingFraction\<close>: digits past the capacity of the accumulator are skipped.\<close>

fun leading_fraction :: "bool \<Rightarrow> nat \<Rightarrow> nat \<Rightarrow> string \<Rightarrow> nat \<times> nat \<times> string" where
  "leading_fraction overflow x scale [] = (x, scale, [])"
| "leading_fraction overflow x scale (c # s) =
     (if \<not> is_digit c then (x, scale, c # s)
      else if overflow \<or> (2 ^ 63 - 1) div 10 < x then leading_fraction True x scale s
      else let y = x * 10 + (byte c - 48)
           in if 2 ^ 63 < y then leading_fraction True x scale s
              else leading_fraction False y (scale * 10) s)"

definition unit_map :: "(string \<times> nat) list" where
  "unit_map =
     [(''ns'', 1), (''us'', 1000), ([char_of (194 :: nat), char_of (181 :: nat), CHR ''s''], 1000),
      ([char_of (206 :: nat), char_of (188 :: nat), CHR ''s''], 1000), (''ms'', 1000000), (''s'', 1000000000),
      (''m'', 60000000000), (''h'', 3600000000000)]"

text \<open>\<open>uint64(float64(f) * (float64(unit) / scale))\<close>.\<close>

definition fraction_of_unit :: "nat \<Rightarrow> nat \<Rightarrow> nat \<Rightarrow> nat" where
  "fraction_of_unit f unit scale =
     (let (a, b) = round_double (f, 1); (c, d) = round_double (unit, scale); (p, q) = round_double (a * c, b * d)
      in p div q)"

definition number_byte :: "char \<Rightarrow> bool" where
  "number_byte c \<longleftrightarrow> c = CHR ''.'' \<or> is_digit c"

text \<open>One number with its unit: its nanoseconds and the rest; \<open>None\<close> is an error.\<close>

definition duration_term :: "string \<Rightarrow> (nat \<times> string) option" where
  "duration_term s =
     (case leading_int 0 s of
        None \<Rightarrow> None
      | Some (v, s1) \<Rightarrow>
          let pre = length s \<noteq> length s1;
              dot = s1 \<noteq> [] \<and> hd s1 = CHR ''.'';
              (f, scale, s2) = (if dot then leading_fraction False 0 1 (tl s1) else (0, 1, s1));
              post = dot \<and> length (tl s1) \<noteq> length s2;
              u = takeWhile (\<lambda>c. \<not> number_byte c) s2
          in if \<not> pre \<and> \<not> post \<or> u = [] then None
             else case map_of unit_map u of
                    None \<Rightarrow> None
                  | Some unit \<Rightarrow>
                      if 2 ^ 63 div unit < v then None
                      else let n = v * unit + (if 0 < f then fraction_of_unit f unit scale else 0)
                           in if 0 < f \<and> 2 ^ 63 < n then None
                              else Some (n, dropWhile (\<lambda>c. \<not> number_byte c) s2))"

lemma leading_int_length: "leading_int x s = Some (v, t) \<Longrightarrow> length t \<le> length s"
  by (induction x s arbitrary: v t rule: leading_int.induct) (fastforce simp: Let_def split: if_splits)+

lemma leading_fraction_length: "leading_fraction b x sc s = (f, sc', t) \<Longrightarrow> length t \<le> length s"
  by (induction b x sc s arbitrary: f sc' t rule: leading_fraction.induct) (fastforce simp: Let_def split: if_splits)+

lemma duration_term_shorter: "duration_term s = Some (v, t) \<Longrightarrow> length t < length s"
proof -
  assume a: "duration_term s = Some (v, t)"
  then obtain v1 s1 f scale s2 where 1: "leading_int 0 s = Some (v1, s1)"
    and 2: "(f, scale, s2) = (if s1 \<noteq> [] \<and> hd s1 = CHR ''.'' then leading_fraction False 0 1 (tl s1) else (0, 1, s1))"
    and 3: "takeWhile (\<lambda>c. \<not> number_byte c) s2 \<noteq> []" "t = dropWhile (\<lambda>c. \<not> number_byte c) s2"
    by (auto simp: duration_term_def Let_def split: option.splits if_splits prod.splits)
  have "length s2 \<le> length s1"
    using 2 leading_fraction_length [of False 0 1 "tl s1" f scale s2] by (cases s1) (auto split: if_splits)
  moreover have "length t < length s2"
    using 3 by (metis append_is_Nil_conv length_append length_greater_0_conv less_add_same_cancel2 takeWhile_dropWhile_id)
  ultimately show ?thesis using leading_int_length [OF 1] by linarith
qed

text \<open>The loop over the terms; the sum is a 64-bit unsigned number.\<close>

function duration_terms :: "nat \<Rightarrow> string \<Rightarrow> nat option" where
  "duration_terms d s =
     (if s = [] then Some d
      else if \<not> number_byte (hd s) then None
      else case duration_term s of
             None \<Rightarrow> None
           | Some (v, t) \<Rightarrow>
               let d1 = (d + v) mod 2 ^ 64 in if 2 ^ 63 < d1 then None else duration_terms d1 t)"
  by pat_completeness auto
termination by (relation "measure (length \<circ> snd)") (auto dest: duration_term_shorter)

declare duration_terms.simps [simp del]

definition parse_duration :: "string \<Rightarrow> int option" where
  "parse_duration s =
     (let signed = s \<noteq> [] \<and> (hd s = CHR ''-'' \<or> hd s = CHR ''+'');
          neg = (s \<noteq> [] \<and> hd s = CHR ''-'');
          t = (if signed then tl s else s)
      in if t = ''0'' then Some 0
         else if t = [] then None
         else case duration_terms 0 t of
                None \<Rightarrow> None
              | Some d \<Rightarrow> if neg then Some (- int d) else if 2 ^ 63 - 1 < d then None else Some (int d))"

section \<open>Instants\<close>

definition leap_year :: "nat \<Rightarrow> bool" where
  "leap_year y \<longleftrightarrow> y mod 4 = 0 \<and> (y mod 100 \<noteq> 0 \<or> y mod 400 = 0)"

text \<open>\<open>daysIn\<close>.\<close>

definition days_in :: "nat \<Rightarrow> nat \<Rightarrow> nat" where
  "days_in month year =
     (if month = 2 then if leap_year year then 29 else 28
      else if List.member [4, 6, 9, 11] month then 30 else 31)"

text \<open>The days from the first of January of year 0 to the first of January of a year, and to a date.\<close>

definition days_before_year :: "nat \<Rightarrow> nat" where
  "days_before_year y = 365 * y + (y + 3) div 4 + (y + 399) div 400 - (y + 99) div 100"

definition days_before :: "nat \<Rightarrow> nat \<Rightarrow> nat \<Rightarrow> nat" where
  "days_before year month day =
     days_before_year year + sum_list (map (\<lambda>m. days_in m year) [1..<month]) + (day - 1)"

text \<open>Seconds since the epoch of a date and a time of day in UTC; year 1970 starts on day 719528.\<close>

definition unix_seconds :: "nat \<Rightarrow> nat \<Rightarrow> nat \<Rightarrow> nat \<Rightarrow> nat \<Rightarrow> nat \<Rightarrow> int" where
  "unix_seconds year month day hour minute sec =
     (int (days_before year month day) - 719528) * 86400 + int (hour * 3600 + minute * 60 + sec)"

section \<open>RFC 3339\<close>

text \<open>
  \<open>time.Parse(time.RFC3339, value)\<close> first tries a strict parser and falls back to the parser for
  layouts, which accepts whatever the strict one does with the same result, and also an hour
  of one digit, a comma before the fraction and offsets of 24 hours or 60 minutes. Each step of
  the layout takes a part of the value and leaves the rest; \<open>None\<close> is the error.
\<close>

definition digit_at :: "string \<Rightarrow> nat \<Rightarrow> bool" where
  "digit_at s i \<longleftrightarrow> i < length s \<and> is_digit (s ! i)"

text \<open>\<open>getnum\<close>: two digits, or one where the layout does not fix the width.\<close>

definition getnum :: "bool \<Rightarrow> string \<Rightarrow> (nat \<times> string) option" where
  "getnum fixed s =
     (if \<not> digit_at s 0 then None
      else if \<not> digit_at s 1 then if fixed then None else Some (byte (s ! 0) - 48, drop 1 s)
      else Some ((byte (s ! 0) - 48) * 10 + (byte (s ! 1) - 48), drop 2 s))"

definition skip_char :: "char \<Rightarrow> string \<Rightarrow> string option" where
  "skip_char c s = (if s \<noteq> [] \<and> hd s = c then Some (tl s) else None)"

definition take_year :: "string \<Rightarrow> (nat \<times> string) option" where
  "take_year s =
     (if length s < 4 \<or> \<not> list_all is_digit (take 4 s) then None
      else Some (digits_value (take 4 s), drop 4 s))"

text \<open>The fraction after the seconds, in nanoseconds: digits past the ninth are cut off.\<close>

definition take_fraction :: "string \<Rightarrow> nat \<times> string" where
  "take_fraction s =
     (if 2 \<le> length s \<and> (hd s = CHR ''.'' \<or> hd s = CHR '','') \<and> digit_at s 1
      then let ds = takeWhile is_digit (tl s); kept = take 9 ds
           in (digits_value kept * 10 ^ (9 - length kept), dropWhile is_digit (tl s))
      else (0, s))"

text \<open>The zone: \<open>Z\<close>, or a sign, two digits, a colon and two digits. The result is the offset in seconds.\<close>

definition take_zone :: "string \<Rightarrow> (int \<times> string) option" where
  "take_zone s =
     (if s \<noteq> [] \<and> hd s = CHR ''Z'' then Some (0, tl s)
      else if length s < 6 \<or> s ! 3 \<noteq> CHR '':'' then None
      else case (getnum True (take 2 (drop 1 s)), getnum True (take 2 (drop 4 s))) of
             (Some (hr, _), Some (mm, _)) \<Rightarrow>
               if 24 < hr \<or> 60 < mm then None
               else if hd s = CHR ''+'' then Some (int ((hr * 60 + mm) * 60), drop 6 s)
               else if hd s = CHR ''-'' then Some (- int ((hr * 60 + mm) * 60), drop 6 s)
               else None
           | _ \<Rightarrow> None)"

text \<open>The date: year, month and day with their hyphens.\<close>

definition take_date :: "string \<Rightarrow> ((nat \<times> nat \<times> nat) \<times> string) option" where
  "take_date s =
     Option.bind (take_year s) (\<lambda>(year, s1).
     Option.bind (skip_char (CHR ''-'') s1) (\<lambda>s2.
     Option.bind (getnum True s2) (\<lambda>(month, s3).
       if month < 1 \<or> 12 < month then None
       else Option.bind (skip_char (CHR ''-'') s3) (\<lambda>s4.
            Option.bind (getnum True s4) (\<lambda>(day, s5). Some ((year, month, day), s5))))))"

definition take_clock :: "string \<Rightarrow> ((nat \<times> nat \<times> nat) \<times> string) option" where
  "take_clock s =
     Option.bind (getnum False s) (\<lambda>(hour, s1).
       if 24 \<le> hour then None
       else Option.bind (skip_char (CHR '':'') s1) (\<lambda>s2.
            Option.bind (getnum True s2) (\<lambda>(minute, s3).
              if 60 \<le> minute then None
              else Option.bind (skip_char (CHR '':'') s3) (\<lambda>s4.
                   Option.bind (getnum True s4) (\<lambda>(sec, s5).
                     if 60 \<le> sec then None else Some ((hour, minute, sec), s5))))))"

definition parse_rfc3339 :: "string \<Rightarrow> int option" where
  "parse_rfc3339 s =
     Option.bind (take_date s) (\<lambda>((year, month, day), s1).
     Option.bind (skip_char (CHR ''T'') s1) (\<lambda>s2.
     Option.bind (take_clock s2) (\<lambda>((hour, minute, sec), s3).
       case take_fraction s3 of (nsec, s4) \<Rightarrow>
       Option.bind (take_zone s4) (\<lambda>(offset, s5).
         if s5 \<noteq> [] \<or> day < 1 \<or> days_in month year < day then None
         else Some ((unix_seconds year month day hour minute sec - offset) * 1000000000 + int nsec)))))"

section \<open>Facts\<close>


lemma byte_digit: "d < 10 \<Longrightarrow> byte (char_of (48 + d)) = 48 + d"
  by (simp add: byte_def)

lemma digit_char: "d < 10 \<Longrightarrow> is_digit (char_of (48 + d :: nat))"
  by (simp add: is_digit_def byte_digit)

lemma itoa_digits: "list_all is_digit (itoa n)"
proof (induction n rule: itoa.induct)
  case (1 n)
  then show ?case by (simp add: itoa.simps [of n] digit_char)
qed

lemma itoa_nonempty: "itoa n \<noteq> []"
  by (simp add: itoa.simps [of n])

lemma trim_itoa: "trim_space (itoa n) = itoa n" "trim_space (itoa n @ ''s'') = itoa n @ ''s''"
proof -
  have "\<forall>c \<in> set (itoa n). 48 \<le> byte c \<and> byte c \<le> 57"
    using itoa_digits [of n] by (auto simp: list_all_iff is_digit_def)
  then have n: "\<forall>c \<in> set (itoa n). byte c < 128 \<and> \<not> is_space (byte c)" by (auto simp: is_space_def)
  moreover have "byte CHR ''s'' < 128 \<and> \<not> is_space (byte CHR ''s'')" by (simp add: byte_def is_space_def)
  ultimately show "trim_space (itoa n) = itoa n" "trim_space (itoa n @ ''s'') = itoa n @ ''s''"
    by (simp_all add: trim_space_ascii_id)
qed

lemma digits_value_snoc: "digits_value (s @ [c]) = digits_value s * 10 + (byte c - 48)"
  by (simp add: digits_value_def)

lemma digits_value_itoa: "digits_value (itoa n) = n"
proof (induction n rule: itoa.induct)
  case (1 n)
  then show ?case
  proof (cases "n < 10")
    case True
    then show ?thesis by (simp add: itoa.simps [of n] digits_value_def byte_digit)
  next
    case False
    with 1 have "digits_value (itoa (n div 10)) = n div 10" by blast
    moreover have "itoa n = itoa (n div 10) @ [char_of (48 + n mod 10)]" using False by (simp add: itoa.simps [of n])
    ultimately show ?thesis by (simp only: digits_value_snoc) (simp add: byte_digit)
  qed
qed

lemma digits_value_bound: "list_all is_digit s \<Longrightarrow> digits_value s < 10 ^ length s"
proof (induction s rule: rev_induct)
  case (snoc c s)
  then have "digits_value s + 1 \<le> 10 ^ length s" "byte c - 48 < 10" by (auto simp: is_digit_def)
  then show ?case by (simp add: digits_value_snoc)
qed (simp add: digits_value_def)

text \<open>\<open>strconv.Atoi\<close> reads back what \<open>strconv.Itoa\<close> prints.\<close>

lemma parse_int64_itoa: "n < 2 ^ 63 \<Longrightarrow> parse_int64 (itoa n) = Some (int n)"
proof -
  assume n: "n < 2 ^ 63"
  have d: "is_digit (hd (itoa n))" using itoa_digits [of n] itoa_nonempty [of n] by (cases "itoa n") auto
  have "\<not> is_digit CHR ''-''" "\<not> is_digit CHR ''+''" by (simp_all add: is_digit_def byte_def)
  with d have "hd (itoa n) \<noteq> CHR ''-''" "hd (itoa n) \<noteq> CHR ''+''" by metis+
  moreover have "int n \<le> 9223372036854775807" using n by simp
  ultimately show ?thesis
    using itoa_digits [of n] itoa_nonempty [of n] digits_value_itoa [of n]
    by (cases "itoa n") (simp_all add: parse_int64_def Let_def)
qed

text \<open>\<open>leadingInt\<close> takes all digits of a number within its range.\<close>

definition digits_from :: "nat \<Rightarrow> string \<Rightarrow> nat" where
  "digits_from x s = fold (\<lambda>c acc. acc * 10 + (byte c - 48)) s x"

lemma digits_from_ge: "x \<le> digits_from x s"
proof (induction s arbitrary: x)
  case (Cons c s)
  show ?case using Cons [of "x * 10 + (byte c - 48)"] by (simp add: digits_from_def)
qed (simp add: digits_from_def)

lemma leading_int_digits:
  "list_all is_digit ds \<Longrightarrow> digits_from x ds \<le> 2 ^ 63 \<Longrightarrow> t = [] \<or> \<not> is_digit (hd t)
   \<Longrightarrow> leading_int x (ds @ t) = Some (digits_from x ds, t)"
proof (induction ds arbitrary: x)
  case Nil
  then show ?case by (cases t) (auto simp: digits_from_def)
next
  case (Cons c ds)
  let ?y = "x * 10 + (byte c - 48)"
  have y: "digits_from x (c # ds) = digits_from ?y ds" by (simp add: digits_from_def)
  then have "?y \<le> 2 ^ 63" using digits_from_ge [of ?y ds] Cons.prems(2) by linarith
  moreover from this have "x \<le> 2 ^ 63 div 10" by simp
  ultimately show ?case using Cons y by (simp add: Let_def)
qed

text \<open>A plain number of seconds is read as that many seconds.\<close>

lemma duration_term_seconds:
  assumes "int n * 1000000000 < 2 ^ 63"
  shows "duration_term (itoa n @ ''s'') = Some (n * 1000000000, [])"
proof -
  have "n \<le> 2 ^ 63 div 1000000000" using assms by simp
  moreover have "leading_int 0 (itoa n @ ''s'') = Some (n, ''s'')"
    using leading_int_digits [of "itoa n" 0 "''s''"] itoa_digits digits_value_itoa [of n] assms
    by (simp add: digits_from_def digits_value_def is_digit_def byte_def)
  moreover have "map_of unit_map ''s'' = Some 1000000000" by code_simp
  moreover have "\<not> number_byte CHR ''s''" by (simp add: number_byte_def is_digit_def byte_def)
  ultimately show ?thesis
    using itoa_nonempty [of n] by (simp add: duration_term_def Let_def)
qed

lemma parse_duration_seconds:
  assumes "int n * 1000000000 < 2 ^ 63"
  shows "parse_duration (itoa n @ ''s'') = Some (int n * 1000000000)"
proof -
  obtain c s where c: "itoa n = c # s" using itoa_nonempty [of n] by (cases "itoa n") auto
  with itoa_digits [of n] have d: "is_digit c" by simp
  have "\<not> is_digit CHR ''-''" "\<not> is_digit CHR ''+''" by (simp_all add: is_digit_def byte_def)
  with d have c': "c \<noteq> CHR ''-''" "c \<noteq> CHR ''+''" by metis+
  have "itoa n @ ''s'' \<noteq> ''0''" using c by (cases s) auto
  moreover have "duration_terms 0 (itoa n @ ''s'') = Some (n * 1000000000)"
    using duration_term_seconds [OF assms] c d assms
    by (simp add: duration_terms.simps [of 0 "c # s @ ''s''"] duration_terms.simps [of "n * 1000000000" "[]"] number_byte_def)
  ultimately show ?thesis using c c' assms by (auto simp: parse_duration_def Let_def)
qed

lemma duration_terms_range: "d \<le> 2 ^ 63 \<Longrightarrow> duration_terms d s = Some v \<Longrightarrow> v \<le> 2 ^ 63"
proof (induction d s arbitrary: v rule: duration_terms.induct)
  case (1 d s)
  show ?case
    using 1(1) [OF _ _ _ refl refl] 1(2,3)
    by (auto simp: duration_terms.simps [of d s] Let_def split: if_splits option.splits)
qed

text \<open>A duration is a 64-bit number.\<close>

lemma parse_duration_range: "parse_duration s = Some v \<Longrightarrow> - (2 ^ 63) \<le> v \<and> v \<le> 2 ^ 63 - 1"
  by (auto simp: parse_duration_def Let_def split: if_splits option.splits dest: duration_terms_range [of 0, simplified])

text \<open>The calendar.\<close>

lemma round_up_div: "Suc j = k \<Longrightarrow> (y + 1 + j) div k = (y + j) div k + (if y mod k = 0 then 1 else 0)"
proof -
  assume k: "Suc j = k"
  then have "Suc (y + j) = y + k" by simp
  then have "Suc (y + j) mod k = y mod k" by (metis mod_add_self2)
  then show ?thesis using div_Suc [of "y + j" k] by simp
qed

lemma days_before_next_year:
  "days_before_year (y + 1) = days_before_year y + (if leap_year y then 366 else 365)"
proof -
  define a b c where "a = (y + 3) div 4" and "b = (y + 399) div 400" and "c = (y + 99) div 100"
  define p q r where "p \<longleftrightarrow> y mod 4 = 0" and "q \<longleftrightarrow> y mod 100 = 0" and "r \<longleftrightarrow> y mod 400 = 0"
  have "c \<le> y" unfolding c_def by (cases y) simp_all
  have next_year: "days_before_year (y + 1) =
      365 * (y + 1) + (a + (if p then 1 else 0)) + (b + (if r then 1 else 0)) - (c + (if q then 1 else 0))"
    unfolding days_before_year_def a_def b_def c_def p_def q_def r_def
    by (subst round_up_div [of 3 4], simp, subst round_up_div [of 99 100], simp, subst round_up_div [of 399 400], simp) (rule refl)
  have this_year: "days_before_year y = 365 * y + a + b - c" by (simp only: days_before_year_def a_def b_def c_def)
  have "y mod 400 mod 100 = y mod 100" "y mod 100 mod 4 = y mod 4" by (simp_all add: mod_mod_cancel)
  then have "q \<longrightarrow> p" "r \<longrightarrow> q" unfolding p_def q_def r_def by (metis mod_0)+
  then show ?thesis
    unfolding next_year this_year leap_year_def p_def [symmetric] q_def [symmetric] r_def [symmetric]
    using \<open>c \<le> y\<close> by (cases p; cases q; cases r) simp_all
qed

lemma days_before_year_mono: "y \<le> z \<Longrightarrow> days_before_year y \<le> days_before_year z"
  by (induction z rule: nat_induct_at_least) (use days_before_next_year in auto)


lemma days_in_simps:
  "days_in 1 y = 31" "days_in (Suc 0) y = 31" "days_in 2 y = (if leap_year y then 29 else 28)" "days_in 3 y = 31" "days_in 4 y = 30" "days_in 5 y = 31"
  "days_in 6 y = 30" "days_in 7 y = 31" "days_in 8 y = 31" "days_in 9 y = 30" "days_in 10 y = 31" "days_in 11 y = 30" "days_in 12 y = 31"
  by (simp_all add: days_in_def)

lemma day_of_year_bound:
  assumes "1 \<le> month" "month \<le> 12" "1 \<le> day" "day \<le> days_in month year"
  shows "sum_list (map (\<lambda>m. days_in m year) [1..<month]) + (day - 1) < (if leap_year year then 366 else 365)"
proof -
  have u: "[1..<13] = [1, 2, 3, 4, 5, 6, 7, 8, 9, 10, 11, 12 :: nat]" by code_simp
  have "sum_list (map (\<lambda>m. days_in m year) [1..<13]) = (if leap_year year then 366 else 365)" unfolding u by (simp add: days_in_simps)
  moreover have "[1..<13] = [1..<month] @ month # [Suc month..<13]" using assms(1,2)
    upt_add_eq_append [of 1 month "13 - month"] upt_conv_Cons [of month 13] by simp
  ultimately show ?thesis using assms(3,4) by simp
qed
lemma days_before_range:
  assumes "year \<le> 9999" "1 \<le> month" "month \<le> 12" "1 \<le> day" "day \<le> days_in month year"
  shows "days_before year month day < 3652425"
proof -
  have "days_before year month day < days_before_year (year + 1)"
    using day_of_year_bound [OF assms(2-5)] unfolding days_before_def days_before_next_year by simp
  also have "\<dots> \<le> days_before_year 10000" using assms(1) by (intro days_before_year_mono) simp
  also have "\<dots> = 3652425" by (simp add: days_before_year_def)
  finally show ?thesis .
qed

text \<open>The printed form of a date and time of day in UTC (\<open>Format(time.RFC3339)\<close> without a fraction).\<close>

definition two_digits :: "nat \<Rightarrow> string" where
  "two_digits n = [char_of (48 + n div 10), char_of (48 + n mod 10)]"

definition four_digits :: "nat \<Rightarrow> string" where
  "four_digits n = two_digits (n div 100) @ two_digits (n mod 100)"

definition format_rfc3339 :: "nat \<Rightarrow> nat \<Rightarrow> nat \<Rightarrow> nat \<Rightarrow> nat \<Rightarrow> nat \<Rightarrow> string" where
  "format_rfc3339 year month day hour minute sec =
     four_digits year @ ''-'' @ two_digits month @ ''-'' @ two_digits day @ ''T''
     @ two_digits hour @ '':'' @ two_digits minute @ '':'' @ two_digits sec @ ''Z''"

lemma getnum_two_digits: "n < 100 \<Longrightarrow> getnum fixed (two_digits n @ t) = Some (n, t)"
proof -
  assume "n < 100"
  then have "n div 10 < 10" "n mod 10 < 10" by simp_all
  then show ?thesis by (simp add: getnum_def two_digits_def digit_at_def digit_char byte_digit)
qed

lemma take_year_four_digits: "n < 10000 \<Longrightarrow> take_year (four_digits n @ t) = Some (n, t)"
proof -
  assume "n < 10000"
  then have d: "n div 100 div 10 < 10" "n div 100 mod 10 < 10" "n mod 100 div 10 < 10" "n mod 100 mod 10 < 10" by simp_all
  have "n div 100 div 10 * 10 + n div 100 mod 10 = n div 100" "n mod 100 div 10 * 10 + n mod 100 mod 10 = n mod 100"
    by (simp_all only: div_mult_mod_eq)
  then have "((n div 100 div 10 * 10 + n div 100 mod 10) * 10 + n mod 100 div 10) * 10 + n mod 100 mod 10 = n" by simp
  with d show ?thesis
    by (simp add: take_year_def four_digits_def two_digits_def digit_char digits_value_def byte_digit del: mod_mod_trivial)
qed

lemma skip_char_Cons [simp]: "skip_char c (c # s) = Some s"
  by (simp add: skip_char_def)

lemma take_date_format:
  assumes "year < 10000" "1 \<le> month" "month \<le> 12" "day < 100"
  shows "take_date (four_digits year @ ''-'' @ two_digits month @ ''-'' @ two_digits day @ t) = Some ((year, month, day), t)"
  using assms by (simp add: take_date_def take_year_four_digits getnum_two_digits)

lemma take_clock_format:
  assumes "hour < 24" "minute < 60" "sec < 60"
  shows "take_clock (two_digits hour @ '':'' @ two_digits minute @ '':'' @ two_digits sec @ t) = Some ((hour, minute, sec), t)"
  using assms by (simp add: take_clock_def getnum_two_digits)

text \<open>A printed time is read back as the instant it denotes.\<close>

lemma parse_format_rfc3339:
  assumes "year < 10000" "1 \<le> month" "month \<le> 12" "1 \<le> day" "day \<le> days_in month year"
    and "hour < 24" "minute < 60" "sec < 60"
  shows "parse_rfc3339 (format_rfc3339 year month day hour minute sec) =
    Some (unix_seconds year month day hour minute sec * 1000000000)"
proof -
  have "days_in month year \<le> 31" by (simp add: days_in_def)
  then have "day < 100" using assms(5) by linarith
  moreover have "take_fraction ''Z'' = (0, ''Z'')" "take_zone ''Z'' = Some (0, [])"
    by (simp_all add: take_fraction_def take_zone_def)
  ultimately show ?thesis
    using assms take_date_format [of year month day] take_clock_format [of hour minute sec "''Z''"]
    by (simp add: parse_rfc3339_def format_rfc3339_def)
qed

text \<open>Every instant read lies between year 0 and year 9999, up to the offset of the zone.\<close>

lemma take_clock_range: "take_clock s = Some ((h, m, x), t) \<Longrightarrow> h < 24 \<and> m < 60 \<and> x < 60"
  by (auto simp: take_clock_def split: Option.bind_splits if_splits)

lemma take_date_range: "take_date s = Some ((y, m, d), t) \<Longrightarrow> y \<le> 9999 \<and> 1 \<le> m \<and> m \<le> 12"
proof -
  assume a: "take_date s = Some ((y, m, d), t)"
  then obtain s1 where y: "take_year s = Some (y, s1)" by (auto simp: take_date_def split: Option.bind_splits if_splits)
  have "digits_value (take 4 s) < 10 ^ length (take 4 s)" using y by (intro digits_value_bound) (auto simp: take_year_def split: if_splits)
  moreover have "y = digits_value (take 4 s)" "length (take 4 s) = 4" using y by (auto simp: take_year_def split: if_splits)
  ultimately show ?thesis using a by (auto simp: take_date_def split: Option.bind_splits if_splits)
qed

lemma take_fraction_range: "take_fraction s = (n, t) \<Longrightarrow> n < 1000000000"
proof -
  assume a: "take_fraction s = (n, t)"
  define ds where "ds = take 9 (takeWhile is_digit (tl s))"
  have "list_all is_digit ds" by (auto simp: ds_def list_all_iff dest: in_set_takeD set_takeWhileD)
  then have "digits_value ds < 10 ^ length ds" by (rule digits_value_bound)
  then have "digits_value ds * 10 ^ (9 - length ds) < 10 ^ length ds * 10 ^ (9 - length ds)" by simp
  also have "\<dots> = 10 ^ 9" by (simp add: power_add [symmetric] ds_def)
  finally show ?thesis using a by (auto simp: take_fraction_def ds_def Let_def split: if_splits)
qed

lemma take_zone_range: "take_zone s = Some (z, t) \<Longrightarrow> - 90000 \<le> z \<and> z \<le> 90000"
  by (auto simp: take_zone_def split: if_splits option.splits)

lemma parse_rfc3339_range:
  assumes "parse_rfc3339 s = Some t"
  shows "- 62167309200 * 1000000000 \<le> t \<and> t < 253402390800 * 1000000000"
proof -
  obtain y mo d s1 s2 h mi x s3 n s4 z where d: "take_date s = Some ((y, mo, d), s1)"
    and c: "take_clock s2 = Some ((h, mi, x), s3)" and f: "take_fraction s3 = (n, s4)" and z: "take_zone s4 = Some (z, [])"
    and v: "1 \<le> d" "d \<le> days_in mo y" and t: "t = (unix_seconds y mo d h mi x - z) * 1000000000 + int n"
    using assms by (auto simp: parse_rfc3339_def not_less split: Option.bind_splits if_splits prod.splits)
  have "days_before y mo d < 3652425" using days_before_range take_date_range [OF d] v by simp
  moreover have "h * 3600 + mi * 60 + x < 86400" using take_clock_range [OF c] by simp
  ultimately have "unix_seconds y mo d h mi x < 253402300800" "- 62167219200 \<le> unix_seconds y mo d h mi x"
    by (simp_all add: unix_seconds_def)
  then show ?thesis using take_zone_range [OF z] take_fraction_range [OF f] unfolding t by simp
qed

end
