(* ===== verification/Config.thy ===== *)
theory Config
  imports Go_Url Go_Time
begin

text \<open>
  \<open>config.go\<close>: the settings, read from the environment. The environment is a function that
  gives \<open>[]\<close> for an unset variable, as \<open>os.Getenv\<close> does. \<open>url.Parse\<close> is an argument, whose
  result for the upstream is checked by the code; durations are nanoseconds.
\<close>

section \<open>The settings\<close>

record config =
  ListenAddr :: string
  HTTPListenAddr :: string
  HTTPSListenAddr :: string
  TLSCertFile :: string
  TLSKeyFile :: string
  UpstreamURL :: "url option"
  AuditDatabaseURL :: string
  IdentityDatabaseURL :: string
  IdentityHMACSecret :: string
  IdentityRefresh :: int
  QueueSize :: int
  MaxCaptureBytes :: int
  MaxPromptBytes :: int
  AdminToken :: string
  AdminUsername :: string
  AdminPassword :: string
  AdminSessionTTL :: int
  AllowUnknownIdentity :: bool
  CaptureEmptyPrompts :: bool
  CapturePrefixes :: "string list"
  AuditRetentionDays :: int
  EnableWebSocket :: bool
  ShutdownTimeout :: int

type_synonym environment = "string \<Rightarrow> string"

type_synonym url_parser = "string \<Rightarrow> url option"

abbreviation seconds :: "int \<Rightarrow> int" where
  "seconds n \<equiv> n * 1000000000"

section \<open>Reading one variable\<close>

definition envString :: "environment \<Rightarrow> string \<Rightarrow> string \<Rightarrow> string" where
  "envString env key fallback =
     (let value = trim_space (env key) in if value \<noteq> [] then value else fallback)"

definition envInt :: "environment \<Rightarrow> string \<Rightarrow> int \<Rightarrow> int" where
  "envInt env key fallback =
     (case parse_int64 (trim_space (env key)) of
        None \<Rightarrow> fallback
      | Some value \<Rightarrow> if value = 0 then fallback else value)"

definition envInt64 :: "environment \<Rightarrow> string \<Rightarrow> int \<Rightarrow> int" where
  "envInt64 env key fallback =
     (case parse_int64 (trim_space (env key)) of
        None \<Rightarrow> fallback
      | Some value \<Rightarrow> if value = 0 then fallback else value)"

text \<open>\<open>strconv.ParseBool\<close>.\<close>

definition parse_bool :: "string \<Rightarrow> bool option" where
  "parse_bool s =
     (if List.member [''1'', ''t'', ''T'', ''TRUE'', ''true'', ''True''] s then Some True
      else if List.member [''0'', ''f'', ''F'', ''FALSE'', ''false'', ''False''] s then Some False
      else None)"

definition envBool :: "environment \<Rightarrow> string \<Rightarrow> bool \<Rightarrow> bool" where
  "envBool env key fallback =
     (let value = trim_space (env key)
      in if value = [] then fallback
         else case parse_bool value of None \<Rightarrow> fallback | Some parsed \<Rightarrow> parsed)"

definition envDuration :: "environment \<Rightarrow> string \<Rightarrow> int \<Rightarrow> int" where
  "envDuration env key fallback =
     (let value = trim_space (env key)
      in if value = [] then fallback
         else case parse_duration value of
                None \<Rightarrow> fallback
              | Some parsed \<Rightarrow> if parsed \<le> 0 then fallback else parsed)"

definition splitCSV :: "string \<Rightarrow> string list" where
  "splitCSV value = filter (\<lambda>part. part \<noteq> []) (map trim_space (split_on (CHR '','') value))"

section \<open>LoadConfig\<close>

text \<open>The composite literal of \<open>LoadConfig\<close>, before the checks.\<close>

definition read_config :: "environment \<Rightarrow> config" where
  "read_config env =
     (let httpListenAddr0 = trim_space (env ''PROMPT_AUDIT_HTTP_ADDR'');
          httpListenAddr = (if httpListenAddr0 = [] then envString env ''PROMPT_AUDIT_LISTEN_ADDR'' '':8090''
                            else httpListenAddr0)
      in \<lparr>ListenAddr = httpListenAddr,
          HTTPListenAddr = httpListenAddr,
          HTTPSListenAddr = trim_space (env ''PROMPT_AUDIT_HTTPS_ADDR''),
          TLSCertFile = trim_space (env ''PROMPT_AUDIT_TLS_CERT_FILE''),
          TLSKeyFile = trim_space (env ''PROMPT_AUDIT_TLS_KEY_FILE''),
          UpstreamURL = None,
          AuditDatabaseURL = trim_space (env ''PROMPT_AUDIT_DATABASE_URL''),
          IdentityDatabaseURL = trim_space (env ''PROMPT_AUDIT_IDENTITY_DATABASE_URL''),
          IdentityHMACSecret = trim_space (env ''PROMPT_AUDIT_IDENTITY_HMAC_SECRET''),
          IdentityRefresh = envDuration env ''PROMPT_AUDIT_IDENTITY_REFRESH'' (seconds 30),
          QueueSize = envInt env ''PROMPT_AUDIT_QUEUE_SIZE'' 2048,
          MaxCaptureBytes = envInt64 env ''PROMPT_AUDIT_MAX_CAPTURE_BYTES'' 1048576,
          MaxPromptBytes = envInt env ''PROMPT_AUDIT_MAX_PROMPT_BYTES'' 1048576,
          AdminToken = trim_space (env ''PROMPT_AUDIT_ADMIN_TOKEN''),
          AdminUsername = envString env ''PROMPT_AUDIT_ADMIN_USERNAME'' ''admin'',
          AdminPassword = env ''PROMPT_AUDIT_ADMIN_PASSWORD'',
          AdminSessionTTL = envDuration env ''PROMPT_AUDIT_ADMIN_SESSION_TTL'' (seconds 43200),
          AllowUnknownIdentity = envBool env ''PROMPT_AUDIT_CAPTURE_UNKNOWN_IDENTITY'' False,
          CaptureEmptyPrompts = envBool env ''PROMPT_AUDIT_CAPTURE_EMPTY_PROMPTS'' False,
          CapturePrefixes = splitCSV (envString env ''PROMPT_AUDIT_CAPTURE_PREFIXES'' ''/v1,/v1beta''),
          AuditRetentionDays = envInt env ''PROMPT_AUDIT_RETENTION_DAYS'' 0,
          EnableWebSocket = envBool env ''PROMPT_AUDIT_WEBSOCKET'' True,
          ShutdownTimeout = envDuration env ''PROMPT_AUDIT_SHUTDOWN_TIMEOUT'' (seconds 10)\<rparr>)"

text \<open>The runes the user name may not have: slash, backslash, colon, space, tab, CR and LF.\<close>

definition bad_username_rune :: "nat \<Rightarrow> bool" where
  "bad_username_rune r \<longleftrightarrow> List.member [47, 92, 58, 32, 9, 13, 10] r"

definition bad_username :: "string \<Rightarrow> bool" where
  "bad_username u \<longleftrightarrow> trim_space u = [] \<or> 64 < length u \<or> list_ex bad_username_rune (runes u)"

text \<open>
  The checks of the settings read so far, in the order of the code; \<open>Some\<close> is the message of
  the error returned.
\<close>

definition config_error :: "config \<Rightarrow> string option" where
  "config_error c =
     (if AuditDatabaseURL c = [] then Some ''PROMPT_AUDIT_DATABASE_URL is required''
      else if QueueSize c < 1 then Some ''PROMPT_AUDIT_QUEUE_SIZE must be positive''
      else if MaxCaptureBytes c < 1024 then Some ''PROMPT_AUDIT_MAX_CAPTURE_BYTES must be at least 1024''
      else if MaxPromptBytes c < 256 then Some ''PROMPT_AUDIT_MAX_PROMPT_BYTES must be at least 256''
      else if AuditRetentionDays c < 0 then Some ''PROMPT_AUDIT_RETENTION_DAYS cannot be negative''
      else if HTTPListenAddr c = [] \<and> HTTPSListenAddr c = []
        then Some ''at least one of PROMPT_AUDIT_HTTP_ADDR or PROMPT_AUDIT_HTTPS_ADDR is required''
      else if (TLSCertFile c = []) \<noteq> (TLSKeyFile c = [])
        then Some ''PROMPT_AUDIT_TLS_CERT_FILE and PROMPT_AUDIT_TLS_KEY_FILE must be configured together''
      else if HTTPSListenAddr c \<noteq> [] \<and> (TLSCertFile c = [] \<or> TLSKeyFile c = [])
        then Some ''TLS certificate and key are required when PROMPT_AUDIT_HTTPS_ADDR is configured''
      else if bad_username (AdminUsername c)
        then Some ''PROMPT_AUDIT_ADMIN_USERNAME must be 1-64 characters without whitespace or path separators''
      else if AdminPassword c \<noteq> [] \<and> length (AdminPassword c) < 12
        then Some ''PROMPT_AUDIT_ADMIN_PASSWORD must be at least 12 bytes when configured''
      else if AdminPassword c \<noteq> [] \<and> list_ex (\<lambda>b. byte b = 13 \<or> byte b = 10) (AdminPassword c)
        then Some ''PROMPT_AUDIT_ADMIN_PASSWORD cannot contain newlines''
      else if IdentityDatabaseURL c \<noteq> [] \<and> IdentityHMACSecret c = []
        then Some ''PROMPT_AUDIT_IDENTITY_HMAC_SECRET is required when identity database is configured''
      else None)"

definition LoadConfig :: "url_parser \<Rightarrow> environment \<Rightarrow> string + config" where
  "LoadConfig url_parse env =
     (let c = read_config env
      in case config_error c of
           Some e \<Rightarrow> Inl e
         | None \<Rightarrow>
             let upstreamRaw = trim_space (env ''PROMPT_AUDIT_UPSTREAM_URL'')
             in if upstreamRaw = [] then Inl ''PROMPT_AUDIT_UPSTREAM_URL is required''
                else case url_parse upstreamRaw of
                       None \<Rightarrow> Inl ''PROMPT_AUDIT_UPSTREAM_URL must be an absolute http(s) URL''
                     | Some upstream \<Rightarrow>
                         if url_Host upstream = []
                            \<or> url_Scheme upstream \<noteq> ''http'' \<and> url_Scheme upstream \<noteq> ''https''
                         then Inl ''PROMPT_AUDIT_UPSTREAM_URL must be an absolute http(s) URL''
                         else if CapturePrefixes c = [] then Inl ''PROMPT_AUDIT_CAPTURE_PREFIXES cannot be empty''
                         else Inr (c\<lparr>UpstreamURL := Some upstream\<rparr>))"

section \<open>What a loaded configuration guarantees\<close>

definition http_url :: "url \<Rightarrow> bool" where
  "http_url u \<longleftrightarrow> url_Host u \<noteq> [] \<and> (url_Scheme u = ''http'' \<or> url_Scheme u = ''https'')"

text \<open>The numeric limits the other components rely on.\<close>

definition limits_ok :: "config \<Rightarrow> bool" where
  "limits_ok c \<longleftrightarrow>
     1 \<le> QueueSize c \<and> 1024 \<le> MaxCaptureBytes c \<and> MaxCaptureBytes c \<le> 2 ^ 63 - 1
     \<and> 256 \<le> MaxPromptBytes c \<and> 0 \<le> AuditRetentionDays c
     \<and> 0 < IdentityRefresh c \<and> 0 < AdminSessionTTL c \<and> 0 < ShutdownTimeout c"

text \<open>The listeners: at least one, HTTPS only with a certificate and a key.\<close>

definition listeners_ok :: "config \<Rightarrow> bool" where
  "listeners_ok c \<longleftrightarrow>
     (HTTPListenAddr c \<noteq> [] \<or> HTTPSListenAddr c \<noteq> []) \<and> ListenAddr c = HTTPListenAddr c
     \<and> (TLSCertFile c = [] \<longleftrightarrow> TLSKeyFile c = [])
     \<and> (HTTPSListenAddr c \<noteq> [] \<longrightarrow> TLSCertFile c \<noteq> [])"

text \<open>The credentials: no empty secret for a configured identity database, a usable account.\<close>

definition credentials_ok :: "config \<Rightarrow> bool" where
  "credentials_ok c \<longleftrightarrow>
     (IdentityDatabaseURL c \<noteq> [] \<longrightarrow> IdentityHMACSecret c \<noteq> [])
     \<and> \<not> bad_username (AdminUsername c)
     \<and> (AdminPassword c = [] \<or> 12 \<le> length (AdminPassword c))"

lemma envDuration_pos: "0 < fallback \<Longrightarrow> 0 < envDuration env key fallback"
  by (auto simp: envDuration_def Let_def split: option.split)

lemma envString_nonempty: "fallback \<noteq> [] \<Longrightarrow> envString env key fallback \<noteq> []"
  by (simp add: envString_def Let_def)

lemma envInt64_range: "- (2 ^ 63) \<le> d \<Longrightarrow> d \<le> 2 ^ 63 - 1 \<Longrightarrow>
    - (2 ^ 63) \<le> envInt64 env key d \<and> envInt64 env key d \<le> 2 ^ 63 - 1"
  by (auto simp: envInt64_def split: option.split dest: parse_int64_range)

lemma splitCSV_trimmed: "p \<in> set (splitCSV s) \<Longrightarrow> p \<noteq> [] \<and> (\<exists>q. p = trim_space q)"
  by (auto simp: splitCSV_def)

lemma LoadConfig_InrD:
  assumes "LoadConfig url_parse env = Inr c"
  shows "\<exists>u. c = (read_config env)\<lparr>UpstreamURL := Some u\<rparr> \<and> config_error (read_config env) = None
    \<and> http_url u \<and> CapturePrefixes c \<noteq> []"
  using assms by (auto simp: LoadConfig_def Let_def http_url_def split: option.splits if_splits)

lemmas config_errors = config_error_def not_less

lemma read_config_durations:
  "0 < IdentityRefresh (read_config env)" "0 < AdminSessionTTL (read_config env)"
  "0 < ShutdownTimeout (read_config env)" "MaxCaptureBytes (read_config env) \<le> 2 ^ 63 - 1"
  using envInt64_range [of 1048576 env "''PROMPT_AUDIT_MAX_CAPTURE_BYTES''"]
  by (simp_all add: read_config_def Let_def envDuration_pos)

lemma read_config_listen:
  "HTTPListenAddr (read_config env) \<noteq> []" "ListenAddr (read_config env) = HTTPListenAddr (read_config env)"
  by (simp_all add: read_config_def Let_def envString_nonempty)

lemma env_reads_back:
  "0 < n \<Longrightarrow> n < 2 ^ 63 \<Longrightarrow> env key = itoa n \<Longrightarrow> envInt env key d = int n"
  "0 < n \<Longrightarrow> n < 2 ^ 63 \<Longrightarrow> env key = itoa n \<Longrightarrow> envInt64 env key d = int n"
  "0 < n \<Longrightarrow> int n * 1000000000 < 2 ^ 63 \<Longrightarrow> env key = itoa n @ ''s'' \<Longrightarrow> envDuration env key d = seconds (int n)"
  by (simp_all add: envInt_def envInt64_def envDuration_def trim_itoa parse_int64_itoa parse_duration_seconds)

lemma read_config_numbers:
  "QueueSize (read_config env) = envInt env ''PROMPT_AUDIT_QUEUE_SIZE'' 2048"
  "MaxCaptureBytes (read_config env) = envInt64 env ''PROMPT_AUDIT_MAX_CAPTURE_BYTES'' 1048576"
  "MaxPromptBytes (read_config env) = envInt env ''PROMPT_AUDIT_MAX_PROMPT_BYTES'' 1048576"
  "AuditRetentionDays (read_config env) = envInt env ''PROMPT_AUDIT_RETENTION_DAYS'' 0"
  "IdentityRefresh (read_config env) = envDuration env ''PROMPT_AUDIT_IDENTITY_REFRESH'' (seconds 30)"
  "AdminSessionTTL (read_config env) = envDuration env ''PROMPT_AUDIT_ADMIN_SESSION_TTL'' (seconds 43200)"
  "ShutdownTimeout (read_config env) = envDuration env ''PROMPT_AUDIT_SHUTDOWN_TIMEOUT'' (seconds 10)"
  by (simp_all add: read_config_def Let_def)

section \<open>Properties\<close>

text \<open>
  C31. Every configuration that \<open>LoadConfig\<close> accepts satisfies the limits, the listener rules and
  the credential rules the rest of the sidecar relies on: a queue of at least one slot, a capture
  limit that fits 64 bits, positive intervals, at least one listener, on the addresses that are
  set, HTTPS only with a certificate, a secret for every identity database, an absolute http(s)
  upstream and at least one non-empty capture prefix.
\<close>

theorem loaded_config_valid:
  assumes "LoadConfig url_parse env = Inr c"
  shows "limits_ok c \<and> listeners_ok c \<and> credentials_ok c \<and> AuditDatabaseURL c \<noteq> []
    \<and> (\<exists>u. UpstreamURL c = Some u \<and> http_url u)
    \<and> CapturePrefixes c \<noteq> [] \<and> [] \<notin> set (CapturePrefixes c)
    \<and> HTTPSListenAddr c = trim_space (env ''PROMPT_AUDIT_HTTPS_ADDR'')
    \<and> (trim_space (env ''PROMPT_AUDIT_HTTP_ADDR'') \<noteq> [] \<longrightarrow> HTTPListenAddr c = trim_space (env ''PROMPT_AUDIT_HTTP_ADDR''))"
proof -
  let ?c = "read_config env"
  obtain u where c: "c = ?c\<lparr>UpstreamURL := Some u\<rparr>" and ok: "config_error ?c = None"
    and u: "http_url u" and p: "CapturePrefixes c \<noteq> []"
    using LoadConfig_InrD [OF assms] by auto
  have "[] \<notin> set (CapturePrefixes ?c)"
    using splitCSV_trimmed by (fastforce simp: read_config_def Let_def)
  moreover have "limits_ok c"
    using ok read_config_durations [of env]
    by (auto simp: c limits_ok_def config_errors split: if_splits)
  moreover have "listeners_ok c" "credentials_ok c"
    using ok read_config_listen [of env]
    by (auto simp: c listeners_ok_def credentials_ok_def config_errors split: if_splits)
  moreover have "HTTPSListenAddr c = trim_space (env ''PROMPT_AUDIT_HTTPS_ADDR'')"
    "trim_space (env ''PROMPT_AUDIT_HTTP_ADDR'') \<noteq> [] \<longrightarrow> HTTPListenAddr c = trim_space (env ''PROMPT_AUDIT_HTTP_ADDR'')"
    by (auto simp: c read_config_def Let_def envString_def)
  ultimately show ?thesis
    using ok u p by (auto simp: c config_errors split: if_splits)
qed

definition sample_env :: environment where
  "sample_env = (\<lambda>_. [])(''PROMPT_AUDIT_DATABASE_URL'' := ''postgres://db'',
                         ''PROMPT_AUDIT_UPSTREAM_URL'' := ''http://up'')"

definition sample_url :: url where
  "sample_url = empty_url\<lparr>url_Scheme := ''http'', url_Host := ''up''\<rparr>"

definition sample_parser :: url_parser where
  "sample_parser s = (if s = ''http://up'' then Some sample_url else None)"

definition sample_config :: config where
  "sample_config = (read_config sample_env)\<lparr>UpstreamURL := Some sample_url\<rparr>"

lemma sample_loads: "LoadConfig sample_parser sample_env = Inr sample_config"
  by (simp add: sample_config_def) code_simp

theorem loaded_config_valid_witness:
  "LoadConfig sample_parser sample_env = Inr sample_config \<and> limits_ok sample_config \<and> listeners_ok sample_config"
  using loaded_config_valid [OF sample_loads] sample_loads by blast

text \<open>
  An accepted configuration always has an HTTP listener: an empty
  \<open>PROMPT_AUDIT_HTTP_ADDR\<close> does not turn it off, it selects the fallback address.
\<close>

theorem empty_http_addr_falls_back:
  assumes "LoadConfig url_parse env = Inr c" and "trim_space (env ''PROMPT_AUDIT_HTTP_ADDR'') = []"
  shows "HTTPListenAddr c =
    (if trim_space (env ''PROMPT_AUDIT_LISTEN_ADDR'') = [] then '':8090''
     else trim_space (env ''PROMPT_AUDIT_LISTEN_ADDR''))"
  using LoadConfig_InrD [OF assms(1)] assms(2)
  by (auto simp: read_config_def Let_def envString_def)

theorem empty_http_addr_falls_back_witness:
  "HTTPListenAddr sample_config = '':8090''"
  using empty_http_addr_falls_back [OF sample_loads] by (simp add: sample_env_def)

text \<open>
  C32. The settings are read as they are written: a positive number of records, bytes or days that
  fits 64 bits, and a positive number of seconds written with its unit that fits a duration, are
  the values of the configuration, exactly.
\<close>

theorem settings_read_back:
  assumes "LoadConfig url_parse env = Inr c"
    and "\<forall>n \<in> {queue, capture, prompt, days}. 0 < n \<and> n < 2 ^ 63"
    and "\<forall>t \<in> {refresh, ttl, timeout}. 0 < t \<and> int t * 1000000000 < 2 ^ 63"
    and "env ''PROMPT_AUDIT_QUEUE_SIZE'' = itoa queue" and "env ''PROMPT_AUDIT_MAX_CAPTURE_BYTES'' = itoa capture"
    and "env ''PROMPT_AUDIT_MAX_PROMPT_BYTES'' = itoa prompt" and "env ''PROMPT_AUDIT_RETENTION_DAYS'' = itoa days"
    and "env ''PROMPT_AUDIT_IDENTITY_REFRESH'' = itoa refresh @ ''s''"
    and "env ''PROMPT_AUDIT_ADMIN_SESSION_TTL'' = itoa ttl @ ''s''"
    and "env ''PROMPT_AUDIT_SHUTDOWN_TIMEOUT'' = itoa timeout @ ''s''"
  shows "QueueSize c = int queue \<and> MaxCaptureBytes c = int capture \<and> MaxPromptBytes c = int prompt
    \<and> AuditRetentionDays c = int days \<and> IdentityRefresh c = seconds (int refresh)
    \<and> AdminSessionTTL c = seconds (int ttl) \<and> ShutdownTimeout c = seconds (int timeout)"
proof -
  obtain u where c: "c = (read_config env)\<lparr>UpstreamURL := Some u\<rparr>" using LoadConfig_InrD [OF assms(1)] by blast
  have "0 < queue" "queue < 2 ^ 63" "0 < capture" "capture < 2 ^ 63" "0 < prompt" "prompt < 2 ^ 63" "0 < days" "days < 2 ^ 63"
    "0 < refresh" "int refresh * 1000000000 < 2 ^ 63" "0 < ttl" "int ttl * 1000000000 < 2 ^ 63"
    "0 < timeout" "int timeout * 1000000000 < 2 ^ 63" using assms(2,3) by simp_all
  then show ?thesis
    unfolding c
    using env_reads_back(1) [where env = env, OF _ _ assms(4)] env_reads_back(2) [where env = env, OF _ _ assms(5)] env_reads_back(1) [where env = env, OF _ _ assms(6)]
      env_reads_back(1) [where env = env, OF _ _ assms(7)] env_reads_back(3) [where env = env, OF _ _ assms(8)] env_reads_back(3) [where env = env, OF _ _ assms(9)]
      env_reads_back(3) [where env = env, OF _ _ assms(10)]
    by (simp add: read_config_numbers)
qed

definition printed_env :: environment where
  "printed_env = sample_env(''PROMPT_AUDIT_QUEUE_SIZE'' := itoa 16, ''PROMPT_AUDIT_MAX_CAPTURE_BYTES'' := itoa 4096,
     ''PROMPT_AUDIT_MAX_PROMPT_BYTES'' := itoa 512, ''PROMPT_AUDIT_RETENTION_DAYS'' := itoa 30,
     ''PROMPT_AUDIT_IDENTITY_REFRESH'' := itoa 5 @ ''s'', ''PROMPT_AUDIT_ADMIN_SESSION_TTL'' := itoa 3600 @ ''s'',
     ''PROMPT_AUDIT_SHUTDOWN_TIMEOUT'' := itoa 20 @ ''s'')"

theorem settings_read_back_witness:
  "\<exists>c. LoadConfig sample_parser printed_env = Inr c \<and> QueueSize c = 16 \<and> ShutdownTimeout c = seconds 20"
proof -
  have "isl (LoadConfig sample_parser printed_env) \<longleftrightarrow> False" by code_simp
  then obtain c where "LoadConfig sample_parser printed_env = Inr c" by (cases "LoadConfig sample_parser printed_env") auto
  then show ?thesis
    using settings_read_back [of sample_parser printed_env c 16 4096 512 30 5 3600 20]
    by (simp add: printed_env_def)
qed

end
