(* ===== verification/Identity.thy ===== *)
theory Identity
  imports Model Config
begin

text \<open>
  \<open>identity.go\<close>: the directory that maps HMAC fingerprints of API keys to users, its refresh
  from the sub2api database and the lookups. What a query of that database returns is an input:
  a list of rows, possibly cut short by an error.
\<close>

section \<open>State and data\<close>

text \<open>\<open>refresh\<close> is the interval in nanoseconds; \<open>has_db\<close> says whether \<open>db\<close> is set.\<close>

record resolver =
  has_db :: bool
  secret :: string
  refresh :: int
  entries :: "string \<rightharpoonup> identity"

record key_row =
  kr_key :: string
  kr_id :: int
  kr_user_id :: int
  kr_name :: string
  kr_username :: string
  kr_email :: string

text \<open>
  The answer to a row query: refused, or rows of which each may fail to scan (\<open>None\<close>), and
  whether \<open>rows.Err()\<close> reports an error after the last one.
\<close>

datatype rows_answer = QueryError | Rows "key_row option list" bool

definition hmacFingerprint :: "string \<Rightarrow> string \<Rightarrow> string" where
  "hmacFingerprint sec value = hex_encode (hmac_sha256 sec value)"

definition unknown_identity :: identity where
  "unknown_identity = zero_identity\<lparr>IdentitySource := ''unknown''\<rparr>"

section \<open>Refresh\<close>

definition directory_entry :: "key_row \<Rightarrow> identity" where
  "directory_entry row =
     \<lparr>UserID = Some (kr_user_id row), Username = kr_username row, Email = kr_email row,
      APIKeyID = Some (kr_id row), APIKeyName = kr_name row, IdentitySource = ''api_key_map''\<rparr>"

text \<open>The loop over \<open>rows.Next()\<close>; \<open>None\<close> when a row does not scan.\<close>

fun scan_rows :: "string \<Rightarrow> key_row option list \<Rightarrow> (string \<rightharpoonup> identity) \<Rightarrow> (string \<rightharpoonup> identity) option" where
  "scan_rows sec [] next = Some next"
| "scan_rows sec (None # rows) next = None"
| "scan_rows sec (Some row # rows) next =
     scan_rows sec rows (next(hmacFingerprint sec (kr_key row) \<mapsto> directory_entry row))"

text \<open>
  \<open>Refresh\<close>: the first query, the fallback without the username column when it is refused, and
  the new directory only when all rows were read. The result is the error flag and the resolver.
\<close>

definition Refresh :: "resolver option \<Rightarrow> rows_answer \<Rightarrow> rows_answer \<Rightarrow> bool \<times> resolver option" where
  "Refresh r answer fallback =
     (case r of
        None \<Rightarrow> (False, r)
      | Some s \<Rightarrow>
          if \<not> has_db s then (False, r)
          else case (case answer of QueryError \<Rightarrow> fallback | Rows _ _ \<Rightarrow> answer) of
                 QueryError \<Rightarrow> (True, r)
               | Rows rows failed \<Rightarrow>
                   (case scan_rows (secret s) rows Map.empty of
                      None \<Rightarrow> (True, r)
                    | Some next \<Rightarrow>
                        if failed then (True, r)
                        else (False, Some (s\<lparr>entries := next\<rparr>))))"

section \<open>Construction\<close>

text \<open>
  \<open>NewIdentityResolver\<close>: besides the configuration, the arguments are whether \<open>sql.Open\<close>
  succeeds and the answers to the first refresh. \<open>None\<close> is the error result.
\<close>

definition NewIdentityResolver ::
    "config \<Rightarrow> bool \<Rightarrow> rows_answer \<Rightarrow> rows_answer \<Rightarrow> resolver option" where
  "NewIdentityResolver cfg open_ok answer fallback =
     (let refreshInterval = (if IdentityRefresh cfg \<le> 0 then seconds 30 else IdentityRefresh cfg);
          r = \<lparr>has_db = False, secret = IdentityHMACSecret cfg, refresh = refreshInterval, entries = Map.empty\<rparr>
      in if blank (IdentityDatabaseURL cfg) then Some r
         else if \<not> open_ok then None
         else snd (Refresh (Some (r\<lparr>has_db := True\<rparr>)) answer fallback))"

text \<open>
  \<open>Start\<close>: the goroutine refreshes at every tick until the context is done. A run of it is the
  list of the answers at its ticks.
\<close>

fun refresh_ticks :: "resolver option \<Rightarrow> (rows_answer \<times> rows_answer) list \<Rightarrow> resolver option" where
  "refresh_ticks r [] = r"
| "refresh_ticks r ((answer, fallback) # ticks) = refresh_ticks (snd (Refresh r answer fallback)) ticks"

definition Start :: "resolver option \<Rightarrow> (rows_answer \<times> rows_answer) list \<Rightarrow> resolver option" where
  "Start r ticks =
     (case r of None \<Rightarrow> r | Some s \<Rightarrow> if \<not> has_db s then r else refresh_ticks r ticks)"

text \<open>\<open>Close\<close>: the argument is the result of closing the database handle.\<close>

definition Close_resolver :: "resolver option \<Rightarrow> string option \<Rightarrow> string option" where
  "Close_resolver r close_db =
     (case r of None \<Rightarrow> None | Some s \<Rightarrow> if \<not> has_db s then None else close_db)"

section \<open>Lookups\<close>

definition Lookup :: "resolver option \<Rightarrow> string \<Rightarrow> identity" where
  "Lookup r apiKey =
     (case r of
        None \<Rightarrow> unknown_identity
      | Some s \<Rightarrow>
          if blank apiKey then unknown_identity
          else (case entries s (hmacFingerprint (secret s) apiKey) of
                  None \<Rightarrow> unknown_identity
                | Some i \<Rightarrow> i))"

text \<open>The row of the usage log, when the query returns one and it scans.\<close>

record usage_row =
  ur_user_id :: int
  ur_username :: string
  ur_email :: string
  ur_key_id :: int

definition ResolveRequestID :: "resolver option \<Rightarrow> (string \<Rightarrow> usage_row option) \<Rightarrow> string \<Rightarrow> identity option" where
  "ResolveRequestID r usage_log requestID =
     (case r of
        None \<Rightarrow> None
      | Some s \<Rightarrow>
          if \<not> has_db s \<or> blank requestID then None
          else map_option (\<lambda>row.
                 \<lparr>UserID = Some (ur_user_id row), Username = ur_username row, Email = ur_email row,
                  APIKeyID = Some (ur_key_id row), APIKeyName = [], IdentitySource = ''usage_log''\<rparr>)
               (usage_log requestID))"

definition bearer_of :: "string \<Rightarrow> string" where
  "bearer_of authorization =
     (case split_space_2 authorization of
        [scheme, rest] \<Rightarrow> if equal_fold scheme ''Bearer'' then trim_space rest else []
      | _ \<Rightarrow> [])"

definition extractAPIKey :: "header \<Rightarrow> string" where
  "extractAPIKey h =
     (let authorization = trim_space (header_get h ''Authorization'');
          key = (if authorization \<noteq> [] then bearer_of authorization else []);
          x = trim_space (header_get h ''x-api-key'');
          g = trim_space (header_get h ''x-goog-api-key'')
      in if key \<noteq> [] then key else if x \<noteq> [] then x else g)"

section \<open>The directory as a map from keys\<close>

text \<open>The last row of a key counts, as the later assignment to the Go map wins.\<close>

definition directory_of :: "key_row list \<Rightarrow> string \<Rightarrow> identity option" where
  "directory_of rows k = map_option directory_entry (find (\<lambda>row. kr_key row = k) (rev rows))"

lemma scan_rows_Some_iff:
  "scan_rows sec rows m = Some next \<Longrightarrow> \<exists>rs. rows = map Some rs"
proof (induction rows arbitrary: m)
  case (Cons r rows)
  then obtain row where "r = Some row" by (cases r) auto
  with Cons.prems have "scan_rows sec rows (m(hmacFingerprint sec (kr_key row) \<mapsto> directory_entry row)) = Some next"
    by (simp only: scan_rows.simps)
  then obtain rs where "rows = map Some rs" using Cons.IH by blast
  with \<open>r = Some row\<close> show ?case by (intro exI [of _ "row # rs"]) simp
qed simp

lemma scan_rows_lookup:
  assumes "inj_on (hmacFingerprint sec) (insert k (kr_key ` set rs))"
  shows "\<exists>next. scan_rows sec (map Some rs) m = Some next \<and>
    next (hmacFingerprint sec k) =
      (case directory_of rs k of Some i \<Rightarrow> Some i | None \<Rightarrow> m (hmacFingerprint sec k))"
  using assms
proof (induction rs arbitrary: m)
  case Nil
  then show ?case by (simp add: directory_of_def)
next
  case (Cons row rs)
  let ?m = "m(hmacFingerprint sec (kr_key row) \<mapsto> directory_entry row)"
  have "inj_on (hmacFingerprint sec) (insert k (kr_key ` set rs))"
    using Cons.prems by (rule inj_on_subset) auto
  from Cons.IH [OF this, of ?m] obtain nxt where n: "scan_rows sec (map Some rs) ?m = Some nxt"
    "nxt (hmacFingerprint sec k) =
      (case directory_of rs k of Some i \<Rightarrow> Some i | None \<Rightarrow> ?m (hmacFingerprint sec k))" by blast
  have "hmacFingerprint sec k = hmacFingerprint sec (kr_key row) \<longleftrightarrow> k = kr_key row"
    using Cons.prems by (auto simp: inj_on_def)
  then have "directory_of (row # rs) k =
      (case directory_of rs k of Some i \<Rightarrow> Some i | None \<Rightarrow> if kr_key row = k then Some (directory_entry row) else None)"
    by (auto simp: directory_of_def find_append split: option.split)
  with n show ?case
    using \<open>_ \<longleftrightarrow> _\<close> by (auto split: option.split)
qed

text \<open>What the two queries of \<open>Refresh\<close> amount to: the rows that were read, or a failure.\<close>

definition refresh_rows :: "rows_answer \<Rightarrow> rows_answer \<Rightarrow> key_row list option" where
  "refresh_rows answer fallback =
     (case (case answer of QueryError \<Rightarrow> fallback | Rows _ _ \<Rightarrow> answer) of
        QueryError \<Rightarrow> None
      | Rows rows failed \<Rightarrow> if failed \<or> None \<in> set rows then None else Some (map the rows))"

lemma scan_rows_None_iff: "scan_rows sec rows m = None \<longleftrightarrow> None \<in> set rows"
  by (induction sec rows m rule: scan_rows.induct) (auto simp del: fun_upd_apply)

lemma Refresh_fails:
  "refresh_rows answer fallback = None \<Longrightarrow> has_db s \<Longrightarrow> Refresh (Some s) answer fallback = (True, Some s)"
  by (auto simp: refresh_rows_def Refresh_def scan_rows_None_iff
      split: rows_answer.splits option.splits if_splits)

lemma Refresh_succeeds:
  assumes "refresh_rows answer fallback = Some rs" and "has_db s"
  shows "\<exists>m. scan_rows (secret s) (map Some rs) Map.empty = Some m
    \<and> Refresh (Some s) answer fallback = (False, Some (s\<lparr>entries := m\<rparr>))"
proof -
  obtain rows where rows: "(case answer of QueryError \<Rightarrow> fallback | Rows _ _ \<Rightarrow> answer) = Rows rows False"
    "None \<notin> set rows" "rs = map the rows"
    using assms(1) by (auto simp: refresh_rows_def split: rows_answer.splits if_splits)
  have "(Some \<circ> the) x = x" if "x \<in> set rows" for x
    using rows(2) that by (cases x) auto
  then have "map (Some \<circ> the) rows = rows" by (rule map_idI)
  then have eq: "map Some rs = rows" using rows(3) by simp
  obtain m where m: "scan_rows (secret s) rows Map.empty = Some m"
    using rows(2) scan_rows_None_iff [of "secret s" rows Map.empty] by fastforce
  show ?thesis
    unfolding eq by (rule exI [of _ m]) (simp add: m Refresh_def rows(1) assms(2))
qed

lemma refresh_ticks_append: "refresh_ticks r (xs @ ys) = refresh_ticks (refresh_ticks r xs) ys"
  by (induction r xs rule: refresh_ticks.induct) auto

lemma Refresh_has_db: "snd (Refresh (Some s) a f) = Some s' \<Longrightarrow> has_db s' = has_db s"
  by (auto simp: Refresh_def split: rows_answer.splits option.splits if_splits)

lemma refresh_ticks_failing:
  "has_db s \<Longrightarrow> \<forall>(a, f) \<in> set ticks. refresh_rows a f = None \<Longrightarrow> refresh_ticks (Some s) ticks = Some s"
  by (induction ticks) (auto simp: Refresh_fails)

lemma Refresh_Some: "\<exists>s'. snd (Refresh (Some s) a f) = Some s'"
  by (auto simp: Refresh_def split: rows_answer.splits option.splits)

lemma refresh_ticks_Some: "\<exists>s'. refresh_ticks (Some s) ticks = Some s' \<and> has_db s' = has_db s"
proof (induction ticks arbitrary: s)
  case (Cons t ticks)
  obtain a f where t: "t = (a, f)" by (cases t)
  obtain s1 where s1: "snd (Refresh (Some s) a f) = Some s1" using Refresh_Some by blast
  then have "has_db s1 = has_db s" by (rule Refresh_has_db)
  with Cons.IH [of s1] s1 t show ?case by simp
qed simp

section \<open>Properties\<close>

text \<open>
  C28. A successful refresh replaces the directory as a whole: afterwards the lookup of a
  non-blank key gives the entry of the last row with that key and the unknown identity when no
  row has it, whatever the directory held before. The hypothesis on fingerprints is the
  collision freedom of HMAC-SHA256 on the keys at hand.
\<close>

theorem refresh_then_lookup:
  assumes "has_db s" and "refresh_rows answer fallback = Some rs" and "\<not> blank k"
    and "inj_on (hmacFingerprint (secret s)) (insert k (kr_key ` set rs))"
  shows "fst (Refresh (Some s) answer fallback) = False
    \<and> Lookup (snd (Refresh (Some s) answer fallback)) k =
        (case directory_of rs k of None \<Rightarrow> unknown_identity | Some i \<Rightarrow> i)"
proof -
  obtain m where m: "scan_rows (secret s) (map Some rs) Map.empty = Some m"
    "Refresh (Some s) answer fallback = (False, Some (s\<lparr>entries := m\<rparr>))"
    using Refresh_succeeds [OF assms(2,1)] by blast
  then have "m (hmacFingerprint (secret s) k) = directory_of rs k"
    using scan_rows_lookup [OF assms(4), of Map.empty] by (auto split: option.splits)
  with m(2) assms(3) show ?thesis by (simp add: Lookup_def split: option.split)
qed

definition sample_row :: key_row where
  "sample_row = \<lparr>kr_key = ''sk-1'', kr_id = 7, kr_user_id = 42, kr_name = ''ci'', kr_username = ''ann'', kr_email = []\<rparr>"

definition sample_resolver :: resolver where
  "sample_resolver = \<lparr>has_db = True, secret = ''s'', refresh = 1, entries = Map.empty\<rparr>"

lemma sample_key_not_blank: "\<not> blank ''sk-1''"
  by code_simp

theorem refresh_then_lookup_witness:
  "Lookup (snd (Refresh (Some sample_resolver) QueryError (Rows [Some sample_row] False))) ''sk-1''
     = directory_entry sample_row"
  using refresh_then_lookup [of sample_resolver QueryError "Rows [Some sample_row] False" "[sample_row]" "''sk-1''"]
    sample_key_not_blank
  by (simp add: refresh_rows_def sample_resolver_def sample_row_def directory_of_def)

text \<open>
  The directory survives an outage: as long as the refreshes of the ticker fail (a refused
  query, a row that does not scan, an error after the rows) the resolver is exactly what it was
  after the last tick before them, so that known keys keep their identity.
\<close>

theorem outage_keeps_directory:
  assumes "\<forall>(a, f) \<in> set outage. refresh_rows a f = None"
  shows "Start r (ticks @ outage) = Start r ticks"
proof (cases r)
  case (Some s)
  then show ?thesis
    using assms refresh_ticks_Some [of s ticks] by (auto simp: Start_def refresh_ticks_append refresh_ticks_failing)
qed (simp add: Start_def)

theorem outage_keeps_directory_witness:
  "Start (Some sample_resolver) ([(Rows [Some sample_row] False, QueryError)] @ [(QueryError, QueryError), (Rows [None] False, QueryError)])
     = Start (Some sample_resolver) [(Rows [Some sample_row] False, QueryError)]"
  by (rule outage_keeps_directory) (simp add: refresh_rows_def)

text \<open>
  The identity database never keeps the gateway from starting: whenever \<open>sql.Open\<close> accepts
  the address, or no database is configured, there is a resolver, with a positive refresh
  interval, whatever the first refresh answers; if that refresh fails every key is unknown.
\<close>

theorem NewIdentityResolver_fail_open:
  assumes "open_ok \<or> blank (IdentityDatabaseURL cfg)"
  shows "\<exists>s. NewIdentityResolver cfg open_ok answer fallback = Some s \<and> 0 < refresh s
    \<and> secret s = IdentityHMACSecret cfg \<and> has_db s = (\<not> blank (IdentityDatabaseURL cfg))
    \<and> (refresh_rows answer fallback = None \<longrightarrow> (\<forall>k. Lookup (Some s) k = unknown_identity))"
proof -
  let ?r = "\<lparr>has_db = True, secret = IdentityHMACSecret cfg,
    refresh = (if IdentityRefresh cfg \<le> 0 then seconds 30 else IdentityRefresh cfg), entries = Map.empty\<rparr>"
  have "\<exists>s. snd (Refresh (Some ?r) answer fallback) = Some s \<and> refresh s = refresh ?r \<and> secret s = secret ?r
      \<and> has_db s \<and> (refresh_rows answer fallback = None \<longrightarrow> s = ?r)"
    using Refresh_succeeds [of answer fallback _ ?r] Refresh_fails [of answer fallback ?r]
    by (cases "refresh_rows answer fallback") auto
  then show ?thesis
    using assms by (auto simp: NewIdentityResolver_def Let_def Lookup_def)
qed

theorem NewIdentityResolver_fail_open_witness:
  "\<exists>s. NewIdentityResolver sample_config True QueryError QueryError = Some s \<and> 0 < refresh s
    \<and> Lookup (Some s) ''sk-1'' = unknown_identity"
  using NewIdentityResolver_fail_open [of True sample_config QueryError QueryError]
  by (auto simp: refresh_rows_def)

text \<open>
  The key of a request: a non-empty bearer token wins, then \<open>x-api-key\<close>, then
  \<open>x-goog-api-key\<close>; an \<open>Authorization\<close> header of another scheme is passed over, not taken
  as a key.
\<close>

theorem extractAPIKey_precedence:
  "extractAPIKey h =
     (let candidates = [bearer_of (trim_space (header_get h ''Authorization'')),
                        trim_space (header_get h ''x-api-key''), trim_space (header_get h ''x-goog-api-key'')]
      in case find (\<lambda>k. k \<noteq> []) candidates of None \<Rightarrow> [] | Some k \<Rightarrow> k)"
proof -
  have "bearer_of [] = []" by (simp add: bearer_of_def split_space_2_def)
  then show ?thesis by (auto simp: extractAPIKey_def Let_def)
qed

end
