(* ===== verification/World.thy ===== *)
theory World
  imports Identity "HOL-Library.Char_ord" "HOL-Library.List_Lexorder" "HOL-Library.Product_Lexorder"
begin

text \<open>
  What lies outside the process: the Postgres database, the clock, contexts and timers, random
  numbers, UUIDs and bcrypt. None of it is code of the repository, so it is a parameter: a
  record of functions over an abstract state of the outside world, one for each call the Go
  code makes, and for each SQL statement it sends. The tables are those of
  \<open>migrations/001_init.sql\<close>. What the Go code relies on is stated as the laws of three
  locales; the theory \<open>Table_World\<close> interprets them by the relational meaning of the
  statements on in-memory tables with arbitrary faults.
\<close>

section \<open>Errors\<close>

text \<open>\<open>sql.ErrNoRows\<close>, any other error value with its text, and \<open>fmt.Errorf\<close> with \<open>%w\<close>.\<close>

datatype go_error = NoRows | Failure string | Wrapped string go_error

fun error_text :: "go_error \<Rightarrow> string" where
  "error_text NoRows = ''sql: no rows in result set''"
| "error_text (Failure s) = s"
| "error_text (Wrapped p e) = p @ error_text e"

text \<open>\<open>errors.Is(err, sql.ErrNoRows)\<close>.\<close>

fun is_no_rows :: "go_error \<Rightarrow> bool" where
  "is_no_rows NoRows = True"
| "is_no_rows (Failure s) = False"
| "is_no_rows (Wrapped p e) = is_no_rows e"

section \<open>Tables\<close>

text \<open>
  A row of \<open>manual_prompt_audit_records\<close>: first the columns the INSERT gives, then those that
  take their defaults. A UUID is its canonical text, a timestamp a number of nanoseconds, the
  two JSONB columns are the values they encode. \<open>created_at\<close> is never read and left out.
\<close>

record insert_row =
  col_id :: string
  col_received_at :: int
  col_request_id :: string
  col_client_request_id :: string
  col_user_id :: "int option"
  col_username_snapshot :: string
  col_email_snapshot :: string
  col_api_key_id :: "int option"
  col_api_key_name_snapshot :: string
  col_identity_source :: string
  col_endpoint :: string
  col_protocol :: string
  col_requested_model :: string
  col_user_messages_json :: "user_message list"
  col_prompt_text :: string
  col_prompt_sha256 :: string
  col_message_count :: int
  col_parse_status :: string
  col_truncated :: bool
  col_excluded_role_counts :: "role_counts option"

record record_row = insert_row +
  col_review_status :: string
  col_reviewer :: string
  col_review_note :: string
  col_reviewed_at :: "int option"

record admin_row =
  adm_username :: string
  adm_password_hash :: string
  adm_last_login_at :: "int option"

record session_row =
  ses_token_hash :: string
  ses_username :: string
  ses_expires_at :: int
  ses_last_seen_at :: int

record tables =
  records :: "record_row list"
  admins :: "admin_row list"
  sessions :: "session_row list"

text \<open>The defaults of the review columns.\<close>

definition with_defaults :: "insert_row \<Rightarrow> record_row" where
  "with_defaults row = insert_row.extend row
     \<lparr>col_review_status = ''pending'', col_reviewer = [], col_review_note = [], col_reviewed_at = None\<rparr>"

lemma with_defaults_simps [simp]:
  "col_id (with_defaults row) = col_id row"
  "col_review_status (with_defaults row) = ''pending''"
  "col_reviewer (with_defaults row) = []"
  "col_review_note (with_defaults row) = []"
  "col_reviewed_at (with_defaults row) = None"
  "insert_row.truncate (with_defaults row) = row"
  by (simp_all add: with_defaults_def insert_row.defs)

subsection \<open>Column types\<close>

text \<open>A TEXT value is UTF-8 without NUL; a VARCHAR(n) has at most n characters.\<close>

definition pg_text :: "string \<Rightarrow> bool" where
  "pg_text s \<longleftrightarrow> valid_utf8 s \<and> list_all (\<lambda>c. byte c \<noteq> 0) s"

definition varchar :: "nat \<Rightarrow> string \<Rightarrow> bool" where
  "varchar n s \<longleftrightarrow> pg_text s \<and> length (runes s) \<le> n"

text \<open>
  A longer value is refused unless all the characters in excess are spaces, which are cut off
  silently.
\<close>

definition varchar_refuses :: "nat \<Rightarrow> string \<Rightarrow> bool" where
  "varchar_refuses n s \<longleftrightarrow> \<not> pg_text s \<or> list_ex (\<lambda>r. r \<noteq> 32) (drop n (runes s))"

text \<open>The rows the table takes as they are, and rows it surely refuses.\<close>

definition fits_schema :: "insert_row \<Rightarrow> bool" where
  "fits_schema row \<longleftrightarrow>
     varchar 128 (col_request_id row) \<and> varchar 128 (col_client_request_id row)
     \<and> varchar 255 (col_username_snapshot row) \<and> varchar 255 (col_email_snapshot row)
     \<and> varchar 255 (col_api_key_name_snapshot row) \<and> varchar 32 (col_identity_source row)
     \<and> pg_text (col_endpoint row) \<and> varchar 64 (col_protocol row) \<and> varchar 255 (col_requested_model row)
     \<and> list_all (\<lambda>m. pg_text (Text m) \<and> pg_text (Source m)) (col_user_messages_json row)
     \<and> pg_text (col_prompt_text row) \<and> varchar 64 (col_prompt_sha256 row)
     \<and> length (col_prompt_sha256 row) = 64 \<and> col_message_count row < 2 ^ 31 \<and> varchar 32 (col_parse_status row)"

definition schema_refuses :: "insert_row \<Rightarrow> bool" where
  "schema_refuses row \<longleftrightarrow>
     varchar_refuses 128 (col_request_id row) \<or> varchar_refuses 128 (col_client_request_id row)
     \<or> varchar_refuses 255 (col_requested_model row) \<or> \<not> pg_text (col_endpoint row)
     \<or> \<not> pg_text (col_prompt_text row)"

text \<open>The canonical text of a UUID: 8-4-4-4-12 lower-case hexadecimal digits.\<close>

definition uuid_byte :: "nat \<Rightarrow> char \<Rightarrow> bool" where
  "uuid_byte i c \<longleftrightarrow>
     (if List.member [8, 13, 18, 23] i then c = CHR ''-''
      else 48 \<le> byte c \<and> byte c \<le> 57 \<or> 97 \<le> byte c \<and> byte c \<le> 102)"

definition canonical_uuid :: "string \<Rightarrow> bool" where
  "canonical_uuid s \<longleftrightarrow> length s = 36 \<and> list_all (\<lambda>(i, c). uuid_byte i c) (enumerate 0 s)"

lemma canonical_uuid_trim:
  assumes "canonical_uuid u"
  shows "trim_space u = u"
proof -
  have "byte c < 128 \<and> \<not> is_space (byte c)" if c: "c \<in> set u" for c
  proof -
    obtain i where "i < length u" "c = u ! i" using c by (auto simp: in_set_conv_nth)
    then have "uuid_byte i c" using assms
      by (auto simp: canonical_uuid_def list_all_length nth_enumerate_eq)
    then show ?thesis
      by (auto simp: uuid_byte_def is_space_def byte_def split: if_splits)
  qed
  then show ?thesis by (auto intro: trim_space_ascii_id)
qed

subsection \<open>Conditions of the record query\<close>

datatype sql_arg = ArgInt int | ArgText string | ArgTime int

text \<open>The conditions the WHERE clause of \<open>List\<close> may have, with the value each compares with.\<close>

datatype condition =
    UserIs int
  | RequestIs string
  | QueryLike string
  | FromTime int
  | ToTime int
  | StatusIs string

fun condition_sql :: "nat \<Rightarrow> condition \<Rightarrow> string" where
  "condition_sql n (UserIs u) = ''user_id = $'' @ itoa n"
| "condition_sql n (RequestIs r) = ''request_id = $'' @ itoa n"
| "condition_sql n (QueryLike q) =
     ''(prompt_text ILIKE $'' @ itoa n @ '' OR email_snapshot ILIKE $'' @ itoa n
     @ '' OR username_snapshot ILIKE $'' @ itoa n @ '')''"
| "condition_sql n (FromTime t) = ''received_at >= $'' @ itoa n"
| "condition_sql n (ToTime t) = ''received_at < $'' @ itoa n"
| "condition_sql n (StatusIs s) = ''review_status = $'' @ itoa n"

fun condition_arg :: "condition \<Rightarrow> sql_arg" where
  "condition_arg (UserIs u) = ArgInt u"
| "condition_arg (RequestIs r) = ArgText r"
| "condition_arg (QueryLike q) = ArgText (''%'' @ q @ ''%'')"
| "condition_arg (FromTime t) = ArgTime t"
| "condition_arg (ToTime t) = ArgTime t"
| "condition_arg (StatusIs s) = ArgText s"

text \<open>The text of the clause when the conditions take the placeholders 1, 2, and so on.\<close>

definition where_sql :: "condition list \<Rightarrow> string" where
  "where_sql conds = join (''1=1'' # map (\<lambda>(n, c). condition_sql n c) (enumerate 1 conds)) '' AND ''"

subsection \<open>The view of the world the laws speak of\<close>

text \<open>
  The tables, the database clock, the point in time \<open>NOW() - d * INTERVAL '1 day'\<close>, the
  rounding of a time to a TIMESTAMPTZ, the UUID of a text, and the ILIKE operator.
\<close>

record 'w view =
  tables_of :: "'w \<Rightarrow> tables"
  db_now :: "'w \<Rightarrow> int"
  days_before :: "'w \<Rightarrow> int \<Rightarrow> int"
  timestamp :: "int \<Rightarrow> int"
  sql_uuid :: "string \<Rightarrow> string option"
  ilike :: "string \<Rightarrow> string \<Rightarrow> bool"

fun condition_holds :: "'w view \<Rightarrow> condition \<Rightarrow> record_row \<Rightarrow> bool" where
  "condition_holds V (UserIs u) row = (col_user_id row = Some u)"
| "condition_holds V (RequestIs r) row = (col_request_id row = r)"
| "condition_holds V (QueryLike q) row =
     (ilike V (col_prompt_text row) (''%'' @ q @ ''%'') \<or> ilike V (col_email_snapshot row) (''%'' @ q @ ''%'')
      \<or> ilike V (col_username_snapshot row) (''%'' @ q @ ''%''))"
| "condition_holds V (FromTime t) row = (timestamp V t \<le> col_received_at row)"
| "condition_holds V (ToTime t) row = (col_received_at row < timestamp V t)"
| "condition_holds V (StatusIs s) row = (col_review_status row = s)"

definition matching :: "'w view \<Rightarrow> condition list \<Rightarrow> tables \<Rightarrow> record_row list" where
  "matching V conds T = filter (\<lambda>row. list_all (\<lambda>c. condition_holds V c row) conds) (records T)"

text \<open>\<open>ORDER BY received_at DESC, id DESC\<close>.\<close>

definition newest_first :: "record_row list \<Rightarrow> record_row list" where
  "newest_first rows = rev (sort_key (\<lambda>row. (col_received_at row, col_id row)) rows)"

text \<open>\<open>'[]'::jsonb\<close> for the messages and \<open>LEFT(prompt_text, 512)\<close>, which counts characters.\<close>

definition left_chars :: "nat \<Rightarrow> string \<Rightarrow> string" where
  "left_chars n s = concat (map encode_rune (take n (runes s)))"

definition page_view :: "record_row \<Rightarrow> record_row" where
  "page_view row = row\<lparr>col_user_messages_json := [], col_prompt_text := left_chars 512 (col_prompt_text row)\<rparr>"

text \<open>The row an INSERT stores for fitting values, and the UPDATE of the review columns.\<close>

definition stored_row :: "'w view \<Rightarrow> string \<Rightarrow> insert_row \<Rightarrow> record_row" where
  "stored_row V u row = with_defaults (row\<lparr>col_id := u, col_received_at := timestamp V (col_received_at row)\<rparr>)"

lemma stored_row_id [simp]: "col_id (stored_row V u row) = u"
  by (simp add: stored_row_def)

definition set_review :: "'w view \<Rightarrow> string \<Rightarrow> string \<Rightarrow> string \<Rightarrow> int option \<Rightarrow> string \<Rightarrow> tables \<Rightarrow> tables" where
  "set_review V status reviewer note at u T =
     T\<lparr>records := map (\<lambda>row. if col_id row = u
        then row\<lparr>col_review_status := status, col_reviewer := reviewer, col_review_note := note,
                 col_reviewed_at := map_option (timestamp V) at\<rparr>
        else row) (records T)\<rparr>"

section \<open>The calls\<close>

text \<open>
  Every call gives its result and the world after it. An error is an option where Go returns
  only an error. A page is the list of its rows, each scanned or failing to, and the error
  \<open>rows.Err()\<close> reports at the end.
\<close>

type_synonym page = "(go_error + record_row) list \<times> go_error option"

record 'w world =
  time_now :: "'w \<Rightarrow> int \<times> 'w"
  ctx_err :: "'w \<Rightarrow> bool \<times> 'w"
  wait_done :: "int \<Rightarrow> 'w \<Rightarrow> bool \<times> 'w"
  rand_read :: "nat \<Rightarrow> 'w \<Rightarrow> (go_error + string) \<times> 'w"
  new_uuid :: "'w \<Rightarrow> string \<times> 'w"
  uuid_parse :: "string \<Rightarrow> string option"
  bcrypt_generate :: "string \<Rightarrow> nat \<Rightarrow> 'w \<Rightarrow> (go_error + string) \<times> 'w"
  bcrypt_compare :: "string \<Rightarrow> string \<Rightarrow> bool"
  db_usage :: "string \<Rightarrow> 'w \<Rightarrow> usage_row option \<times> 'w"
  db_close :: "'w \<Rightarrow> go_error option \<times> 'w"
  db_ping :: "'w \<Rightarrow> go_error option \<times> 'w"
  db_schema :: "'w \<Rightarrow> go_error option \<times> 'w"
  db_insert :: "insert_row \<Rightarrow> 'w \<Rightarrow> go_error option \<times> 'w"
  db_delete_expired :: "int \<Rightarrow> 'w \<Rightarrow> go_error option \<times> 'w"
  db_count :: "string \<Rightarrow> sql_arg list \<Rightarrow> 'w \<Rightarrow> (go_error + int) \<times> 'w"
  db_page :: "string \<Rightarrow> nat \<Rightarrow> nat \<Rightarrow> sql_arg list \<Rightarrow> 'w \<Rightarrow> (go_error + page) \<times> 'w"
  db_get :: "string \<Rightarrow> 'w \<Rightarrow> (go_error + record_row) \<times> 'w"
  db_review :: "string \<Rightarrow> string \<Rightarrow> string \<Rightarrow> int option \<Rightarrow> string \<Rightarrow> 'w \<Rightarrow> go_error option \<times> 'w"
  db_insert_admin :: "string \<Rightarrow> string \<Rightarrow> 'w \<Rightarrow> (go_error + string) \<times> 'w"
  db_password :: "string \<Rightarrow> 'w \<Rightarrow> (go_error + string) \<times> 'w"
  db_touch_login :: "string \<Rightarrow> 'w \<Rightarrow> go_error option \<times> 'w"
  db_insert_session :: "string \<Rightarrow> string \<Rightarrow> int \<Rightarrow> 'w \<Rightarrow> go_error option \<times> 'w"
  db_session :: "string \<Rightarrow> 'w \<Rightarrow> (go_error + string) \<times> 'w"
  db_touch_session :: "string \<Rightarrow> 'w \<Rightarrow> go_error option \<times> 'w"
  db_delete_session :: "string \<Rightarrow> 'w \<Rightarrow> go_error option \<times> 'w"
  db_expire_sessions :: "'w \<Rightarrow> go_error option \<times> 'w"

section \<open>The laws\<close>

text \<open>Calls that are not statements leave the tables alone; so does the schema text on tables that exist.\<close>

locale services =
  fixes E :: "'w world" and V :: "'w view"
  assumes time_now_quiet [simp]: "tables_of V (snd (time_now E w)) = tables_of V w"
    and ctx_err_quiet [simp]: "tables_of V (snd (ctx_err E w)) = tables_of V w"
    and wait_done_quiet [simp]: "tables_of V (snd (wait_done E d w)) = tables_of V w"
    and rand_read_quiet [simp]: "tables_of V (snd (rand_read E n w)) = tables_of V w"
    and rand_read_length: "fst (rand_read E n w) = Inr bytes \<Longrightarrow> length bytes = n"
    and new_uuid_quiet [simp]: "tables_of V (snd (new_uuid E w)) = tables_of V w"
    and bcrypt_quiet [simp]: "tables_of V (snd (bcrypt_generate E p c w)) = tables_of V w"
    and usage_quiet [simp]: "tables_of V (snd (db_usage E r w)) = tables_of V w"
    and close_quiet [simp]: "tables_of V (snd (db_close E w)) = tables_of V w"
    and ping_quiet [simp]: "tables_of V (snd (db_ping E w)) = tables_of V w"
    and schema_quiet [simp]: "tables_of V (snd (db_schema E w)) = tables_of V w"

text \<open>
  The statements on the record table. A statement that reports an error may have been executed
  all the same (a deadline that passes while the server commits).
\<close>

locale audit_db = services +
  assumes insert_law: "db_insert E row w = (r, w') \<Longrightarrow>
      r \<noteq> None \<and> tables_of V w' = tables_of V w
      \<or> \<not> schema_refuses row \<and> (\<exists>u stored. sql_uuid V (col_id row) = Some u \<and> col_id stored = u
          \<and> u \<notin> col_id ` set (records (tables_of V w))
          \<and> tables_of V w' = (tables_of V w)\<lparr>records := records (tables_of V w) @ [with_defaults stored]\<rparr>
          \<and> col_user_id stored = col_user_id row \<and> col_message_count stored = col_message_count row
          \<and> col_prompt_text stored = col_prompt_text row
          \<and> (fits_schema row \<longrightarrow> with_defaults stored = stored_row V u row))"
    and delete_expired_law: "db_delete_expired E days w = (r, w') \<Longrightarrow>
      r \<noteq> None \<and> tables_of V w' = tables_of V w
      \<or> tables_of V w' = (tables_of V w)\<lparr>records :=
          filter (\<lambda>row. days_before V w days \<le> col_received_at row) (records (tables_of V w))\<rparr>"
    and count_law: "db_count E (where_sql conds) (map condition_arg conds) w = (rc, w') \<Longrightarrow>
      tables_of V w' = tables_of V w
      \<and> (\<forall>n. rc = Inr n \<longrightarrow> n = int (length (matching V conds (tables_of V w))))"
    and page_law: "db_page E (where_sql conds) (length conds + 1) (length conds + 2)
        (map condition_arg conds @ [ArgInt (int limit), ArgInt (int offset)]) w = (rp, w') \<Longrightarrow>
      tables_of V w' = tables_of V w
      \<and> (\<forall>rows. rp = Inr (map Inr rows, None) \<longrightarrow>
           rows = map page_view (take limit (drop offset (newest_first (matching V conds (tables_of V w))))))"
    and get_law: "db_get E u w = (rg, w') \<Longrightarrow>
      tables_of V w' = tables_of V w
      \<and> (\<forall>row. rg = Inr row \<longrightarrow> row \<in> set (records (tables_of V w)) \<and> col_id row = u)
      \<and> (\<forall>e. rg = Inl e \<and> is_no_rows e \<longrightarrow> u \<notin> col_id ` set (records (tables_of V w)))"
    and review_law: "db_review E status reviewer note at u w = (r, w') \<Longrightarrow>
      r \<noteq> None \<and> tables_of V w' = tables_of V w
      \<or> pg_text note \<and> \<not> varchar_refuses 255 reviewer
        \<and> (\<exists>reviewer'. (varchar 255 reviewer \<longrightarrow> reviewer' = reviewer)
             \<and> tables_of V w' = set_review V status reviewer' note at u (tables_of V w))"
    and uuid_parse_canonical: "uuid_parse E s = Some u \<Longrightarrow> canonical_uuid u"
    and uuid_parse_id: "canonical_uuid u \<Longrightarrow> uuid_parse E u = Some u"
    and new_uuid_canonical: "canonical_uuid (fst (new_uuid E w))"
    and sql_uuid_id: "canonical_uuid u \<Longrightarrow> sql_uuid V u = Some u"

text \<open>The statements on the administrators and their sessions.\<close>

locale admin_db = services +
  assumes insert_admin_law: "db_insert_admin E u h w = (rs, w') \<Longrightarrow>
      (\<exists>e. rs = Inl e \<and> \<not> is_no_rows e) \<and> tables_of V w' = tables_of V w
      \<or> (\<exists>e. rs = Inl e \<and> is_no_rows e) \<and> u \<in> adm_username ` set (admins (tables_of V w))
          \<and> tables_of V w' = tables_of V w
      \<or> (\<forall>e. rs = Inl e \<longrightarrow> \<not> is_no_rows e) \<and> (\<forall>x. rs = Inr x \<longrightarrow> x = u)
          \<and> u \<notin> adm_username ` set (admins (tables_of V w))
          \<and> tables_of V w' = (tables_of V w)\<lparr>admins := admins (tables_of V w) @
              [\<lparr>adm_username = u, adm_password_hash = h, adm_last_login_at = None\<rparr>]\<rparr>"
    and password_law: "db_password E u w = (rs, w') \<Longrightarrow>
      tables_of V w' = tables_of V w
      \<and> (\<forall>h. rs = Inr h \<longrightarrow> (\<exists>a \<in> set (admins (tables_of V w)). adm_username a = u \<and> adm_password_hash a = h))
      \<and> (\<forall>e. rs = Inl e \<and> is_no_rows e \<longrightarrow> u \<notin> adm_username ` set (admins (tables_of V w)))"
    and touch_login_law: "db_touch_login E u w = (r, w') \<Longrightarrow>
      r \<noteq> None \<and> tables_of V w' = tables_of V w
      \<or> (\<exists>t. tables_of V w' = (tables_of V w)\<lparr>admins :=
          map (\<lambda>a. if adm_username a = u then a\<lparr>adm_last_login_at := Some t\<rparr> else a) (admins (tables_of V w))\<rparr>)"
    and insert_session_law: "db_insert_session E h u t w = (r, w') \<Longrightarrow>
      r \<noteq> None \<and> tables_of V w' = tables_of V w
      \<or> u \<in> adm_username ` set (admins (tables_of V w)) \<and> h \<notin> ses_token_hash ` set (sessions (tables_of V w))
        \<and> (\<exists>seen. tables_of V w' = (tables_of V w)\<lparr>sessions := sessions (tables_of V w) @
             [\<lparr>ses_token_hash = h, ses_username = u, ses_expires_at = timestamp V t, ses_last_seen_at = seen\<rparr>]\<rparr>)"
    and session_law: "db_session E h w = (rs, w') \<Longrightarrow>
      tables_of V w' = tables_of V w
      \<and> (\<forall>u. rs = Inr u \<longrightarrow> (\<exists>s \<in> set (sessions (tables_of V w)).
           ses_token_hash s = h \<and> ses_username s = u \<and> db_now V w < ses_expires_at s))
      \<and> (\<forall>e. rs = Inl e \<and> is_no_rows e \<longrightarrow>
           \<not> (\<exists>s \<in> set (sessions (tables_of V w)). ses_token_hash s = h \<and> db_now V w < ses_expires_at s))"
    and touch_session_law: "db_touch_session E h w = (r, w') \<Longrightarrow>
      r \<noteq> None \<and> tables_of V w' = tables_of V w
      \<or> (\<exists>P t. tables_of V w' = (tables_of V w)\<lparr>sessions :=
          map (\<lambda>s. if ses_token_hash s = h \<and> P s then s\<lparr>ses_last_seen_at := t\<rparr> else s) (sessions (tables_of V w))\<rparr>)"
    and delete_session_law: "db_delete_session E h w = (r, w') \<Longrightarrow>
      r \<noteq> None \<and> tables_of V w' = tables_of V w
      \<or> tables_of V w' = (tables_of V w)\<lparr>sessions :=
          filter (\<lambda>s. ses_token_hash s \<noteq> h) (sessions (tables_of V w))\<rparr>"
    and expire_sessions_law: "db_expire_sessions E w = (r, w') \<Longrightarrow>
      r \<noteq> None \<and> tables_of V w' = tables_of V w
      \<or> tables_of V w' = (tables_of V w)\<lparr>sessions :=
          filter (\<lambda>s. db_now V w < ses_expires_at s) (sessions (tables_of V w))\<rparr>"

section \<open>Progress\<close>

text \<open>
  What a result that the code is to reach relies on, besides the laws: the faults of the database
  that are still to come are finite, a wait takes its time, and a context is not cancelled while
  it is alive. A world has these three measures of what lies ahead.
\<close>

record 'w outlook =
  alive :: "'w \<Rightarrow> bool"
  faults_left :: "'w \<Rightarrow> nat"
  clock_of :: "'w \<Rightarrow> int"

definition later :: "'w outlook \<Rightarrow> 'w \<Rightarrow> 'w \<Rightarrow> bool" where
  "later L w w' \<longleftrightarrow> (alive L w \<longrightarrow> alive L w') \<and> faults_left L w' \<le> faults_left L w \<and> clock_of L w \<le> clock_of L w'"

lemma later_refl [simp]: "later L w w"
  by (simp add: later_def)

lemma later_trans: "later L w w1 \<Longrightarrow> later L w1 w2 \<Longrightarrow> later L w w2"
  by (auto simp: later_def)

locale live_services = services +
  fixes L :: "'a outlook"
  assumes time_now_later: "time_now E w = (t, w') \<Longrightarrow> later L w w' \<and> clock_of L w \<le> t \<and> t \<le> clock_of L w'"
    and new_uuid_later: "later L w (snd (new_uuid E w))"
    and ctx_err_later: "ctx_err E w = (b, w') \<Longrightarrow> later L w w' \<and> (alive L w \<longrightarrow> \<not> b)"
    and wait_done_later: "wait_done E d w = (b, w') \<Longrightarrow> 0 \<le> d \<Longrightarrow>
      later L w w' \<and> (alive L w \<longrightarrow> \<not> b) \<and> (\<not> b \<longrightarrow> clock_of L w + d \<le> clock_of L w')"
    and ping_later: "db_ping E w = (r, w') \<Longrightarrow> later L w w' \<and> (r \<noteq> None \<longrightarrow> faults_left L w' < faults_left L w)"
    and schema_later: "db_schema E w = (r, w') \<Longrightarrow> later L w w' \<and> (r \<noteq> None \<longrightarrow> faults_left L w' < faults_left L w)"

text \<open>Without a fault the insert of a fitting row under a new id is executed.\<close>

locale live_audit_db = audit_db + live_services +
  assumes insert_later: "db_insert E row w = (r, w') \<Longrightarrow> later L w w'"
    and insert_executed: "db_insert E row w = (r, w') \<Longrightarrow> fits_schema row \<Longrightarrow> sql_uuid V (col_id row) = Some u \<Longrightarrow>
      u \<notin> col_id ` set (records (tables_of V w)) \<Longrightarrow> tables_of V w' = tables_of V w \<Longrightarrow> faults_left L w' < faults_left L w"

locale live_admin_db = admin_db + live_services +
  assumes insert_admin_later: "db_insert_admin E u h w = (x, w') \<Longrightarrow> later L w w'"
    and insert_admin_executed: "db_insert_admin E u h w = (Inl e, w') \<Longrightarrow> \<not> is_no_rows e \<Longrightarrow> \<not> varchar_refuses 64 u \<Longrightarrow> pg_text h \<Longrightarrow>
      faults_left L w' < faults_left L w"

end
