(* ===== verification/Store.thy ===== *)
theory Store
  imports World
begin

text \<open>
  \<open>store.go\<close>: the audit store. Its own state is the lazy initialisation of the schema; the
  data is in the database, reached through the calls of \<open>World\<close>. An operation takes the
  store (\<open>None\<close> is the nil pointer) and the world and gives its result, the store and the
  world.
\<close>

section \<open>State\<close>

text \<open>\<open>nextSchemaTry\<close> is \<open>None\<close> for the zero time.\<close>

record store =
  store_db :: bool
  schemaReady :: bool
  nextSchemaTry :: "int option"
  lastSchemaErr :: "go_error option"

definition new_store :: store where
  "new_store = \<lparr>store_db = True, schemaReady = False, nextSchemaTry = None, lastSchemaErr = None\<rparr>"

definition not_initialized :: go_error where
  "not_initialized = Failure ''store is not initialized''"

section \<open>The schema\<close>

text \<open>
  Whether the last failure is recent: \<open>time.Now()\<close> is read only when a time is set.
\<close>

definition backing_off :: "'w world \<Rightarrow> store \<Rightarrow> 'w \<Rightarrow> bool \<times> 'w" where
  "backing_off E st w =
     (case nextSchemaTry st of
        None \<Rightarrow> (False, w)
      | Some t \<Rightarrow> let (n, w1) = time_now E w in (n < t \<and> lastSchemaErr st \<noteq> None, w1))"

definition schema_failed :: "'w world \<Rightarrow> go_error \<Rightarrow> store \<Rightarrow> 'w \<Rightarrow> go_error option \<times> store option \<times> 'w" where
  "schema_failed E e st w =
     (let (n, w1) = time_now E w
      in (Some e, Some (st\<lparr>lastSchemaErr := Some e, nextSchemaTry := Some (n + seconds 5)\<rparr>), w1))"

definition ensureSchema :: "'w world \<Rightarrow> store option \<Rightarrow> 'w \<Rightarrow> go_error option \<times> store option \<times> 'w" where
  "ensureSchema E s w =
     (case s of
        None \<Rightarrow> (Some not_initialized, s, w)
      | Some st \<Rightarrow>
          if \<not> store_db st then (Some not_initialized, s, w)
          else if schemaReady st then (None, s, w)
          else case backing_off E st w of
            (True, w1) \<Rightarrow> (lastSchemaErr st, s, w1)
          | (False, w1) \<Rightarrow>
              (case db_ping E w1 of
                 (Some e, w2) \<Rightarrow> schema_failed E e st w2
               | (None, w2) \<Rightarrow>
                   (case db_schema E w2 of
                      (Some e, w3) \<Rightarrow> schema_failed E (Wrapped ''initialize prompt audit schema: '' e) st w3
                    | (None, w3) \<Rightarrow>
                        (None, Some (st\<lparr>schemaReady := True, lastSchemaErr := None, nextSchemaTry := None\<rparr>), w3))))"

text \<open>\<open>OpenStore\<close>: whether \<open>sql.Open\<close> and reading the embedded file succeed are arguments.\<close>

definition OpenStore :: "'w world \<Rightarrow> bool \<Rightarrow> bool \<Rightarrow> 'w \<Rightarrow> store option \<times> 'w" where
  "OpenStore E open_ok read_ok w =
     (if \<not> open_ok then (None, w)
      else if \<not> read_ok then (None, snd (db_close E w))
      else snd (ensureSchema E (Some new_store) w))"

definition Close :: "'w world \<Rightarrow> store option \<Rightarrow> 'w \<Rightarrow> go_error option \<times> 'w" where
  "Close E s w =
     (case s of None \<Rightarrow> (None, w) | Some st \<Rightarrow> if \<not> store_db st then (None, w) else db_close E w)"

definition Ping :: "'w world \<Rightarrow> store option \<Rightarrow> 'w \<Rightarrow> go_error option \<times> store option \<times> 'w" where
  "Ping E s w =
     (case s of
        None \<Rightarrow> (Some not_initialized, s, w)
      | Some st \<Rightarrow> if \<not> store_db st then (Some not_initialized, s, w) else ensureSchema E s w)"

section \<open>Writing records\<close>

text \<open>
  \<open>json.Marshal\<close> writes strings as valid UTF-8, with \<open>U+FFFD\<close> for each invalid byte; what the
  JSONB column then holds is the list with those strings.
\<close>

definition json_text :: "string \<Rightarrow> string" where
  "json_text s = concat (map encode_rune (runes s))"

definition marshal_messages :: "user_message list \<Rightarrow> user_message list" where
  "marshal_messages ms = map (\<lambda>m. m\<lparr>Text := json_text (Text m), Source := json_text (Source m)\<rparr>) ms"

text \<open>The arguments of the INSERT. A nil \<open>*int64\<close> becomes NULL (\<open>nullInt64\<close>).\<close>

definition insert_args :: "capture_record \<Rightarrow> insert_row" where
  "insert_args record =
     \<lparr>col_id = cr_ID record,
      col_received_at = cr_ReceivedAt record,
      col_request_id = cr_RequestID record,
      col_client_request_id = cr_ClientRequestID record,
      col_user_id = UserID (cr_Identity record),
      col_username_snapshot = Username (cr_Identity record),
      col_email_snapshot = Email (cr_Identity record),
      col_api_key_id = APIKeyID (cr_Identity record),
      col_api_key_name_snapshot = APIKeyName (cr_Identity record),
      col_identity_source = IdentitySource (cr_Identity record),
      col_endpoint = cr_Endpoint record,
      col_protocol = cr_Protocol record,
      col_requested_model = cr_Model record,
      col_user_messages_json = marshal_messages (cr_Messages record),
      col_prompt_text = cr_PromptText record,
      col_prompt_sha256 = cr_PromptSHA256 record,
      col_message_count = int (cr_MessageCount record),
      col_parse_status = cr_ParseStatus record,
      col_truncated = cr_Truncated record,
      col_excluded_role_counts = cr_ExcludedRoles record\<rparr>"

definition Insert :: "'w world \<Rightarrow> capture_record \<Rightarrow> store option \<Rightarrow> 'w \<Rightarrow> go_error option \<times> store option \<times> 'w" where
  "Insert E record s w =
     (case ensureSchema E s w of
        (Some e, s1, w1) \<Rightarrow> (Some e, s1, w1)
      | (None, s1, w1) \<Rightarrow> (case db_insert E (insert_args record) w1 of (r, w2) \<Rightarrow> (r, s1, w2)))"

definition DeleteExpired :: "'w world \<Rightarrow> int \<Rightarrow> store option \<Rightarrow> 'w \<Rightarrow> go_error option \<times> store option \<times> 'w" where
  "DeleteExpired E retentionDays s w =
     (if retentionDays \<le> 0 then (None, s, w)
      else case ensureSchema E s w of
             (Some e, s1, w1) \<Rightarrow> (Some e, s1, w1)
           | (None, s1, w1) \<Rightarrow> (case db_delete_expired E retentionDays w1 of (r, w2) \<Rightarrow> (r, s1, w2)))"

section \<open>Reading records\<close>

record record_filter =
  flt_UserID :: "int option"
  flt_RequestID :: string
  flt_Query :: string
  flt_ReviewStatus :: string
  flt_From :: "int option"
  flt_To :: "int option"
  flt_Limit :: int
  flt_Offset :: int

record record_summary =
  sum_ID :: string
  sum_ReceivedAt :: int
  sum_RequestID :: string
  sum_ClientRequestID :: string
  sum_UserID :: "int option"
  sum_Username :: string
  sum_Email :: string
  sum_APIKeyID :: "int option"
  sum_APIKeyName :: string
  sum_IdentitySource :: string
  sum_Endpoint :: string
  sum_Protocol :: string
  sum_Model :: string
  sum_Messages :: "user_message list"
  sum_PromptText :: string
  sum_PromptPreview :: string
  sum_PromptSHA256 :: string
  sum_MessageCount :: int
  sum_ParseStatus :: string
  sum_Truncated :: bool
  sum_ExcludedRoleCounts :: role_counts
  sum_ReviewStatus :: string
  sum_Reviewer :: string
  sum_ReviewNote :: string
  sum_ReviewedAt :: "int option"

record list_result =
  lr_Items :: "record_summary list"
  lr_Total :: int
  lr_Limit :: int
  lr_Offset :: int

text \<open>
  \<open>scanRecordSummary\<close> on a row that scans; a nil map is replaced by an empty one.
\<close>

definition scanRecordSummary :: "record_row \<Rightarrow> bool \<Rightarrow> record_summary" where
  "scanRecordSummary row includePrompt =
     \<lparr>sum_ID = col_id row,
      sum_ReceivedAt = col_received_at row,
      sum_RequestID = col_request_id row,
      sum_ClientRequestID = col_client_request_id row,
      sum_UserID = col_user_id row,
      sum_Username = col_username_snapshot row,
      sum_Email = col_email_snapshot row,
      sum_APIKeyID = col_api_key_id row,
      sum_APIKeyName = col_api_key_name_snapshot row,
      sum_IdentitySource = col_identity_source row,
      sum_Endpoint = col_endpoint row,
      sum_Protocol = col_protocol row,
      sum_Model = col_requested_model row,
      sum_Messages = (if includePrompt then col_user_messages_json row else []),
      sum_PromptText = (if includePrompt then col_prompt_text row else []),
      sum_PromptPreview = (if includePrompt then truncateUTF8 (col_prompt_text row) 512 else col_prompt_text row),
      sum_PromptSHA256 = col_prompt_sha256 row,
      sum_MessageCount = col_message_count row,
      sum_ParseStatus = col_parse_status row,
      sum_Truncated = col_truncated row,
      sum_ExcludedRoleCounts = (case col_excluded_role_counts row of None \<Rightarrow> Map.empty | Some m \<Rightarrow> m),
      sum_ReviewStatus = col_review_status row,
      sum_Reviewer = col_reviewer row,
      sum_ReviewNote = col_review_note row,
      sum_ReviewedAt = col_reviewed_at row\<rparr>"

text \<open>
  The WHERE clause under construction: its conditions as texts and the arguments. \<open>add\<close> is the
  closure of \<open>List\<close>; its condition is the text up to the number of the placeholder.
\<close>

type_synonym where_state = "string list \<times> sql_arg list"

definition add_where :: "string \<Rightarrow> sql_arg \<Rightarrow> where_state \<Rightarrow> where_state" where
  "add_where condition arg st =
     (case st of (conds, args) \<Rightarrow>
        let args' = args @ [arg] in (conds @ [condition @ itoa (length args')], args'))"

definition add_query :: "string \<Rightarrow> where_state \<Rightarrow> where_state" where
  "add_query q st =
     (case st of (conds, args) \<Rightarrow>
        let placeholder = itoa (length args + 1)
        in (conds @ [''(prompt_text ILIKE $'' @ placeholder @ '' OR email_snapshot ILIKE $'' @ placeholder
                     @ '' OR username_snapshot ILIKE $'' @ placeholder @ '')''],
            args @ [ArgText (''%'' @ q @ ''%'')]))"

definition build_where :: "record_filter \<Rightarrow> where_state" where
  "build_where f =
     (let st0 = ([''1=1''], []);
          st1 = (case flt_UserID f of None \<Rightarrow> st0 | Some u \<Rightarrow> add_where ''user_id = $'' (ArgInt u) st0);
          st2 = (if flt_RequestID f = [] then st1 else add_where ''request_id = $'' (ArgText (flt_RequestID f)) st1);
          st3 = (if flt_Query f = [] then st2 else add_query (flt_Query f) st2);
          st4 = (case flt_From f of None \<Rightarrow> st3 | Some t \<Rightarrow> add_where ''received_at >= $'' (ArgTime t) st3);
          st5 = (case flt_To f of None \<Rightarrow> st4 | Some t \<Rightarrow> add_where ''received_at < $'' (ArgTime t) st4)
      in if flt_ReviewStatus f = [] then st5
         else add_where ''review_status = $'' (ArgText (to_lower (flt_ReviewStatus f))) st5)"

definition clamp_page :: "record_filter \<Rightarrow> record_filter" where
  "clamp_page f =
     (let f1 = (if flt_Limit f \<le> 0 \<or> 200 < flt_Limit f then f\<lparr>flt_Limit := 50\<rparr> else f);
          f2 = (if flt_Offset f1 < 0 then f1\<lparr>flt_Offset := 0\<rparr> else f1)
      in if 1000000 < flt_Offset f2 then f2\<lparr>flt_Offset := 1000000\<rparr> else f2)"

text \<open>The loop over \<open>rows.Next()\<close>.\<close>

fun scan_page :: "(go_error + record_row) list \<Rightarrow> go_error option \<Rightarrow> go_error + record_summary list" where
  "scan_page [] err = (case err of None \<Rightarrow> Inr [] | Some e \<Rightarrow> Inl e)"
| "scan_page (Inl e # rows) err = Inl e"
| "scan_page (Inr row # rows) err =
     (case scan_page rows err of Inl e \<Rightarrow> Inl e | Inr items \<Rightarrow> Inr (scanRecordSummary row False # items))"

definition List_records ::
    "'w world \<Rightarrow> record_filter \<Rightarrow> store option \<Rightarrow> 'w \<Rightarrow> (go_error + list_result) \<times> store option \<times> 'w" where
  "List_records E filter0 s w =
     (case ensureSchema E s w of
        (Some e, s1, w1) \<Rightarrow> (Inl e, s1, w1)
      | (None, s1, w1) \<Rightarrow>
          let f = clamp_page filter0;
              (conds, args) = build_where f;
              whereSQL = join conds '' AND ''
          in case db_count E whereSQL args w1 of
               (Inl e, w2) \<Rightarrow> (Inl e, s1, w2)
             | (Inr n, w2) \<Rightarrow>
                 (case db_page E whereSQL (length args + 1) (length args + 2)
                         (args @ [ArgInt (flt_Limit f), ArgInt (flt_Offset f)]) w2 of
                    (Inl e, w3) \<Rightarrow> (Inl e, s1, w3)
                  | (Inr (rows, err), w3) \<Rightarrow>
                      (case scan_page rows err of
                         Inl e \<Rightarrow> (Inl e, s1, w3)
                       | Inr items \<Rightarrow>
                           (Inr \<lparr>lr_Items = items, lr_Total = n, lr_Limit = flt_Limit f, lr_Offset = flt_Offset f\<rparr>,
                            s1, w3))))"

definition invalid_id :: go_error where
  "invalid_id = Failure ''invalid record id''"

definition Get :: "'w world \<Rightarrow> string \<Rightarrow> store option \<Rightarrow> 'w \<Rightarrow> (go_error + record_summary) \<times> store option \<times> 'w" where
  "Get E ident s w =
     (case ensureSchema E s w of
        (Some e, s1, w1) \<Rightarrow> (Inl e, s1, w1)
      | (None, s1, w1) \<Rightarrow>
          (case uuid_parse E (trim_space ident) of
             None \<Rightarrow> (Inl invalid_id, s1, w1)
           | Some parsed \<Rightarrow>
               (case db_get E parsed w1 of
                  (Inl e, w2) \<Rightarrow> (Inl e, s1, w2)
                | (Inr row, w2) \<Rightarrow> (Inr (scanRecordSummary row True), s1, w2))))"

section \<open>Reviews\<close>

record review_update =
  upd_Status :: string
  upd_Reviewer :: string
  upd_Note :: string

definition review_statuses :: "string list" where
  "review_statuses = [''pending'', ''approved'', ''flagged'', ''ignored'']"

definition invalid_status :: go_error where
  "invalid_status = Failure ''review_status must be pending, approved, flagged, or ignored''"

definition UpdateReview ::
    "'w world \<Rightarrow> string \<Rightarrow> review_update \<Rightarrow> store option \<Rightarrow> 'w \<Rightarrow> (go_error + record_summary) \<times> store option \<times> 'w" where
  "UpdateReview E ident upd s w =
     (case ensureSchema E s w of
        (Some e, s1, w1) \<Rightarrow> (Inl e, s1, w1)
      | (None, s1, w1) \<Rightarrow>
          (case uuid_parse E (trim_space ident) of
             None \<Rightarrow> (Inl invalid_id, s1, w1)
           | Some parsed \<Rightarrow>
               let status = to_lower (trim_space (upd_Status upd))
               in if \<not> List.member review_statuses status then (Inl invalid_status, s1, w1)
                  else let reviewer = trim_space (upd_Reviewer upd);
                           (reviewedAt, w2) = (if status = ''pending'' then (None, w1)
                                               else case time_now E w1 of (n, w2) \<Rightarrow> (Some n, w2))
                       in case db_review E status reviewer (upd_Note upd) reviewedAt parsed w2 of
                            (Some e, w3) \<Rightarrow> (Inl e, s1, w3)
                          | (None, w3) \<Rightarrow> Get E parsed s1 w3))"

end
