(* ===== verification/Queue.thy ===== *)
theory Queue
  imports Store
begin

text \<open>
  \<open>queue.go\<close>: the bounded queue between the request path and the worker, and the worker that
  persists its records. The operations are given twice: as atomic functions on the queue, and
  as the steps of goroutines on the lock, the flag, the counter and the channel, which the
  theory \<open>Queue_Steps\<close> relates.
\<close>

section \<open>The queue\<close>

text \<open>
  The channel holds \<open>items\<close>, at most \<open>capacity\<close> of them; \<open>dropped\<close> is an
  \<open>atomic.Uint64\<close>, so it wraps around.
\<close>

record record_queue =
  items :: "capture_record list"
  capacity :: nat
  dropped :: "64 word"
  closed :: bool

text \<open>\<open>make(chan CaptureRecord, size)\<close> panics for a negative size.\<close>

definition NewRecordQueue :: "int \<Rightarrow> record_queue outcome" where
  "NewRecordQueue n =
     (if n < 0 then Panic else Return \<lparr>items = [], capacity = nat n, dropped = 0, closed = False\<rparr>)"

definition Enqueue :: "capture_record \<Rightarrow> record_queue \<Rightarrow> bool \<times> record_queue" where
  "Enqueue record q =
     (if closed q then (False, q\<lparr>dropped := dropped q + 1\<rparr>)
      else if length (items q) < capacity q then (True, q\<lparr>items := items q @ [record]\<rparr>)
      else (False, q\<lparr>dropped := dropped q + 1\<rparr>))"

definition Close_queue :: "record_queue \<Rightarrow> record_queue" where
  "Close_queue q = (if \<not> closed q then q\<lparr>closed := True\<rparr> else q)"

definition Dropped :: "record_queue option \<Rightarrow> 64 word" where
  "Dropped q = (case q of None \<Rightarrow> 0 | Some q \<Rightarrow> dropped q)"

section \<open>Persisting a record\<close>

abbreviation milliseconds :: "int \<Rightarrow> int" where
  "milliseconds n \<equiv> n * 1000000"

text \<open>One call of \<open>ResolveRequestID\<close>; it queries the usage log only past its guard.\<close>

definition resolve_once :: "'w world \<Rightarrow> resolver option \<Rightarrow> string \<Rightarrow> 'w \<Rightarrow> identity option \<times> 'w" where
  "resolve_once E r requestID w =
     (case r of
        None \<Rightarrow> (None, w)
      | Some s \<Rightarrow>
          if \<not> has_db s \<or> blank requestID then (None, w)
          else case db_usage E requestID w of (row, w1) \<Rightarrow> (ResolveRequestID r (\<lambda>_. row) requestID, w1))"

text \<open>
  The first loop, with the number of attempts left. \<open>None\<close> for the record is the return on a
  context that is done.
\<close>

fun resolve_attempts ::
    "'w world \<Rightarrow> resolver option \<Rightarrow> nat \<Rightarrow> capture_record \<Rightarrow> 'w \<Rightarrow> capture_record option \<times> 'w" where
  "resolve_attempts E r 0 record w = (Some record, w)"
| "resolve_attempts E r (Suc left) record w =
     (case resolve_once E r (cr_RequestID record) w of
        (Some i, w1) \<Rightarrow> (Some (record\<lparr>cr_Identity := i\<rparr>), w1)
      | (None, w1) \<Rightarrow>
          if left = 0 then (Some record, w1)
          else (case wait_done E (milliseconds 200) w1 of
                  (True, w2) \<Rightarrow> (None, w2)
                | (False, w2) \<Rightarrow> resolve_attempts E r left record w2))"

text \<open>The second loop: attempt number \<open>3 - Suc left\<close>.\<close>

fun insert_attempts :: "'w world \<Rightarrow> capture_record \<Rightarrow> nat \<Rightarrow> store option \<Rightarrow> 'w \<Rightarrow> store option \<times> 'w" where
  "insert_attempts E record 0 s w = (s, w)"
| "insert_attempts E record (Suc left) s w =
     (case Insert E record s w of
        (None, s1, w1) \<Rightarrow> (s1, w1)
      | (Some e, s1, w1) \<Rightarrow>
          if left = 0 then (s1, w1)
          else (case wait_done E (int (3 - left) * milliseconds 250) w1 of
                  (True, w2) \<Rightarrow> (s1, w2)
                | (False, w2) \<Rightarrow> insert_attempts E record left s1 w2))"

definition persist ::
    "'w world \<Rightarrow> resolver option \<Rightarrow> config \<Rightarrow> capture_record \<Rightarrow> store option \<Rightarrow> 'w \<Rightarrow> store option \<times> 'w" where
  "persist E r cfg record s w =
     (case (if r \<noteq> None \<and> \<not> Resolved (cr_Identity record) then resolve_attempts E r 3 record w
            else (Some record, w)) of
        (None, w1) \<Rightarrow> (s, w1)
      | (Some rec1, w1) \<Rightarrow>
          if \<not> Resolved (cr_Identity rec1) \<and> \<not> AllowUnknownIdentity cfg then (s, w1)
          else if cr_MessageCount rec1 = 0 \<and> \<not> CaptureEmptyPrompts cfg then (s, w1)
          else insert_attempts E rec1 3 s w1)"

text \<open>
  The worker on the records in the channel, which is closed: what it leaves in the channel, and
  the state. On a context that is done it returns, and the record it has received is dropped.
\<close>

fun Run ::
    "'w world \<Rightarrow> resolver option \<Rightarrow> config \<Rightarrow> capture_record list \<Rightarrow> store option \<Rightarrow> 'w
     \<Rightarrow> capture_record list \<times> store option \<times> 'w" where
  "Run E r cfg [] s w = ([], s, w)"
| "Run E r cfg (record # recs) s w =
     (case ctx_err E w of
        (True, w1) \<Rightarrow> (recs, s, w1)
      | (False, w1) \<Rightarrow> (case persist E r cfg record s w1 of (s1, w2) \<Rightarrow> Run E r cfg recs s1 w2))"

section \<open>The interface\<close>

text \<open>
  What the producers rely on: an accepted record is added at the end, a refused one is counted
  and changes nothing else, and the size stays within the limit.
\<close>

locale bounded_queue =
  fixes enqueue :: "'r \<Rightarrow> 'q \<Rightarrow> bool \<times> 'q"
    and contents :: "'q \<Rightarrow> 'r list"
    and limit :: "'q \<Rightarrow> nat"
    and lost :: "'q \<Rightarrow> 'c::len word"
  assumes accepted: "enqueue r q = (True, q') \<Longrightarrow>
      contents q' = contents q @ [r] \<and> lost q' = lost q \<and> limit q' = limit q"
    and refused: "enqueue r q = (False, q') \<Longrightarrow>
      contents q' = contents q \<and> lost q' = lost q + 1 \<and> limit q' = limit q"
    and within: "length (contents q) \<le> limit q \<Longrightarrow> enqueue r q = (b, q') \<Longrightarrow> length (contents q') \<le> limit q'"
begin

definition enqueue_all :: "'r list \<Rightarrow> 'q \<Rightarrow> 'q" where
  "enqueue_all rs q = fold (\<lambda>r q. snd (enqueue r q)) rs q"

lemma enqueue_all_Cons: "enqueue_all (r # rs) q = enqueue_all rs (snd (enqueue r q))"
  by (simp add: enqueue_all_def)

text \<open>Every record offered is in the queue or counted as lost; the queue keeps their order.\<close>

lemma enqueue_all_accounts:
  "length (contents q) \<le> limit q \<Longrightarrow>
   \<exists>kept. contents (enqueue_all rs q) = contents q @ kept \<and> subseq kept rs
     \<and> lost (enqueue_all rs q) + of_nat (length kept) = lost q + of_nat (length rs)
     \<and> limit (enqueue_all rs q) = limit q \<and> length (contents (enqueue_all rs q)) \<le> limit q"
proof (induction rs arbitrary: q)
  case Nil
  then show ?case by (simp add: enqueue_all_def)
next
  case (Cons r rs)
  obtain b q1 where e: "enqueue r q = (b, q1)" by (cases "enqueue r q")
  have "length (contents q1) \<le> limit q1" using within [OF Cons.prems e] .
  from Cons.IH [OF this] obtain kept where k: "contents (enqueue_all rs q1) = contents q1 @ kept" "subseq kept rs"
    "lost (enqueue_all rs q1) + of_nat (length kept) = lost q1 + of_nat (length rs)"
    "limit (enqueue_all rs q1) = limit q1" "length (contents (enqueue_all rs q1)) \<le> limit q1" by blast
  show ?case
  proof (cases b)
    case True
    with e accepted [of r q q1] k show ?thesis
      by (intro exI [of _ "r # kept"]) (simp add: enqueue_all_Cons algebra_simps)
  next
    case False
    with e refused [of r q q1] k show ?thesis
      by (intro exI [of _ kept]) (auto simp: enqueue_all_Cons algebra_simps)
  qed
qed

end

interpretation record_q: bounded_queue Enqueue items capacity dropped
  by unfold_locales (auto simp: Enqueue_def split: if_splits)

end
