(* ===== verification/Utf8_Facts.thy ===== *)
theory Utf8_Facts
  imports Go_Text
begin

text \<open>
  Decoding and encoding are inverse on valid UTF-8: the encoding of the rune at the head of a
  string is the bytes it was decoded from.
\<close>


lemma char_of_byte [simp]: "char_of (byte c) = c"
  by (simp add: byte_def)

lemma encode_rune_2: "128 \<le> r \<Longrightarrow> r < 2048 \<Longrightarrow>
   encode_rune r = [char_of (192 + r div 64), char_of (128 + r mod 64)]"
  by (simp add: encode_rune_def)

lemma encode_rune_3: "2048 \<le> r \<Longrightarrow> r < 65536 \<Longrightarrow> r < 55296 \<or> 57343 < r \<Longrightarrow>
   encode_rune r = [char_of (224 + r div 4096), char_of (128 + (r div 64) mod 64), char_of (128 + r mod 64)]"
  by (auto simp: encode_rune_def)

lemma encode_rune_4: "65536 \<le> r \<Longrightarrow> r \<le> 1114111 \<Longrightarrow>
   encode_rune r = [char_of (240 + r div 262144), char_of (128 + (r div 4096) mod 64),
            char_of (128 + (r div 64) mod 64), char_of (128 + r mod 64)]"
  by (simp add: encode_rune_def)

lemma second_byte: "accept_second a b \<Longrightarrow> 128 \<le> b \<and> b \<le> 191"
  by (auto simp: accept_second_def split: if_splits)

lemma digit_div:
  fixes a z :: nat
  assumes "z < 64"
  shows "(a * 64 + z) div 64 = a" "(a * 64 + z) mod 64 = z"
  using assms div_mult_self3 [of 64 a z] mod_mult_self3 [of a 64 z] by simp_all

lemma lead_bits:
  fixes x :: nat
  shows "x < 32 \<Longrightarrow> (192 + x) mod 32 = x" "x < 16 \<Longrightarrow> (224 + x) mod 16 = x" "x \<le> 4 \<Longrightarrow> (240 + x) mod 8 = x"
    "x < 64 \<Longrightarrow> (128 + x) mod 64 = x"
  using mod_mult_self3 [of 6 32 x] mod_mult_self3 [of 14 16 x] mod_mult_self3 [of 30 8 x] mod_mult_self3 [of 2 64 x]
  by simp_all

lemma sum3_div:
  fixes x y z :: nat
  assumes "y < 64" "z < 64"
  shows "(x * 4096 + y * 64 + z) div 4096 = x" "((x * 4096 + y * 64 + z) div 64) mod 64 = y"
    "(x * 4096 + y * 64 + z) mod 64 = z"
proof -
  have eq: "x * 4096 + y * 64 + z = (x * 64 + y) * 64 + z" by simp
  have "(x * 4096 + y * 64 + z) div 4096 = (x * 4096 + y * 64 + z) div 64 div 64"
    by (simp add: div_mult2_eq [symmetric])
  then show "(x * 4096 + y * 64 + z) div 4096 = x" "((x * 4096 + y * 64 + z) div 64) mod 64 = y"
    "(x * 4096 + y * 64 + z) mod 64 = z"
    unfolding eq using assms by (simp_all only: digit_div)
qed

lemma sum4_div:
  fixes x y z u :: nat
  assumes "y < 64" "z < 64" "u < 64"
  shows "(x * 262144 + y * 4096 + z * 64 + u) div 262144 = x"
   "((x * 262144 + y * 4096 + z * 64 + u) div 4096) mod 64 = y"
   "((x * 262144 + y * 4096 + z * 64 + u) div 64) mod 64 = z" "(x * 262144 + y * 4096 + z * 64 + u) mod 64 = u"
proof -
  have eq: "x * 262144 + y * 4096 + z * 64 + u = (x * 4096 + y * 64 + z) * 64 + u" by simp
  have "((x * 4096 + y * 64 + z) * 64 + u) div 262144 = ((x * 4096 + y * 64 + z) * 64 + u) div 64 div 4096"
    "((x * 4096 + y * 64 + z) * 64 + u) div 4096 = ((x * 4096 + y * 64 + z) * 64 + u) div 64 div 64"
    by (simp_all add: div_mult2_eq [symmetric])
  then show "(x * 262144 + y * 4096 + z * 64 + u) div 262144 = x"
   "((x * 262144 + y * 4096 + z * 64 + u) div 4096) mod 64 = y"
   "((x * 262144 + y * 4096 + z * 64 + u) div 64) mod 64 = z" "(x * 262144 + y * 4096 + z * 64 + u) mod 64 = u"
    unfolding eq using assms by (simp_all only: digit_div sum3_div)
qed

lemma encode_decode_rune:
  assumes "s \<noteq> []" "decode_rune s \<noteq> (rune_error, 1)"
  shows "encode_rune (fst (decode_rune s)) = take (snd (decode_rune s)) s"
  using assms
proof (cases rule: decode_rune_cases)
  case (1 c t)
  then show ?thesis by (simp add: encode_rune_def)
next
  case (2 c d t)
  define x where "x = byte c - 192"
  define y where "y = byte d - 128"
  have xy: "byte c = 192 + x" "byte d = 128 + y" "2 \<le> x" "x < 32" "y < 64"
    using 2 second_byte [of "byte c" "byte d"] by (auto simp: x_def y_def)
  have d: "decode_rune s = (x * 64 + y, 2)"
    using 2 xy by (simp add: decode_rune_def seq_len_def lead_bits)
  have "encode_rune (x * 64 + y) = [char_of (192 + x), char_of (128 + y)]"
    using xy by (subst encode_rune_2) auto
  with 2 d xy(1,2) [symmetric] show ?thesis by simp
next
  case (3 c d e t)
  define x where "x = byte c - 224"
  define y where "y = byte d - 128"
  define z where "z = byte e - 128"
  have xy: "byte c = 224 + x" "byte d = 128 + y" "byte e = 128 + z" "x < 16" "y < 64" "z < 64"
    and s: "x = 0 \<Longrightarrow> 32 \<le> y" "x = 13 \<Longrightarrow> y < 32"
    using 3 second_byte [of "byte c" "byte d"] by (auto simp: x_def y_def z_def accept_second_def continuation_def split: if_splits)
  have d: "decode_rune s = (x * 4096 + y * 64 + z, 3)"
    using 3 xy by (simp add: decode_rune_def seq_len_def lead_bits)
  have "x * 4096 + y * 64 + z < 55296 \<or> 57343 < x * 4096 + y * 64 + z" 
    using s(2) xy by (cases "x = 13"; cases "x < 13") auto
  moreover have "2048 \<le> x * 4096 + y * 64 + z" using s(1) xy by (cases "x = 0") auto
  ultimately have "encode_rune (x * 4096 + y * 64 + z) = [char_of (224 + x), char_of (128 + y), char_of (128 + z)]"
    using xy by (subst encode_rune_3) (auto simp: sum3_div)
  with 3 d xy(1,2,3) [symmetric] show ?thesis by simp
next
  case (4 c d e f t)
  define x where "x = byte c - 240"
  define y where "y = byte d - 128"
  define z where "z = byte e - 128"
  define u where "u = byte f - 128"
  have xy: "byte c = 240 + x" "byte d = 128 + y" "byte e = 128 + z" "byte f = 128 + u" "x \<le> 4" "y < 64" "z < 64" "u < 64"
    and s: "x = 0 \<Longrightarrow> 16 \<le> y" "x = 4 \<Longrightarrow> y < 16"
    using 4 second_byte [of "byte c" "byte d"] by (auto simp: x_def y_def z_def u_def accept_second_def continuation_def split: if_splits)
  have d: "decode_rune s = (x * 262144 + y * 4096 + z * 64 + u, 4)"
    using 4 xy by (simp add: decode_rune_def seq_len_def lead_bits)
  have "65536 \<le> x * 262144 + y * 4096 + z * 64 + u" "x * 262144 + y * 4096 + z * 64 + u \<le> 1114111"
    using s xy by (cases "x = 0"; cases "x = 4"; auto)+
  then have "encode_rune (x * 262144 + y * 4096 + z * 64 + u) = [char_of (240 + x), char_of (128 + y), char_of (128 + z), char_of (128 + u)]"
    using xy by (subst encode_rune_4) (auto simp: sum4_div)
  with 4 d xy(1,2,3,4) [symmetric] show ?thesis by simp
qed

lemma map_snd_range_string: "map snd (range_string i s) = map snd (range_string j s)"
proof (induction "length s" arbitrary: i j s rule: less_induct)
  case less
  show ?case
  proof (cases "s = []")
    case False
    then have "length (drop (snd (decode_rune s)) s) < length s"
      using decode_rune_width_pos [OF False] by (cases s) auto
    from less.hyps [OF this] False show ?thesis by (auto simp: range_string_Cons)
  qed simp
qed

lemma runes_Cons: "s \<noteq> [] \<Longrightarrow> runes s = fst (decode_rune s) # runes (drop (snd (decode_rune s)) s)"
  unfolding runes_def by (simp add: range_string_Cons map_snd_range_string [of "snd (decode_rune s)" _ 0])

lemma runes_Nil [simp]: "runes [] = []"
  by (simp add: runes_def)

end
