(* ===== verification/Capture.thy ===== *)
theory Capture
  imports Audit_Copy Queue Utf8_Facts
begin

text \<open>
  The capturing half of \<open>proxy.go\<close>: correlation ids, the choice of requests, reading a body
  without consuming it, and the audit record of a request.
\<close>

section \<open>State\<close>

text \<open>
  The immutable part of a \<open>ProxyServer\<close>; the resolver is the pointer with its current
  directory, \<open>p_target\<close> is the copy of the upstream URL that the reverse proxy was built with, and
  \<open>p_websocket\<close> says whether the WebSocket proxy exists. The store and the queue
  are passed as state.
\<close>

record proxy =
  p_cfg :: config
  p_resolver :: "resolver option"
  p_target :: url
  p_websocket :: bool

text \<open>\<open>NewProxyServer\<close>: the error, or the server. The queue pointer may be nil.\<close>

definition NewProxyServer :: "config \<Rightarrow> resolver option \<Rightarrow> record_queue option \<Rightarrow> string + proxy" where
  "NewProxyServer cfg resolver q =
     (case UpstreamURL cfg of
        None \<Rightarrow> Inl ''upstream URL is not configured''
      | Some u \<Rightarrow>
          if url_Host u = [] then Inl ''upstream URL is not configured''
          else if q = None then Inl ''record queue is not configured''
          else Inr \<lparr>p_cfg = cfg, p_resolver = resolver, p_target = u, p_websocket = EnableWebSocket cfg\<rparr>)"

section \<open>Correlation ids\<close>

definition safe_rune :: "nat \<Rightarrow> bool" where
  "safe_rune r \<longleftrightarrow>
     97 \<le> r \<and> r \<le> 122 \<or> 65 \<le> r \<and> r \<le> 90 \<or> 48 \<le> r \<and> r \<le> 57 \<or> List.member [46, 95, 58, 45] r"

definition correlationID :: "'w world \<Rightarrow> string \<Rightarrow> 'w \<Rightarrow> string \<times> 'w" where
  "correlationID E value w =
     (let v = trim_space value
      in if v = [] \<or> 128 < length v then new_uuid E w
         else if list_ex (\<lambda>r. \<not> safe_rune r) (runes v) then new_uuid E w
         else (v, w))"

section \<open>Choosing requests\<close>

definition shouldCapture :: "config \<Rightarrow> request \<Rightarrow> bool" where
  "shouldCapture cfg r =
     (if req_Method r \<noteq> ''POST'' \<and> req_Method r \<noteq> ''PUT'' \<and> req_Method r \<noteq> ''PATCH'' then False
      else list_ex (\<lambda>p. let prefix1 = trim_right_slash p
                        in req_Path r = prefix1 \<or> prefix (prefix1 @ ''/'') (req_Path r)) (CapturePrefixes cfg))"

definition isWebSocketRequest :: "request \<Rightarrow> bool" where
  "isWebSocketRequest r \<longleftrightarrow>
     equal_fold (trim_space (header_get (req_Header r) ''Upgrade'')) ''websocket''
     \<and> contains (to_lower (header_get (req_Header r) ''Connection'')) ''upgrade''"

section \<open>Reading the body\<close>

text \<open>The encodings and media types that are worth reading.\<close>

definition capturable_headers :: "header \<Rightarrow> bool" where
  "capturable_headers h \<longleftrightarrow>
     (let contentEncoding = trim_space (header_get h ''Content-Encoding'');
          contentType = to_lower (header_get h ''Content-Type'')
      in (contentEncoding = [] \<or> equal_fold contentEncoding ''identity'')
         \<and> (contentType = [] \<or> contains contentType ''json'' \<or> contains contentType ''form-urlencoded''
            \<or> contains contentType ''multipart/form-data''))"

text \<open>
  The results are the captured body (when the flag is set), the flag, and whether reading
  failed; then the request, whose body has been replaced. \<open>maxBytes+1\<close> is 64-bit arithmetic.
\<close>

definition readBodyForCapture :: "request \<Rightarrow> int \<Rightarrow> (string \<times> bool \<times> bool) \<times> request" where
  "readBodyForCapture r maxBytes =
     (case req_Body r of
        None \<Rightarrow> (([], False, False), r)
      | Some original \<Rightarrow>
          if maxBytes \<le> 0 \<or> \<not> capturable_headers (req_Header r) then (([], False, False), r)
          else let limit = wrap64 (maxBytes + 1);
                   (start, err) = read_limited limit original;
                   preserved = multi_reader start (after_read limit original)
               in if err then (([], False, True), r\<lparr>req_Body := Some preserved\<rparr>)
                  else if maxBytes < int (length start) then (([], False, False), r\<lparr>req_Body := Some preserved\<rparr>)
                  else ((start, True, False), r\<lparr>req_Body := Some (bytes_reader start)\<rparr>))"

section \<open>The record of a request\<close>

definition capture_of :: "string \<Rightarrow> int \<Rightarrow> string \<Rightarrow> string \<Rightarrow> identity \<Rightarrow> string \<Rightarrow> extraction \<Rightarrow> capture_record" where
  "capture_of ident receivedAt requestID clientRequestID i path e =
     \<lparr>cr_ID = ident, cr_ReceivedAt = receivedAt, cr_RequestID = requestID, cr_ClientRequestID = clientRequestID,
      cr_Identity = i, cr_Endpoint = path, cr_Protocol = Protocol e, cr_Model = ModelName e,
      cr_Messages = Messages e, cr_PromptText = PromptText e, cr_PromptSHA256 = PromptSHA256 e,
      cr_MessageCount = length (Messages e), cr_ParseStatus = Status e, cr_Truncated = Truncated e,
      cr_ExcludedRoles = ExcludedRoles e\<rparr>"

text \<open>\<open>if extraction.Model == "" { extraction.Model = modelFromPath(path) }\<close>.\<close>

definition with_model :: "string \<Rightarrow> extraction \<Rightarrow> extraction outcome" where
  "with_model path e =
     (if ModelName e = [] then bind_outcome (modelFromPath path) (\<lambda>m. Return (e\<lparr>ModelName := m\<rparr>))
      else Return e)"

definition captureHTTP ::
    "'w world \<Rightarrow> wire_lib \<Rightarrow> proxy \<Rightarrow> request \<Rightarrow> string \<Rightarrow> string \<Rightarrow> int \<Rightarrow> string
     \<Rightarrow> record_queue \<Rightarrow> 'w \<Rightarrow> (record_queue \<times> 'w) outcome" where
  "captureHTTP E lib p r requestID clientRequestID receivedAt body q w =
     bind_outcome
       (with_model (req_Path r)
         (ExtractRequest lib (req_Path r) (header_get (req_Header r) ''Content-Type'') body (MaxPromptBytes (p_cfg p))))
       (\<lambda>e. if Status e = ''unsupported'' \<and> Messages e = [] then Return (q, w)
            else let i = Lookup (p_resolver p) (extractAPIKey (req_Header r));
                     (ident, w1) = new_uuid E w
                 in Return (snd (Enqueue (capture_of ident receivedAt requestID clientRequestID i (req_Path r) e) q), w1))"

section \<open>The WebSocket target\<close>

definition upstreamWebSocketURL :: "url \<Rightarrow> request \<Rightarrow> string" where
  "upstreamWebSocketURL base r =
     (let scheme = (if url_Scheme base = ''http'' then ''ws''
                    else if url_Scheme base = ''https'' then ''wss'' else url_Scheme base);
          basePath = trim_right_slash (url_Path base);
          requestPath = (if \<not> prefix ''/'' (req_Path r) then ''/'' @ req_Path r else req_Path r)
      in url_String (base\<lparr>url_Scheme := scheme, url_Path := basePath @ requestPath, url_RawPath := [],
                          url_RawQuery := req_RawQuery r\<rparr>))"

section \<open>Facts\<close>

text \<open>An upstream of only a scheme, a host and a path.\<close>

definition plain_upstream :: "url \<Rightarrow> bool" where
  "plain_upstream u \<longleftrightarrow> http_url u \<and> url_Opaque u = [] \<and> url_User u = None \<and> \<not> url_ForceQuery u \<and> url_Fragment u = []
     \<and> (url_Path u = [] \<or> prefix ''/'' (url_Path u))"

definition websocket_scheme :: "string \<Rightarrow> string" where
  "websocket_scheme scheme = (if scheme = ''http'' then ''ws'' else ''wss'')"

lemma trim_right_slash_prefix: "prefix (trim_right_slash s) s"
proof -
  have "suffix (dropWhile (\<lambda>c. c = CHR ''/'') (rev s)) (rev s)" by (rule suffix_dropWhile)
  then show ?thesis by (simp add: trim_right_slash_def suffix_to_prefix)
qed

lemma upstreamWebSocketURL_plain:
  assumes "plain_upstream u" and "prefix ''/'' (req_Path r)"
  shows "upstreamWebSocketURL u r = websocket_scheme (url_Scheme u) @ ''://'' @ escape EncodeHost (url_Host u)
    @ escape EncodePath (trim_right_slash (url_Path u) @ req_Path r)
    @ (if req_RawQuery r = [] then [] else ''?'' @ req_RawQuery r)"
proof -
  let ?path = "trim_right_slash (url_Path u) @ req_Path r"
  have "prefix ''/'' (trim_right_slash (url_Path u)) \<or> trim_right_slash (url_Path u) = []"
    using assms(1) trim_right_slash_prefix [of "url_Path u"]
    by (cases "trim_right_slash (url_Path u)") (auto simp: plain_upstream_def prefix_def)
  then have "prefix ''/'' ?path" using assms(2) by (auto simp: prefix_def)
  then obtain t where t: "?path = CHR ''/'' # t" by (auto simp: prefix_def)
  then have "hd (escape EncodePath ?path) = CHR ''/''" "?path \<noteq> ''*''" "?path \<noteq> []"
    using slash_not_escaped by (simp_all add: escape_def escape_byte_def)
  then show ?thesis
    using assms
    by (auto simp: upstreamWebSocketURL_def url_String_def url_start_def escaped_path_def websocket_scheme_def
        plain_upstream_def http_url_def Let_def)
qed

text \<open>Reading never changes what the upstream receives, below the largest 64-bit limit.\<close>

lemma readBodyForCapture_reads:
  assumes "req_Body r = Some b" and "0 < maxBytes" and "capturable_headers (req_Header r)" and "maxBytes < 2 ^ 63 - 1"
  shows "readBodyForCapture r maxBytes =
    (let (start, err) = read_limited (maxBytes + 1) b
     in if err then (([], False, True), r)
        else if maxBytes < int (length start) then (([], False, False), r)
        else ((start, True, False), r\<lparr>req_Body := Some (bytes_reader start)\<rparr>))"
proof -
  have w: "wrap64 (maxBytes + 1) = maxBytes + 1" using assms by (simp add: wrap64_id)
  have "r\<lparr>req_Body := Some b\<rparr> = r" using assms(1) by (cases r) simp
  then show ?thesis
    using assms w by (simp add: readBodyForCapture_def Let_def case_prod_beta)
qed

lemma readBodyForCapture_skips:
  "req_Body r = None \<or> maxBytes \<le> 0 \<or> \<not> capturable_headers (req_Header r) \<Longrightarrow>
     readBodyForCapture r maxBytes = (([], False, False), r)"
  by (cases "req_Body r") (auto simp: readBodyForCapture_def)

lemma read_limited_whole:
  assumes "read_limited (n + 1) b = (start, False)" and "int (length start) \<le> n"
  shows "b = bytes_reader start"
proof -
  have "start = stream_bytes b" using read_limited_all [of "n + 1" b] assms by simp
  moreover from this assms have "\<not> stream_fails b" by (auto simp: read_limited_def Let_def)
  ultimately show ?thesis by (simp add: bytes_reader_def)
qed

lemma readBodyForCapture_transparent:
  assumes "maxBytes < 2 ^ 63 - 1"
  shows "snd (readBodyForCapture r maxBytes) = r"
proof (cases "req_Body r = None \<or> maxBytes \<le> 0 \<or> \<not> capturable_headers (req_Header r)")
  case False
  then obtain b where b: "req_Body r = Some b" by auto
  obtain start err where s: "read_limited (maxBytes + 1) b = (start, err)" by fastforce
  have "r\<lparr>req_Body := Some (bytes_reader start)\<rparr> = r" if "\<not> err" "int (length start) \<le> maxBytes"
    using read_limited_whole [of maxBytes b start] s that b by (cases r) simp
  with False b s assms show ?thesis by (simp add: readBodyForCapture_reads)
qed (simp add: readBodyForCapture_skips)

lemma readBodyForCapture_captured:
  assumes "readBodyForCapture r maxBytes = ((body, True, err), r')" and "maxBytes < 2 ^ 63 - 1"
  shows "req_Body r = Some (bytes_reader body) \<and> int (length body) \<le> maxBytes \<and> \<not> err"
proof -
  have n: "\<not> (req_Body r = None \<or> maxBytes \<le> 0 \<or> \<not> capturable_headers (req_Header r))"
    using assms(1) readBodyForCapture_skips [of r maxBytes] by fastforce
  then obtain b where b: "req_Body r = Some b" by auto
  obtain start e where s: "read_limited (maxBytes + 1) b = (start, e)" by fastforce
  with assms n b have "\<not> e" "start = body" "int (length body) \<le> maxBytes" "\<not> err"
    by (auto simp: readBodyForCapture_reads split: if_splits)
  with read_limited_whole [of maxBytes b start] s b show ?thesis by simp
qed

lemma runes_ascii: "\<forall>r \<in> set (runes s). r < 128 \<Longrightarrow> ascii s \<and> runes s = map byte s"
proof (induction "length s" arbitrary: s rule: less_induct)
  case less
  show ?case
  proof (cases s)
    case (Cons c t)
    let ?n = "snd (decode_rune s)"
    have r: "runes s = fst (decode_rune s) # runes (drop ?n s)" using Cons by (intro runes_Cons) simp
    then have h: "fst (decode_rune s) < 128" using less.prems by simp
    have "decode_rune s \<noteq> (rune_error, 1)" using h by (auto simp: rune_error_def)
    then have "encode_rune (fst (decode_rune s)) = take ?n s" using Cons by (intro encode_decode_rune) simp_all
    then have e: "[char_of (fst (decode_rune s))] = take ?n s" using h by (simp add: encode_rune_def)
    then have "length (take ?n s) = 1" by (metis length_Cons list.size(3) One_nat_def)
    then have n: "?n = 1" using decode_rune_width_le [of s] by simp
    with e Cons have c: "char_of (fst (decode_rune s)) = c" by simp
    then have b: "byte c = fst (decode_rune s)" using h by (auto simp: byte_def)
    have r': "runes s = byte c # runes t" using r n b Cons by simp
    have "\<forall>x \<in> set (runes t). x < 128" using less.prems unfolding r' by simp
    moreover have "length t < length s" using Cons by simp
    ultimately have "ascii t \<and> runes t = map byte t" using less.hyps by blast
    moreover have "byte c < 128" using less.prems unfolding r' by simp
    ultimately show ?thesis using r' by (simp add: Cons)
  qed simp
qed

text \<open>A correlation id always fits its column and is made of safe characters only.\<close>

definition safe_id :: "string \<Rightarrow> bool" where
  "safe_id s \<longleftrightarrow> s \<noteq> [] \<and> length s \<le> 128 \<and> list_all (\<lambda>c. safe_rune (byte c)) s"

lemma canonical_safe: "canonical_uuid u \<Longrightarrow> safe_id u"
  by (auto simp: canonical_uuid_def safe_id_def list_all_length nth_enumerate_eq uuid_byte_def safe_rune_def byte_def
      split: if_splits)

lemma correlationID_cases:
  assumes "correlationID E value w = (v, w')"
  shows "v = fst (new_uuid E w) \<and> w' = snd (new_uuid E w) \<or> v = trim_space value \<and> w' = w \<and> safe_id v"
proof -
  have "safe_id s" if "s \<noteq> []" "length s \<le> 128" "\<forall>r \<in> set (runes s). safe_rune r" for s
  proof -
    have "\<forall>r \<in> set (runes s). r < 128" using that(3) by (auto simp: safe_rune_def)
    from runes_ascii [OF this] that show ?thesis by (simp add: safe_id_def list_all_iff)
  qed
  with assms show ?thesis
    by (auto simp: correlationID_def Let_def list_ex_iff split: if_splits)
qed

lemma safe_id_varchar:
  assumes "safe_id s"
  shows "varchar 128 s"
proof -
  have a: "ascii s" "list_all (\<lambda>c. byte c \<noteq> 0) s"
    using assms by (auto simp: safe_id_def list_all_iff safe_rune_def)
  then have "valid_utf8 s" "runes s = map byte s"
    by (induction s) (auto simp: valid_utf8_step rune_error_def runes_Cons)
  with a assms show ?thesis by (simp add: varchar_def pg_text_def safe_id_def)
qed

end
