(* ===== verification/Response.thy ===== *)
theory Response
  imports Store
begin

text \<open>
  HTTP responses. The body is kept as the value the handler encodes; its bytes are the JSON
  text of that value, an embedded page, or bytes relayed from the upstream.
\<close>

datatype resp_body =
    ErrorMessage string
  | LoginPage
  | AdminPage
  | SessionBody string
  | LoginBody string int
  | LogoutBody
  | HealthBody bool "64 word"
  | ListBody list_result
  | RecordBody record_summary
  | RedirectBody
  | RelayedBody string

record cookie =
  ck_Name :: string
  ck_Value :: string
  ck_Path :: string
  ck_Expires :: int
  ck_MaxAge :: int
  ck_HttpOnly :: bool
  ck_Secure :: bool
  ck_SameSite :: string

record response =
  resp_status :: int
  resp_header :: header
  resp_cookie :: "cookie option"
  resp_body :: resp_body

text \<open>\<open>writeJSONError\<close> and \<open>writeJSON\<close> on the headers set so far.\<close>

definition writeJSONError :: "header \<Rightarrow> int \<Rightarrow> string \<Rightarrow> response" where
  "writeJSONError h status message =
     \<lparr>resp_status = status,
      resp_header = header_set (header_set h ''Content-Type'' ''application/json'') ''Cache-Control'' ''no-store'',
      resp_cookie = None,
      resp_body = ErrorMessage message\<rparr>"

definition writeJSON :: "header \<Rightarrow> int \<Rightarrow> resp_body \<Rightarrow> response" where
  "writeJSON h status value =
     \<lparr>resp_status = status,
      resp_header = header_set (header_set h ''Content-Type'' ''application/json; charset=utf-8'')
                      ''Cache-Control'' ''no-store'',
      resp_cookie = None,
      resp_body = value\<rparr>"

end
