(* ===== verification/Websocket.thy ===== *)
theory Websocket
  imports Capture Response
begin

text \<open>
  \<open>websocket.go\<close>: the WebSocket relay. A connection is described by the frames that are read from
  it before reading fails, and by how many frames can be written to it before writing fails. The
  handler closes both connections at the first error, after which every read and write fails, so
  these numbers include the closing; \<open>Websocket_Steps\<close> has the goroutines and the closing as steps,
  and shows that their runs are those of \<open>ServeWebSocket\<close>. Dialing and upgrading are inputs. The
  message types are those of RFC 6455: 1 for text, 2 for binary.
\<close>

section \<open>Frames\<close>

record frame =
  frame_type :: int
  frame_payload :: string

record connection =
  delivers :: "frame list"
  takes :: nat

text \<open>The record of a text frame, if it is to be stored.\<close>

definition audit_frame ::
    "'w world \<Rightarrow> config \<Rightarrow> string \<Rightarrow> string \<Rightarrow> string \<Rightarrow> identity \<Rightarrow> string
     \<Rightarrow> record_queue \<Rightarrow> 'w \<Rightarrow> (record_queue \<times> 'w) outcome" where
  "audit_frame E cfg path requestID clientRequestID i payload q w =
     bind_outcome (with_model path (ExtractWebSocketMessage path payload (MaxPromptBytes cfg)))
       (\<lambda>e. if Status e \<noteq> ''unsupported'' \<or> Messages e \<noteq> [] then
              (if Status e \<noteq> ''unsupported'' \<or> CaptureEmptyPrompts cfg then
                 let (ident, w1) = new_uuid E w;
                     (receivedAt, w2) = time_now E w1
                 in Return (snd (Enqueue (capture_of ident receivedAt requestID clientRequestID i path e) q), w2)
               else Return (q, w))
            else Return (q, w))"

text \<open>
  \<open>copyClientFrames\<close>: the frames read from the client and the number the upstream still takes.
  The result is the frames written to the upstream, the queue and the world.
\<close>

fun copyClientFrames ::
    "'w world \<Rightarrow> config \<Rightarrow> string \<Rightarrow> string \<Rightarrow> string \<Rightarrow> identity \<Rightarrow> frame list \<Rightarrow> nat
     \<Rightarrow> record_queue \<Rightarrow> 'w \<Rightarrow> (frame list \<times> record_queue \<times> 'w) outcome" where
  "copyClientFrames E cfg path requestID clientRequestID i [] n q w = Return ([], q, w)"
| "copyClientFrames E cfg path requestID clientRequestID i (f # fs) n q w =
     bind_outcome
       (if frame_type f = 1 then audit_frame E cfg path requestID clientRequestID i (frame_payload f) q w
        else Return (q, w))
       (\<lambda>(q1, w1).
          case n of
            0 \<Rightarrow> Return ([], q1, w1)
          | Suc n1 \<Rightarrow>
              bind_outcome (copyClientFrames E cfg path requestID clientRequestID i fs n1 q1 w1)
                (\<lambda>(sent, q2, w2). Return (f # sent, q2, w2)))"

fun copyServerFrames :: "frame list \<Rightarrow> nat \<Rightarrow> frame list" where
  "copyServerFrames [] n = []"
| "copyServerFrames (f # fs) 0 = []"
| "copyServerFrames (f # fs) (Suc n) = f # copyServerFrames fs n"

section \<open>Headers\<close>

definition hop_headers :: "string list" where
  "hop_headers = [''connection'', ''upgrade'', ''sec-websocket-key'', ''sec-websocket-accept'',
     ''sec-websocket-version'', ''sec-websocket-extensions'']"

definition add_values_of :: "string \<times> string list \<Rightarrow> header \<Rightarrow> header" where
  "add_values_of kv result =
     (case kv of (key, values) \<Rightarrow>
        if List.member hop_headers (to_lower key) then result
        else fold (\<lambda>value h. header_add h key value) values result)"

definition cloneWebSocketHeaders :: "header \<Rightarrow> header" where
  "cloneWebSocketHeaders source = fold add_values_of source []"

section \<open>The relay\<close>

text \<open>
  What dialing gives: a failure, with or without a response of the upstream, or a connection
  with the negotiated subprotocol.
\<close>

datatype dial_result = DialError "(int \<times> header \<times> string) option" | Dialed string connection

record ws_session =
  ws_target :: string
  ws_upstream_header :: header
  ws_response :: "response option"
  ws_client_header :: header
  ws_to_upstream :: "frame list"
  ws_to_client :: "frame list"

definition relay_response :: "int \<times> header \<times> string \<Rightarrow> response" where
  "relay_response resp =
     (case resp of (status, h, body) \<Rightarrow>
        \<lparr>resp_status = status,
         resp_header = fold (\<lambda>(key, values). fold (\<lambda>value w. header_add w key value) values) h [],
         resp_cookie = None,
         resp_body = RelayedBody body\<rparr>)"

text \<open>
  \<open>ServeHTTP\<close>: \<open>dial\<close> is the outcome of the dialer for the target and headers it is given,
  \<open>upgrade\<close> the client connection when the upgrade succeeds (\<open>None\<close> is its error). The two
  copying goroutines run until both connections are used up or closed, as they are by \<open>closeBoth\<close>
  when the first of them returns.
\<close>

definition ServeWebSocket ::
    "'w world \<Rightarrow> proxy \<Rightarrow> url \<Rightarrow> (string \<Rightarrow> header \<Rightarrow> dial_result) \<Rightarrow> connection option \<Rightarrow> request
     \<Rightarrow> string \<Rightarrow> string \<Rightarrow> record_queue \<Rightarrow> 'w \<Rightarrow> (ws_session \<times> record_queue \<times> 'w) outcome" where
  "ServeWebSocket E p upstreamURL dial upgrade r requestID clientRequestID q w =
     (let upstreamHeaders = header_set (header_set (cloneWebSocketHeaders (req_Header r)) ''X-Request-ID'' requestID)
                              ''X-Client-Request-ID'' clientRequestID;
          target = upstreamWebSocketURL upstreamURL r;
          ended = \<lparr>ws_target = target, ws_upstream_header = upstreamHeaders, ws_response = None,
                   ws_client_header = [], ws_to_upstream = [], ws_to_client = []\<rparr>
      in case dial target upstreamHeaders of
           DialError (Some resp) \<Rightarrow> Return (ended\<lparr>ws_response := Some (relay_response resp)\<rparr>, q, w)
         | DialError None \<Rightarrow>
             Return (ended\<lparr>ws_response := Some (writeJSONError [] 502 ''upstream websocket unavailable'')\<rparr>, q, w)
         | Dialed subprotocol upstream \<Rightarrow>
             let client_header = (if subprotocol \<noteq> [] then header_set [] ''Sec-WebSocket-Protocol'' subprotocol else [])
             in case upgrade of
                  None \<Rightarrow> Return (ended\<lparr>ws_client_header := client_header\<rparr>, q, w)
                | Some client \<Rightarrow>
                    let i = Lookup (p_resolver p) (extractAPIKey (req_Header r))
                    in bind_outcome
                         (copyClientFrames E (p_cfg p) (req_Path r) requestID clientRequestID i (delivers client)
                            (takes upstream) q w)
                         (\<lambda>(sent, q1, w1).
                            Return (ended\<lparr>ws_client_header := client_header, ws_to_upstream := sent,
                                          ws_to_client := copyServerFrames (delivers upstream) (takes client)\<rparr>, q1, w1)))"

section \<open>Facts\<close>

lemma copyServerFrames_take: "copyServerFrames fs n = take n fs"
  by (induction fs n rule: copyServerFrames.induct) simp_all

lemma with_model_returns: "ascii path \<Longrightarrow> \<exists>m. with_model path e = Return (e\<lparr>ModelName := m\<rparr>)"
  using modelFromPath_ascii_returns [of path]
  by (cases "ModelName e = []") (auto simp: with_model_def intro: exI [of _ "ModelName e"])

lemma audit_frame_returns: "ascii path \<Longrightarrow> \<exists>q' w'. audit_frame E cfg path a b i payload q w = Return (q', w')"
  using with_model_returns [of path "ExtractWebSocketMessage path payload (MaxPromptBytes cfg)"]
  by (auto simp: audit_frame_def Let_def split: prod.split)

lemma copyClientFrames_returns:
  assumes "ascii path"
  shows "\<exists>q' w'. copyClientFrames E cfg path a b i fs n q w = Return (take n fs, q', w')"
proof (induction fs arbitrary: n q w)
  case (Cons f fs)
  obtain q1 w1 where a: "(if frame_type f = 1 then audit_frame E cfg path a b i (frame_payload f) q w else Return (q, w))
      = Return (q1, w1)"
    using audit_frame_returns [OF assms, of E cfg a b i "frame_payload f" q w] by (cases "frame_type f = 1") auto
  show ?case
  proof (cases n)
    case (Suc n1)
    obtain q2 w2 where "copyClientFrames E cfg path a b i fs n1 q1 w1 = Return (take n1 fs, q2, w2)"
      using Cons.IH by blast
    then show ?thesis unfolding copyClientFrames.simps a Suc by simp
  qed (simp only: copyClientFrames.simps a bind_outcome.simps prod.case nat.case take_0, blast)
qed simp

text \<open>A header map as Go builds it: canonical keys, each once, with ASCII names.\<close>

definition canonical_header :: "header \<Rightarrow> bool" where
  "canonical_header h \<longleftrightarrow> distinct (map fst h) \<and> list_all (\<lambda>(k, vs). canonical_key k = k) h"

lemma header_values_cong: "canonical_key k' = canonical_key k \<Longrightarrow> header_values h k' = header_values h k"
  by (simp add: header_values_def)

lemma header_values_add_values:
  "header_values (fold (\<lambda>value h. header_add h k value) vs h) k' =
     (if canonical_key k' = canonical_key k then header_values h k @ vs else header_values h k')"
  by (induction vs arbitrary: h) (auto simp: header_values_add intro: header_values_cong)

lemma clone_values:
  assumes "canonical_header source"
  shows "header_values (fold add_values_of source h) k' =
    header_values h k' @ (case map_of source (canonical_key k') of
       None \<Rightarrow> [] | Some vs \<Rightarrow> if to_lower (canonical_key k') \<in> set hop_headers then [] else vs)"
  using assms
proof (induction source arbitrary: h)
  case (Cons kv source)
  obtain k vs where kv: "kv = (k, vs)" by (cases kv)
  have k: "canonical_key k = k" "k \<notin> fst ` set source" "canonical_header source"
    using Cons.prems kv by (auto simp: canonical_header_def)
  then have "map_of source k = None" by (simp add: map_of_eq_None_iff)
  moreover have "header_values (add_values_of (k, vs) h) k' =
      header_values h k' @ (if canonical_key k' = k \<and> to_lower k \<notin> set hop_headers then vs else [])"
    using k(1) header_values_cong [of k' k h] by (simp add: add_values_of_def header_values_add_values)
  ultimately show ?case using Cons.IH [OF k(3)] kv by simp
qed simp

end
