(* ===== verification/Auth.thy ===== *)
theory Auth
  imports Store
begin

text \<open>
  \<open>auth.go\<close>: the administrators of the audit console and their sessions. Random bytes, bcrypt
  and the statements are calls of \<open>World\<close>; base64, SHA-256 and hexadecimal are computed.
\<close>

section \<open>Secrets\<close>

text \<open>\<open>base64.RawURLEncoding\<close>: six bits a character, no padding.\<close>

definition base64_char :: "nat \<Rightarrow> char" where
  "base64_char n =
     (if n < 26 then char_of (65 + n) else if n < 52 then char_of (71 + n)
      else if n < 62 then char_of (n - 4) else if n = 62 then CHR ''-'' else CHR ''_'')"

fun base64_raw_url :: "string \<Rightarrow> string" where
  "base64_raw_url (a # b # c # s) =
     [base64_char (byte a div 4), base64_char ((byte a mod 4) * 16 + byte b div 16),
      base64_char ((byte b mod 16) * 4 + byte c div 64), base64_char (byte c mod 64)] @ base64_raw_url s"
| "base64_raw_url [a, b] =
     [base64_char (byte a div 4), base64_char ((byte a mod 4) * 16 + byte b div 16),
      base64_char ((byte b mod 16) * 4)]"
| "base64_raw_url [a] = [base64_char (byte a div 4), base64_char ((byte a mod 4) * 16)]"
| "base64_raw_url [] = []"

definition adminPasswordCost :: nat where
  "adminPasswordCost = 12"

definition defaultAdminSessionTTL :: int where
  "defaultAdminSessionTTL = seconds 43200"

definition generateAdminPassword :: "'w world \<Rightarrow> 'w \<Rightarrow> (go_error + string) \<times> 'w" where
  "generateAdminPassword E w =
     (case rand_read E 24 w of
        (Inl e, w1) \<Rightarrow> (Inl (Wrapped ''generate admin password: '' e), w1)
      | (Inr bytes, w1) \<Rightarrow> (Inr (base64_raw_url bytes), w1))"

definition generateSessionToken :: "'w world \<Rightarrow> 'w \<Rightarrow> (go_error + string) \<times> 'w" where
  "generateSessionToken E w =
     (case rand_read E 32 w of
        (Inl e, w1) \<Rightarrow> (Inl (Wrapped ''generate admin session token: '' e), w1)
      | (Inr bytes, w1) \<Rightarrow> (Inr (base64_raw_url bytes), w1))"

definition hashSessionToken :: "string \<Rightarrow> string" where
  "hashSessionToken token = hex_encode (sha256 token)"

definition hashAdminPassword :: "'w world \<Rightarrow> string \<Rightarrow> 'w \<Rightarrow> (go_error + string) \<times> 'w" where
  "hashAdminPassword E password w =
     (if password = [] then (Inl (Failure ''admin password is empty''), w)
      else case bcrypt_generate E password adminPasswordCost w of
             (Inl e, w1) \<Rightarrow> (Inl (Wrapped ''hash admin password: '' e), w1)
           | (Inr hash, w1) \<Rightarrow> (Inr hash, w1))"

section \<open>Administrators\<close>

definition EnsureAdminHash ::
    "'w world \<Rightarrow> string \<Rightarrow> string \<Rightarrow> store option \<Rightarrow> 'w \<Rightarrow> (go_error + bool) \<times> store option \<times> 'w" where
  "EnsureAdminHash E username0 passwordHash s w =
     (case ensureSchema E s w of
        (Some e, s1, w1) \<Rightarrow> (Inl e, s1, w1)
      | (None, s1, w1) \<Rightarrow>
          let username = trim_space username0
          in if username = [] then (Inl (Failure ''admin username is empty''), s1, w1)
             else if passwordHash = [] then (Inl (Failure ''admin password hash is empty''), s1, w1)
             else case db_insert_admin E username passwordHash w1 of
                    (Inl e, w2) \<Rightarrow> if is_no_rows e then (Inr False, s1, w2) else (Inl e, s1, w2)
                  | (Inr inserted, w2) \<Rightarrow> (Inr (inserted \<noteq> []), s1, w2))"

definition EnsureAdmin ::
    "'w world \<Rightarrow> string \<Rightarrow> string \<Rightarrow> store option \<Rightarrow> 'w \<Rightarrow> (go_error + bool) \<times> store option \<times> 'w" where
  "EnsureAdmin E username password s w =
     (case hashAdminPassword E password w of
        (Inl e, w1) \<Rightarrow> (Inl e, s, w1)
      | (Inr hash, w1) \<Rightarrow> EnsureAdminHash E username hash s w1)"

definition AuthenticateAdmin ::
    "'w world \<Rightarrow> string \<Rightarrow> string \<Rightarrow> store option \<Rightarrow> 'w \<Rightarrow> (go_error + bool) \<times> store option \<times> 'w" where
  "AuthenticateAdmin E username0 password s w =
     (case ensureSchema E s w of
        (Some e, s1, w1) \<Rightarrow> (Inl e, s1, w1)
      | (None, s1, w1) \<Rightarrow>
          let username = trim_space username0
          in if username = [] \<or> password = [] then (Inr False, s1, w1)
             else case db_password E username w1 of
                    (Inl e, w2) \<Rightarrow> if is_no_rows e then (Inr False, s1, w2) else (Inl e, s1, w2)
                  | (Inr passwordHash, w2) \<Rightarrow>
                      if \<not> bcrypt_compare E passwordHash password then (Inr False, s1, w2)
                      else (case db_touch_login E username w2 of
                              (Some e, w3) \<Rightarrow> (Inl e, s1, w3)
                            | (None, w3) \<Rightarrow> (Inr True, s1, w3)))"

section \<open>Sessions\<close>

text \<open>The loop of \<open>CreateAdminSession\<close>, with the number of attempts left.\<close>

fun session_attempts :: "'w world \<Rightarrow> string \<Rightarrow> int \<Rightarrow> nat \<Rightarrow> 'w \<Rightarrow> (go_error + string \<times> int) \<times> 'w" where
  "session_attempts E username ttl 0 w = (Inl (Failure ''create admin session failed''), w)"
| "session_attempts E username ttl (Suc left) w =
     (case generateSessionToken E w of
        (Inl e, w1) \<Rightarrow> (Inl e, w1)
      | (Inr token, w1) \<Rightarrow>
          (case time_now E w1 of (n, w2) \<Rightarrow>
             let expiresAt = n + ttl
             in case db_insert_session E (hashSessionToken token) username expiresAt w2 of
                  (None, w3) \<Rightarrow> (Inr (token, expiresAt), w3)
                | (Some e, w3) \<Rightarrow>
                    if left = 0 then (Inl e, w3) else session_attempts E username ttl left w3))"

definition CreateAdminSession ::
    "'w world \<Rightarrow> string \<Rightarrow> int \<Rightarrow> store option \<Rightarrow> 'w \<Rightarrow> (go_error + string \<times> int) \<times> store option \<times> 'w" where
  "CreateAdminSession E username0 ttl0 s w =
     (case ensureSchema E s w of
        (Some e, s1, w1) \<Rightarrow> (Inl e, s1, w1)
      | (None, s1, w1) \<Rightarrow>
          let username = trim_space username0;
              ttl = (if ttl0 \<le> 0 then defaultAdminSessionTTL else ttl0)
          in if username = [] then (Inl (Failure ''admin username is empty''), s1, w1)
             else case session_attempts E username ttl 3 w1 of (r, w2) \<Rightarrow> (r, s1, w2))"

text \<open>The results are the user name and whether the session is valid.\<close>

definition ValidateAdminSession ::
    "'w world \<Rightarrow> string \<Rightarrow> store option \<Rightarrow> 'w \<Rightarrow> (go_error + string \<times> bool) \<times> store option \<times> 'w" where
  "ValidateAdminSession E token0 s w =
     (case ensureSchema E s w of
        (Some e, s1, w1) \<Rightarrow> (Inl e, s1, w1)
      | (None, s1, w1) \<Rightarrow>
          let token = trim_space token0
          in if token = [] then (Inr ([], False), s1, w1)
             else case db_session E (hashSessionToken token) w1 of
                    (Inl e, w2) \<Rightarrow> if is_no_rows e then (Inr ([], False), s1, w2) else (Inl e, s1, w2)
                  | (Inr username, w2) \<Rightarrow>
                      (Inr (username, True), s1, snd (db_touch_session E (hashSessionToken token) w2)))"

definition DeleteAdminSession ::
    "'w world \<Rightarrow> string \<Rightarrow> store option \<Rightarrow> 'w \<Rightarrow> go_error option \<times> store option \<times> 'w" where
  "DeleteAdminSession E token0 s w =
     (case ensureSchema E s w of
        (Some e, s1, w1) \<Rightarrow> (Some e, s1, w1)
      | (None, s1, w1) \<Rightarrow>
          let token = trim_space token0
          in if token = [] then (None, s1, w1)
             else case db_delete_session E (hashSessionToken token) w1 of (r, w2) \<Rightarrow> (r, s1, w2))"

definition DeleteExpiredAdminSessions :: "'w world \<Rightarrow> store option \<Rightarrow> 'w \<Rightarrow> go_error option \<times> store option \<times> 'w" where
  "DeleteExpiredAdminSessions E s w =
     (case ensureSchema E s w of
        (Some e, s1, w1) \<Rightarrow> (Some e, s1, w1)
      | (None, s1, w1) \<Rightarrow> (case db_expire_sessions E w1 of (r, w2) \<Rightarrow> (r, s1, w2)))"

section \<open>Facts on the encoding\<close>

definition url_safe :: "char \<Rightarrow> bool" where
  "url_safe c \<longleftrightarrow>
     (let b = byte c in 48 \<le> b \<and> b \<le> 57 \<or> 65 \<le> b \<and> b \<le> 90 \<or> 97 \<le> b \<and> b \<le> 122 \<or> b = 45 \<or> b = 95)"

lemma base64_char_safe: "url_safe (base64_char n)"
proof -
  have "byte (CHR ''-'') = 45" "byte (CHR ''_'') = 95" by (simp_all add: byte_def)
  then show ?thesis by (auto simp: url_safe_def base64_char_def byte_char_of Let_def)
qed

lemma length_base64: "length (base64_raw_url s) = (length s * 8 + 5) div 6"
  by (induction s rule: base64_raw_url.induct) auto

lemma base64_safe: "list_all url_safe (base64_raw_url s)"
  by (induction s rule: base64_raw_url.induct) (simp_all add: base64_char_safe)

end
