(* ===== verification/Admin.thy ===== *)
theory Admin
  imports Auth Queue Response Json Capture Go_Query Go_Time
begin

text \<open>
  \<open>admin.go\<close>: the health check and the administration handlers. The limits of the runtime on
  cookies and query parameters are arguments (\<open>admin_lib\<close>); JSON payloads are decoded with the
  decoder of \<open>Json\<close>.
\<close>

record admin_lib =
  max_cookies :: "nat option"
  max_params :: "nat option"

definition adminSessionCookieName :: string where
  "adminSessionCookieName = ''prompt_audit_session''"

section \<open>Health\<close>

definition handleHealth ::
    "'w world \<Rightarrow> request \<Rightarrow> record_queue option \<Rightarrow> store option \<Rightarrow> 'w \<Rightarrow> response \<times> store option \<times> 'w" where
  "handleHealth E r q s w =
     (if req_Method r \<noteq> ''GET'' then
        (writeJSONError (header_set [] ''Allow'' ''GET'') 405 ''method not allowed'', s, w)
      else let n = Dropped q
           in if s = None then (writeJSON [] 503 (HealthBody False n), s, w)
              else case Ping E s w of
                     (None, s1, w1) \<Rightarrow> (writeJSON [] 200 (HealthBody True n), s1, w1)
                   | (Some e, s1, w1) \<Rightarrow> (writeJSON [] 503 (HealthBody False n), s1, w1))"

section \<open>Authentication\<close>

definition bearerToken :: "header \<Rightarrow> string" where
  "bearerToken h =
     (case split_space_2 (trim_space (header_get h ''Authorization'')) of
        [scheme, rest] \<Rightarrow>
          if equal_fold scheme ''Bearer'' then trim_space rest
          else trim_space (header_get h ''X-Prompt-Audit-Admin-Token'')
      | _ \<Rightarrow> trim_space (header_get h ''X-Prompt-Audit-Admin-Token''))"

text \<open>\<open>subtle.ConstantTimeCompare\<close> is equality of the two byte strings.\<close>

definition authenticateAdmin ::
    "'w world \<Rightarrow> admin_lib \<Rightarrow> config \<Rightarrow> request \<Rightarrow> store option \<Rightarrow> 'w \<Rightarrow> (go_error + string \<times> bool) \<times> store option \<times> 'w" where
  "authenticateAdmin E lib cfg r s w =
     (if AdminToken cfg \<noteq> [] \<and> bearerToken (req_Header r) \<noteq> [] \<and> bearerToken (req_Header r) = AdminToken cfg
      then (Inr (''token'', True), s, w)
      else if s = None then (Inr ([], False), s, w)
      else case request_cookie (max_cookies lib) (req_Header r) adminSessionCookieName of
             None \<Rightarrow> (Inr ([], False), s, w)
           | Some value \<Rightarrow> ValidateAdminSession E value s w)"

section \<open>Cookies and redirects\<close>

definition isSecureRequest :: "request \<Rightarrow> bool" where
  "isSecureRequest r \<longleftrightarrow>
     req_TLS r \<or> equal_fold (trim_space (header_get (req_Header r) ''X-Forwarded-Proto'')) ''https''"

definition setAdminSessionCookie :: "'w world \<Rightarrow> request \<Rightarrow> string \<Rightarrow> int \<Rightarrow> 'w \<Rightarrow> cookie \<times> 'w" where
  "setAdminSessionCookie E r token expiresAt w =
     (case time_now E w of (n, w1) \<Rightarrow>
        let maxAge0 = (expiresAt - n) div seconds 1;
            maxAge = (if maxAge0 < 1 then 1 else maxAge0)
        in (\<lparr>ck_Name = adminSessionCookieName, ck_Value = token, ck_Path = ''/admin'', ck_Expires = expiresAt,
             ck_MaxAge = maxAge, ck_HttpOnly = True, ck_Secure = isSecureRequest r, ck_SameSite = ''Lax''\<rparr>, w1))"

definition clearAdminSessionCookie :: "request \<Rightarrow> cookie" where
  "clearAdminSessionCookie r =
     \<lparr>ck_Name = adminSessionCookieName, ck_Value = [], ck_Path = ''/admin'', ck_Expires = seconds 1,
      ck_MaxAge = -1, ck_HttpOnly = True, ck_Secure = isSecureRequest r, ck_SameSite = ''Lax''\<rparr>"

text \<open>\<open>http.Redirect\<close> of a GET request to a clean local path; every caller has checked the method.\<close>

definition redirect :: "string \<Rightarrow> response" where
  "redirect location =
     \<lparr>resp_status = 302,
      resp_header = header_set (header_set [] ''Location'' location) ''Content-Type'' ''text/html; charset=utf-8'',
      resp_cookie = None, resp_body = RedirectBody\<rparr>"

definition redirectToLogin :: "string \<Rightarrow> response" where
  "redirectToLogin next0 =
     (let next = (if \<not> prefix ''/'' next0 \<or> prefix ''//'' next0 then ''/admin/ui'' else next0)
      in redirect (''/admin/login?next='' @ query_escape next))"

text \<open>The two guards: the response that ends the request, or \<open>None\<close> to go on.\<close>

definition auth_unavailable :: response where
  "auth_unavailable = writeJSONError [] 503 ''admin authentication unavailable''"

definition login_required :: response where
  "login_required =
     writeJSONError (header_set [] ''WWW-Authenticate'' (''Bearer realm='' @ [dquote] @ ''prompt-audit'' @ [dquote])) 401
       ''admin login required''"

definition requireAdminPage ::
    "'w world \<Rightarrow> admin_lib \<Rightarrow> config \<Rightarrow> request \<Rightarrow> store option \<Rightarrow> 'w \<Rightarrow> response option \<times> store option \<times> 'w" where
  "requireAdminPage E lib cfg r s w =
     (case authenticateAdmin E lib cfg r s w of
        (Inl e, s1, w1) \<Rightarrow> (Some auth_unavailable, s1, w1)
      | (Inr (u, ok), s1, w1) \<Rightarrow> (if \<not> ok then Some (redirectToLogin (request_uri r)) else None, s1, w1))"

definition requireAdminAPI ::
    "'w world \<Rightarrow> admin_lib \<Rightarrow> config \<Rightarrow> request \<Rightarrow> store option \<Rightarrow> 'w \<Rightarrow> response option \<times> store option \<times> 'w" where
  "requireAdminAPI E lib cfg r s w =
     (case authenticateAdmin E lib cfg r s w of
        (Inl e, s1, w1) \<Rightarrow> (Some auth_unavailable, s1, w1)
      | (Inr (u, ok), s1, w1) \<Rightarrow> (if \<not> ok then Some login_required else None, s1, w1))"

section \<open>Payloads\<close>

text \<open>
  \<open>json.Decoder\<close> with \<open>DisallowUnknownFields\<close> on at most 64 KiB, into a struct of strings: the
  first value of the text, fields by exact name or else under case folding, the last of equal
  fields wins, null leaves a field alone. What follows a closing brace is not read; the end of
  a bare null is seen at the next byte or at a clean end of the body.
\<close>

definition field_for :: "string list \<Rightarrow> string \<Rightarrow> string option" where
  "field_for names key =
     (if List.member names key then Some key else find (\<lambda>f. equal_fold key f) names)"

fun set_fields :: "string list \<Rightarrow> json_object \<Rightarrow> (string \<Rightarrow> string) \<Rightarrow> (string \<Rightarrow> string) option" where
  "set_fields names [] vals = Some vals"
| "set_fields names ((key, v) # members) vals =
     (case field_for names key of
        None \<Rightarrow> None
      | Some f \<Rightarrow>
          (case v of
             JString str \<Rightarrow> set_fields names members (vals(f := str))
           | JNull \<Rightarrow> set_fields names members vals
           | _ \<Rightarrow> None))"

definition decode_strings :: "string list \<Rightarrow> stream option \<Rightarrow> (string \<Rightarrow> string) option" where
  "decode_strings names body =
     (let bytes = (case body of None \<Rightarrow> [] | Some b \<Rightarrow> take 65536 (stream_bytes b));
          clean = (case body of None \<Rightarrow> True | Some b \<Rightarrow> length (stream_bytes b) \<le> 65536 \<and> \<not> stream_fails b)
      in case parse_value (2 * length bytes + 2) 0 bytes of
           Inr (JObject members, rest) \<Rightarrow> set_fields names (rev members) (\<lambda>_. [])
         | Inr (JNull, rest) \<Rightarrow> if rest \<noteq> [] \<or> clean then Some (\<lambda>_. []) else None
         | _ \<Rightarrow> None)"

section \<open>Login and logout\<close>

definition html_page :: "resp_body \<Rightarrow> response" where
  "html_page b =
     \<lparr>resp_status = 200,
      resp_header = header_set (header_set [] ''Content-Type'' ''text/html; charset=utf-8'') ''Cache-Control'' ''no-store'',
      resp_cookie = None, resp_body = b\<rparr>"

definition serveLogin ::
    "'w world \<Rightarrow> admin_lib \<Rightarrow> config \<Rightarrow> request \<Rightarrow> store option \<Rightarrow> 'w \<Rightarrow> response \<times> store option \<times> 'w" where
  "serveLogin E lib cfg r s w =
     (case authenticateAdmin E lib cfg r s w of
        (Inr (u, True), s1, w1) \<Rightarrow> (redirect ''/admin/ui'', s1, w1)
      | (_, s1, w1) \<Rightarrow> (html_page LoginPage, s1, w1))"

definition loginAdmin ::
    "'w world \<Rightarrow> config \<Rightarrow> request \<Rightarrow> store option \<Rightarrow> 'w \<Rightarrow> response \<times> store option \<times> 'w" where
  "loginAdmin E cfg r s w =
     (if s = None then (auth_unavailable, s, w)
      else case decode_strings [''username'', ''password''] (req_Body r) of
             None \<Rightarrow> (writeJSONError [] 400 ''invalid login payload'', s, w)
           | Some payload \<Rightarrow>
               (case AuthenticateAdmin E (payload ''username'') (payload ''password'') s w of
                  (Inl e, s1, w1) \<Rightarrow> (auth_unavailable, s1, w1)
                | (Inr False, s1, w1) \<Rightarrow> (writeJSONError [] 401 ''invalid username or password'', s1, w1)
                | (Inr True, s1, w1) \<Rightarrow>
                    (case CreateAdminSession E (payload ''username'') (AdminSessionTTL cfg) s1 w1 of
                       (Inl e, s2, w2) \<Rightarrow> (writeJSONError [] 503 ''could not create admin session'', s2, w2)
                     | (Inr (token, expiresAt), s2, w2) \<Rightarrow>
                         (case setAdminSessionCookie E r token expiresAt w2 of (c, w3) \<Rightarrow>
                            ((writeJSON [] 200 (LoginBody (trim_space (payload ''username'')) expiresAt))\<lparr>resp_cookie := Some c\<rparr>,
                             s2, w3)))))"

definition logoutAdmin ::
    "'w world \<Rightarrow> admin_lib \<Rightarrow> request \<Rightarrow> store option \<Rightarrow> 'w \<Rightarrow> response \<times> store option \<times> 'w" where
  "logoutAdmin E lib r s w =
     (let (s1, w1) = (case request_cookie (max_cookies lib) (req_Header r) adminSessionCookieName of
                        None \<Rightarrow> (s, w)
                      | Some value \<Rightarrow> if s = None then (s, w) else snd (DeleteAdminSession E value s w))
      in ((writeJSON [] 200 LogoutBody)\<lparr>resp_cookie := Some (clearAdminSessionCookie r)\<rparr>, s1, w1))"

section \<open>Records\<close>

definition parsePositiveInt :: "string \<Rightarrow> int \<Rightarrow> int" where
  "parsePositiveInt value fallback =
     (case parse_int64 (trim_space value) of
        None \<Rightarrow> fallback | Some parsed \<Rightarrow> if parsed \<le> 0 then fallback else parsed)"

definition parseNonNegativeInt :: "string \<Rightarrow> int \<Rightarrow> int" where
  "parseNonNegativeInt value fallback =
     (case parse_int64 (trim_space value) of
        None \<Rightarrow> fallback | Some parsed \<Rightarrow> if parsed < 0 then fallback else parsed)"

text \<open>The inner option is the nil pointer, the outer one the error.\<close>

definition parseTimeQuery :: "string \<Rightarrow> int option option" where
  "parseTimeQuery value =
     (let v = trim_space value
      in if v = [] then Some None
         else case parse_rfc3339 v of None \<Rightarrow> None | Some t \<Rightarrow> Some (Some t))"

text \<open>The filter of a request, or the message of the error it is answered with.\<close>

definition parse_filter :: "admin_lib \<Rightarrow> request \<Rightarrow> string + record_filter" where
  "parse_filter lib r =
     (let get = query_get (max_params lib) (req_RawQuery r);
          limit0 = parsePositiveInt (get ''limit'') 25;
          f0 = \<lparr>flt_UserID = None, flt_RequestID = trim_space (get ''request_id''), flt_Query = trim_space (get ''q''),
                flt_ReviewStatus = trim_space (get ''review_status''), flt_From = None, flt_To = None,
                flt_Limit = (if 200 < limit0 then 200 else limit0),
                flt_Offset = parseNonNegativeInt (get ''offset'') 0\<rparr>
      in if 256 < length (flt_Query f0) then Inl ''q is too long''
         else let f1 = (if flt_ReviewStatus f0 = [] then f0
                        else f0\<lparr>flt_ReviewStatus := to_lower (flt_ReviewStatus f0)\<rparr>)
         in if flt_ReviewStatus f1 \<noteq> [] \<and> \<not> List.member review_statuses (flt_ReviewStatus f1)
            then Inl ''invalid review_status''
         else let value = trim_space (get ''user_id'')
         in case (if value = [] then Inr None
                  else case parse_int64 value of
                         None \<Rightarrow> Inl ''invalid user_id''
                       | Some u \<Rightarrow> if u \<le> 0 then Inl ''invalid user_id'' else Inr (Some u)) of
              Inl e \<Rightarrow> Inl e
            | Inr user \<Rightarrow>
                (case parseTimeQuery (get ''from'') of
                   None \<Rightarrow> Inl ''invalid from timestamp''
                 | Some from \<Rightarrow>
                     (case parseTimeQuery (get ''to'') of
                        None \<Rightarrow> Inl ''invalid to timestamp''
                      | Some to_time \<Rightarrow> Inr (f1\<lparr>flt_UserID := user, flt_From := from, flt_To := to_time\<rparr>))))"

definition listRecords ::
    "'w world \<Rightarrow> admin_lib \<Rightarrow> request \<Rightarrow> store option \<Rightarrow> 'w \<Rightarrow> response \<times> store option \<times> 'w" where
  "listRecords E lib r s w =
     (case parse_filter lib r of
        Inl message \<Rightarrow> (writeJSONError [] 400 message, s, w)
      | Inr f \<Rightarrow>
          (case List_records E f s w of
             (Inl e, s1, w1) \<Rightarrow> (writeJSONError [] 500 ''failed to list records'', s1, w1)
           | (Inr result, s1, w1) \<Rightarrow> (writeJSON [] 200 (ListBody result), s1, w1)))"

text \<open>How \<open>getRecord\<close> and \<open>updateRecord\<close> answer the result of the store.\<close>

definition record_response :: "go_error + record_summary \<Rightarrow> response" where
  "record_response x =
     (case x of
        Inl e \<Rightarrow> if is_no_rows e then writeJSONError [] 404 ''record not found''
                 else writeJSONError [] 400 (error_text e)
      | Inr item \<Rightarrow> writeJSON [] 200 (RecordBody item))"

definition getRecord :: "'w world \<Rightarrow> string \<Rightarrow> store option \<Rightarrow> 'w \<Rightarrow> response \<times> store option \<times> 'w" where
  "getRecord E ident s w = (case Get E ident s w of (x, s1, w1) \<Rightarrow> (record_response x, s1, w1))"

definition updateRecord ::
    "'w world \<Rightarrow> request \<Rightarrow> string \<Rightarrow> store option \<Rightarrow> 'w \<Rightarrow> response \<times> store option \<times> 'w" where
  "updateRecord E r ident s w =
     (case decode_strings [''review_status'', ''reviewer'', ''review_note''] (req_Body r) of
        None \<Rightarrow> (writeJSONError [] 400 ''invalid review payload'', s, w)
      | Some payload \<Rightarrow>
          let reviewer = (if payload ''reviewer'' = [] then trim_space (header_get (req_Header r) ''X-Prompt-Audit-Reviewer'')
                          else payload ''reviewer'')
          in case UpdateReview E ident
                    \<lparr>upd_Status = payload ''review_status'', upd_Reviewer = reviewer, upd_Note = payload ''review_note''\<rparr> s w of
               (x, s1, w1) \<Rightarrow> (record_response x, s1, w1))"

section \<open>Routing\<close>

definition method_not_allowed :: "string \<Rightarrow> response" where
  "method_not_allowed allow = writeJSONError (header_set [] ''Allow'' allow) 405 ''method not allowed''"

text \<open>The part of \<open>handleAdmin\<close> after its switch: the API behind \<open>requireAdminAPI\<close>.\<close>

definition handleAdminAPI ::
    "'w world \<Rightarrow> admin_lib \<Rightarrow> config \<Rightarrow> string \<Rightarrow> request \<Rightarrow> store option \<Rightarrow> 'w \<Rightarrow> response \<times> store option \<times> 'w" where
  "handleAdminAPI E lib cfg path r s w =
     (case requireAdminAPI E lib cfg r s w of
        (Some resp, s1, w1) \<Rightarrow> (resp, s1, w1)
      | (None, s1, w1) \<Rightarrow>
          if path = ''/admin/records'' \<and> req_Method r = ''GET'' then listRecords E lib r s1 w1
          else if prefix ''/admin/records/'' path then
            let ident = drop (length ''/admin/records/'') path
            in if ident = [] \<or> contains ident ''/'' then (writeJSONError [] 404 ''record not found'', s1, w1)
               else if req_Method r = ''GET'' then getRecord E ident s1 w1
               else if req_Method r = ''PATCH'' then updateRecord E r ident s1 w1
               else (method_not_allowed ''GET, PATCH'', s1, w1)
          else (writeJSONError [] 404 ''not found'', s1, w1))"

definition handleAdmin ::
    "'w world \<Rightarrow> admin_lib \<Rightarrow> config \<Rightarrow> request \<Rightarrow> store option \<Rightarrow> 'w \<Rightarrow> response \<times> store option \<times> 'w" where
  "handleAdmin E lib cfg r s w =
     (let path = trim_suffix (req_Path r) ''/''
      in if path = ''/admin/login'' then
           (if req_Method r = ''GET'' then serveLogin E lib cfg r s w
            else if req_Method r = ''POST'' then loginAdmin E cfg r s w
            else (method_not_allowed ''GET, POST'', s, w))
         else if path = ''/admin/logout'' then
           (if req_Method r \<noteq> ''POST'' then (method_not_allowed ''POST'', s, w) else logoutAdmin E lib r s w)
         else if path = ''/admin/ui'' then
           (if req_Method r \<noteq> ''GET'' then (method_not_allowed ''GET'', s, w)
            else case requireAdminPage E lib cfg r s w of
                   (Some resp, s1, w1) \<Rightarrow> (resp, s1, w1)
                 | (None, s1, w1) \<Rightarrow> (html_page AdminPage, s1, w1))
         else if path = ''/admin/session'' then
           (case authenticateAdmin E lib cfg r s w of
              (Inl e, s1, w1) \<Rightarrow> (auth_unavailable, s1, w1)
            | (Inr (username, ok), s1, w1) \<Rightarrow>
                (if \<not> ok then login_required else writeJSON [] 200 (SessionBody username), s1, w1))
         else if path = ''/admin'' then
           (if req_Method r \<noteq> ''GET'' then (method_not_allowed ''GET'', s, w)
            else case authenticateAdmin E lib cfg r s w of
                   (Inl e, s1, w1) \<Rightarrow> (auth_unavailable, s1, w1)
                 | (Inr (username, ok), s1, w1) \<Rightarrow>
                     (if \<not> ok then redirectToLogin ''/admin/ui'' else redirect ''/admin/ui'', s1, w1))
         else handleAdminAPI E lib cfg path r s w)"

end
