(* ===== verification/Go_Proxy.thy ===== *)
theory Go_Proxy
  imports Go_Url
begin

text \<open>
  What the sidecar uses of \<open>httputil.ReverseProxy\<close>: the request that
  \<open>NewSingleHostReverseProxy(target)\<close> makes of the one it serves, and the header of the response
  it passes on. The transport is not part of it; requests are in origin form.
\<close>

section \<open>Headers that belong to one connection\<close>

definition header_del :: "header \<Rightarrow> string \<Rightarrow> header" where
  "header_del h key = AList.delete (canonical_key key) h"

definition hop_by_hop :: "string list" where
  "hop_by_hop = [''Connection'', ''Proxy-Connection'', ''Keep-Alive'', ''Proxy-Authenticate'', ''Proxy-Authorization'',
     ''Te'', ''Trailer'', ''Transfer-Encoding'', ''Upgrade'']"

text \<open>The headers that the field \<open>Connection\<close> names.\<close>

definition connection_tokens :: "header \<Rightarrow> string list" where
  "connection_tokens h =
     filter (\<lambda>t. t \<noteq> []) (map trim_ascii (concat (map (split_on (CHR '','')) (header_values h ''Connection''))))"

definition remove_hop_by_hop :: "header \<Rightarrow> header" where
  "remove_hop_by_hop h = fold (\<lambda>k h. header_del h k) (connection_tokens h @ hop_by_hop) h"

text \<open>\<open>httpguts.HeaderValuesContainsToken\<close>.\<close>

definition trim_ows :: "string \<Rightarrow> string" where
  "trim_ows s = (let ows = (\<lambda>c. byte c = 32 \<or> byte c = 9) in rev (dropWhile ows (rev (dropWhile ows s))))"

definition has_token :: "string list \<Rightarrow> string \<Rightarrow> bool" where
  "has_token values token =
     list_ex (\<lambda>v. list_ex (\<lambda>p. map ascii_lower (trim_ows p) = map ascii_lower token) (split_on (CHR '','') v)) values"

definition upgrade_type :: "header \<Rightarrow> string" where
  "upgrade_type h = (if has_token (header_values h ''Connection'') ''Upgrade'' then header_get h ''Upgrade'' else [])"

definition ascii_printable :: "string \<Rightarrow> bool" where
  "ascii_printable s = list_all (\<lambda>c. 32 \<le> byte c \<and> byte c \<le> 126) s"

section \<open>The request to the upstream\<close>

record outbound =
  ob_Method :: string
  ob_URL :: url
  ob_Host :: string
  ob_Header :: header
  ob_Body :: "stream option"

text \<open>\<open>joinURLPath\<close>: the path and the raw path.\<close>

definition joining_slash :: "string \<Rightarrow> string \<Rightarrow> string \<Rightarrow> string \<Rightarrow> string" where
  "joining_slash x y a b =
     (if suffix ''/'' x \<and> prefix ''/'' y then a @ drop 1 b
      else if \<not> suffix ''/'' x \<and> \<not> prefix ''/'' y then a @ ''/'' @ b
      else a @ b)"

definition join_url_path :: "url \<Rightarrow> request \<Rightarrow> string \<times> string" where
  "join_url_path target r =
     (if url_RawPath target = [] \<and> req_RawPath r = []
      then (joining_slash (url_Path target) (req_Path r) (url_Path target) (req_Path r), [])
      else let apath = escaped_path (url_Path target) (url_RawPath target);
               bpath = escaped_path (req_Path r) (req_RawPath r)
           in (joining_slash apath bpath (url_Path target) (req_Path r), joining_slash apath bpath apath bpath))"

text \<open>\<open>rewriteRequestURL\<close>.\<close>

definition rewrite_url :: "url \<Rightarrow> request \<Rightarrow> url" where
  "rewrite_url target r =
     (let (path, raw) = join_url_path target r
      in empty_url\<lparr>url_Scheme := url_Scheme target, url_Host := url_Host target, url_Path := path, url_RawPath := raw,
           url_ForceQuery := req_ForceQuery r,
           url_RawQuery := (if url_RawQuery target = [] \<or> req_RawQuery r = []
                            then url_RawQuery target @ req_RawQuery r
                            else url_RawQuery target @ ''&'' @ req_RawQuery r)\<rparr>)"

text \<open>The address of the client is added to \<open>X-Forwarded-For\<close>, unless an entry without values forbids it.\<close>

definition forwarded_for :: "string option \<Rightarrow> header \<Rightarrow> header" where
  "forwarded_for ip h =
     (case ip of
        None \<Rightarrow> h
      | Some a \<Rightarrow>
          (case map_of h ''X-Forwarded-For'' of
             None \<Rightarrow> header_set h ''X-Forwarded-For'' a
           | Some [] \<Rightarrow> h
           | Some (v # vs) \<Rightarrow> header_set h ''X-Forwarded-For'' (join (v # vs) '', '' @ '', '' @ a)))"

definition outbound_header :: "request \<Rightarrow> header" where
  "outbound_header r =
     (let h0 = req_Header r;
          up = upgrade_type h0;
          h1 = remove_hop_by_hop h0;
          h2 = (if has_token (header_values h0 ''Te'') ''trailers'' then header_set h1 ''Te'' ''trailers'' else h1);
          h3 = (if up \<noteq> [] then header_set (header_set h2 ''Connection'' ''Upgrade'') ''Upgrade'' up else h2);
          h4 = forwarded_for (req_ClientIP r) h3
      in if map_of h4 ''User-Agent'' = None then header_set h4 ''User-Agent'' [] else h4)"

text \<open>\<open>None\<close> is an invalid protocol to upgrade to, which goes to the error handler.\<close>

definition outbound_of :: "url \<Rightarrow> request \<Rightarrow> outbound option" where
  "outbound_of target r =
     (if \<not> ascii_printable (upgrade_type (req_Header r)) then None
      else Some \<lparr>ob_Method = req_Method r, ob_URL = rewrite_url target r, ob_Host = req_Host r,
                 ob_Header = outbound_header r,
                 ob_Body = (if req_ContentLength r = 0 then None else req_Body r)\<rparr>)"

section \<open>The response\<close>

text \<open>
  Status, header and body of the answer as they are passed on; a switch of protocols must be to
  the one that was asked for, otherwise the error handler runs.
\<close>

definition inbound_of :: "string \<Rightarrow> int \<times> header \<times> string \<Rightarrow> (int \<times> header \<times> string) option" where
  "inbound_of up answer =
     (case answer of (status, h, body) \<Rightarrow>
        if status = 101 then
          if ascii_printable (upgrade_type h) \<and> map ascii_lower (upgrade_type h) = map ascii_lower up
          then Some answer else None
        else Some (status, remove_hop_by_hop h, body))"

section \<open>Facts\<close>

lemma header_values_del:
  "header_values (header_del h k) k' = (if canonical_key k' = canonical_key k then [] else header_values h k')"
  by (simp add: header_values_def header_del_def delete_conv')

lemma header_values_del_all:
  "header_values (fold (\<lambda>k h. header_del h k) ks h) k =
     (if canonical_key k \<in> canonical_key ` set ks then [] else header_values h k)"
  by (induction ks arbitrary: h) (auto simp: header_values_del)

lemma remove_hop_by_hop_values:
  "header_values (remove_hop_by_hop h) k =
     (if canonical_key k \<in> canonical_key ` set (connection_tokens h @ hop_by_hop) then [] else header_values h k)"
  unfolding remove_hop_by_hop_def by (rule header_values_del_all)

text \<open>The headers that forwarding may rewrite.\<close>

definition rewritten :: "header \<Rightarrow> string \<Rightarrow> bool" where
  "rewritten h k \<longleftrightarrow> canonical_key k \<in> canonical_key ` set (connection_tokens h @ hop_by_hop)
     \<or> canonical_key k = ''X-Forwarded-For'' \<or> canonical_key k = ''User-Agent''"

lemma forwarding_keys:
  "canonical_key ''X-Forwarded-For'' = ''X-Forwarded-For''" "canonical_key ''User-Agent'' = ''User-Agent''"
  "canonical_key ''Te'' = ''Te''" "canonical_key ''Connection'' = ''Connection''" "canonical_key ''Upgrade'' = ''Upgrade''"
  "''Te'' \<in> canonical_key ` set hop_by_hop" "''Connection'' \<in> canonical_key ` set hop_by_hop"
  "''Upgrade'' \<in> canonical_key ` set hop_by_hop"
  by code_simp+

lemma forwarded_for_values:
  "canonical_key k \<noteq> ''X-Forwarded-For'' \<Longrightarrow> header_values (forwarded_for ip h) k = header_values h k"
  by (auto simp: forwarded_for_def header_values_set forwarding_keys split: option.split list.split)

text \<open>All other headers reach the upstream as they are.\<close>

lemma outbound_header_keeps:
  assumes "\<not> rewritten (req_Header r) k"
  shows "header_values (outbound_header r) k = header_values (req_Header r) k"
proof -
  have k: "canonical_key k \<notin> canonical_key ` set (connection_tokens (req_Header r) @ hop_by_hop)"
    "canonical_key k \<noteq> ''X-Forwarded-For''" "canonical_key k \<noteq> ''User-Agent''"
    using assms by (auto simp: rewritten_def)
  then have "canonical_key k \<noteq> ''Te''" "canonical_key k \<noteq> ''Connection''" "canonical_key k \<noteq> ''Upgrade''"
    using forwarding_keys(6-8) by auto
  with k show ?thesis
    by (simp add: outbound_header_def Let_def header_values_set forwarding_keys forwarded_for_values remove_hop_by_hop_values)
qed

text \<open>A header that the client names in \<open>Connection\<close> does not.\<close>

lemma outbound_header_drops:
  assumes "canonical_key k \<in> canonical_key ` set (connection_tokens (req_Header r))"
    and "canonical_key k \<notin> {''X-Forwarded-For'', ''User-Agent'', ''Te'', ''Connection'', ''Upgrade''}"
  shows "header_values (outbound_header r) k = []"
  using assms
  by (simp add: outbound_header_def Let_def header_values_set forwarding_keys forwarded_for_values remove_hop_by_hop_values image_Un)

text \<open>A path without one slash at its end.\<close>

definition without_slash :: "string \<Rightarrow> string" where
  "without_slash s = (if suffix ''/'' s then butlast s else s)"

lemma escape_without_slash: "escape EncodePath (without_slash path) = without_slash (escape EncodePath path)"
proof (cases "suffix ''/'' path")
  case True
  then obtain t where "path = t @ ''/''" by (auto simp: suffix_def)
  moreover from this have "escape EncodePath path = escape EncodePath t @ ''/''"
    using slash_not_escaped by (simp add: escape_def escape_byte_def)
  ultimately show ?thesis by (simp add: without_slash_def)
qed (simp add: without_slash_def escape_suffix_slash)

lemma joining_slash_base:
  assumes "prefix ''/'' y"
  shows "joining_slash x y x y = without_slash x @ y"
    and "joining_slash x y a b = (if suffix ''/'' x then a @ drop 1 b else a @ b)"
  using assms by (auto simp: joining_slash_def without_slash_def suffix_def prefix_def)

lemma unescape_drop_slash:
  assumes "prefix ''/'' s" and "unescape s = Some p"
  shows "unescape (drop 1 s) = Some (drop 1 p)"
  using assms by (auto simp: prefix_def)

text \<open>The upstream sees the path that the client has sent, in its encoding, below its own.\<close>

lemma rewrite_url_joins:
  assumes "url_Path target = [] \<or> prefix ''/'' (url_Path target)"
    and "prefix ''/'' (req_Path r)" and "req_RawPath r = [] \<or> prefix ''/'' (req_RawPath r)"
  shows "escaped_path (url_Path (rewrite_url target r)) (url_RawPath (rewrite_url target r)) =
      without_slash (escaped_path (url_Path target) (url_RawPath target)) @ escaped_path (req_Path r) (req_RawPath r)"
proof -
  let ?x = "escaped_path (url_Path target) (url_RawPath target)" and ?y = "escaped_path (req_Path r) (req_RawPath r)"
  have y: "prefix ''/'' ?y" using escaped_path_slash [OF assms(2,3)] .
  have n: "url_Path target \<noteq> ''*''" "req_Path r \<noteq> ''*''" using assms(1,2) by auto
  show ?thesis
  proof (cases "url_RawPath target = [] \<and> req_RawPath r = []")
    case True
    then have e: "?x = escape EncodePath (url_Path target)" "?y = escape EncodePath (req_Path r)"
      using n by (simp_all add: escaped_path_def)
    have j: "joining_slash (url_Path target) (req_Path r) (url_Path target) (req_Path r) = without_slash (url_Path target) @ req_Path r"
      using assms(2) by (rule joining_slash_base)
    have "without_slash (url_Path target) @ req_Path r \<noteq> ''*''" using assms(2) by (cases "without_slash (url_Path target)") auto
    moreover have "escape EncodePath (without_slash (url_Path target)) = without_slash ?x" by (simp add: e escape_without_slash)
    ultimately show ?thesis
      using True e j by (simp add: rewrite_url_def join_url_path_def escaped_path_def escape_append)
  next
    case False
    let ?p = "joining_slash ?x ?y (url_Path target) (req_Path r)"
    have u: "unescape ?x = Some (url_Path target)" "unescape ?y = Some (req_Path r)" by (rule unescape_escaped_path)+
    have "unescape (joining_slash ?x ?y ?x ?y) = Some ?p"
      using unescape_append [OF u] unescape_append [OF u(1) unescape_drop_slash [OF y u(2)]]
      by (simp add: joining_slash_base(2) [OF y])
    moreover have "valid_encoded EncodePath ?x" "valid_encoded EncodePath ?y" using valid_escaped_path n by blast+
    then have "valid_encoded EncodePath (without_slash ?x @ ?y)"
      using in_set_butlastD [of _ ?x] by (auto simp: valid_encoded_def without_slash_def list_all_iff)
    moreover have "without_slash ?x @ ?y \<noteq> []" using y by auto
    ultimately have "escaped_path ?p (without_slash ?x @ ?y) = without_slash ?x @ ?y"
      by (intro escaped_path_raw) (simp_all add: joining_slash_base(1) [OF y])
    with False show ?thesis
      by (auto simp: rewrite_url_def join_url_path_def Let_def joining_slash_base(1) [OF y])
  qed
qed

end
