(* ===== verification/Proxy.thy ===== *)
theory Proxy
  imports Websocket Admin Go_Proxy
begin

text \<open>
  The request path of \<open>proxy.go\<close>: \<open>ProxyServer.ServeHTTP\<close>, which dispatches a request to the
  health check, the administration, the WebSocket relay or, after capturing it, the upstream.
  The reverse proxy is that of \<open>Go_Proxy\<close>; its transport, the dialer and the upgrader are parameters.
\<close>

section \<open>Forwarding\<close>

text \<open>The error handler that \<open>NewProxyServer\<close> installs: \<open>http.Error\<close> with status 502.\<close>

definition upstream_unavailable :: response where
  "upstream_unavailable =
     \<lparr>resp_status = 502,
      resp_header = header_set (header_set [] ''Content-Type'' ''text/plain; charset=utf-8'')
                      ''X-Content-Type-Options'' ''nosniff'',
      resp_cookie = None,
      resp_body = RelayedBody (''upstream unavailable'' @ [char_of (10 :: nat)])\<rparr>"

text \<open>
  \<open>p.reverse.ServeHTTP\<close>: the request is rewritten for the upstream, the transport is asked for an
  answer (\<open>None\<close> is its error), and the answer is passed on; the error handler runs otherwise.
\<close>

type_synonym transport = "outbound \<Rightarrow> (int \<times> header \<times> string) option"

definition forward :: "url \<Rightarrow> transport \<Rightarrow> request \<Rightarrow> response" where
  "forward target trip r =
     (case Option.bind (Option.bind (outbound_of target r) trip) (inbound_of (upgrade_type (req_Header r))) of
        None \<Rightarrow> upstream_unavailable
      | Some answer \<Rightarrow> relay_response answer)"

section \<open>Dispatch\<close>

datatype served =
    Answered response
  | Tunnelled ws_session
  | Forwarded request response

text \<open>The calls outside the process that serving needs: the upstream by HTTP and by WebSocket, and the upgrade.\<close>

record peers =
  round_trip :: transport
  dialer :: "string \<Rightarrow> header \<Rightarrow> dial_result"
  upgrader :: "connection option"

definition with_correlation :: "string \<Rightarrow> string \<Rightarrow> request \<Rightarrow> request" where
  "with_correlation requestID clientRequestID r =
     r\<lparr>req_Header := header_set (header_set (req_Header r) ''X-Request-ID'' requestID)
                       ''X-Client-Request-ID'' clientRequestID\<rparr>"

text \<open>The capture of a request about to be forwarded; the request may come back with another body.\<close>

definition capture_request ::
    "'w world \<Rightarrow> wire_lib \<Rightarrow> proxy \<Rightarrow> request \<Rightarrow> string \<Rightarrow> string \<Rightarrow> record_queue \<Rightarrow> 'w
     \<Rightarrow> (request \<times> record_queue \<times> 'w) outcome" where
  "capture_request E lib p r requestID clientRequestID q w =
     (if \<not> shouldCapture (p_cfg p) r then Return (r, q, w)
      else case time_now E w of (receivedAt, w1) \<Rightarrow>
        (case readBodyForCapture r (MaxCaptureBytes (p_cfg p)) of ((body, captured, err), r1) \<Rightarrow>
           if err \<or> \<not> captured then Return (r1, q, w1)
           else bind_outcome (captureHTTP E lib p r1 requestID clientRequestID receivedAt body q w1)
                  (\<lambda>(q1, w2). Return (r1, q1, w2))))"

definition health_path :: "string \<Rightarrow> bool" where
  "health_path path \<longleftrightarrow> path = ''/healthz'' \<or> path = ''/health''"

definition admin_path :: "string \<Rightarrow> bool" where
  "admin_path path \<longleftrightarrow> path = ''/admin'' \<or> prefix ''/admin/'' path"

definition ServeHTTP ::
    "'w world \<Rightarrow> wire_lib \<Rightarrow> admin_lib \<Rightarrow> peers \<Rightarrow> proxy \<Rightarrow> request \<Rightarrow> store option \<Rightarrow> record_queue \<Rightarrow> 'w
     \<Rightarrow> (served \<times> store option \<times> record_queue \<times> 'w) outcome" where
  "ServeHTTP E lib alib peers p r s q w =
     (if health_path (req_Path r) then
        (case handleHealth E r (Some q) s w of (resp, s1, w1) \<Rightarrow> Return (Answered resp, s1, q, w1))
      else if admin_path (req_Path r) then
        (case handleAdmin E alib (p_cfg p) r s w of (resp, s1, w1) \<Rightarrow> Return (Answered resp, s1, q, w1))
      else case correlationID E (header_get (req_Header r) ''X-Request-ID'') w of (requestID, w1) \<Rightarrow>
        (case correlationID E (header_get (req_Header r) ''X-Client-Request-ID'') w1 of (clientRequestID, w2) \<Rightarrow>
           let r1 = with_correlation requestID clientRequestID r
           in if p_websocket p \<and> isWebSocketRequest r1 then
                (case UpstreamURL (p_cfg p) of
                   None \<Rightarrow> Panic
                 | Some u \<Rightarrow>
                     bind_outcome
                       (ServeWebSocket E p u (dialer peers) (upgrader peers) r1 requestID clientRequestID q w2)
                       (\<lambda>(session, q1, w3). Return (Tunnelled session, s, q1, w3)))
              else
                bind_outcome (capture_request E lib p r1 requestID clientRequestID q w2)
                  (\<lambda>(r2, q1, w3). Return (Forwarded r2 (forward (p_target p) (round_trip peers) r2), s, q1, w3))))"

end
