(* ===== verification/Websocket_Steps.thy ===== *)
theory Websocket_Steps
  imports Websocket
begin

text \<open>
  The end of \<open>ServeHTTP\<close> in \<open>websocket.go\<close> as steps: the two copying goroutines, each of which reads
  a frame and then writes it, and the handler, which closes both connections when the first of
  them has returned. A read or a write can fail at any time, and always fails on a closed
  connection. Every run is one of \<open>ServeWebSocket\<close>, for the frames that were read and the number
  of frames that were written before the end.
\<close>

section \<open>Steps\<close>

datatype copier = Reading | Writing frame | Returned

record relay =
  rl_client :: "frame list"
  rl_upstream :: "frame list"
  rl_up :: copier
  rl_down :: copier
  rl_from_client :: "frame list"
  rl_from_upstream :: "frame list"
  rl_to_upstream :: "frame list"
  rl_to_client :: "frame list"
  rl_closed :: bool

definition relay_start :: "frame list \<Rightarrow> frame list \<Rightarrow> relay" where
  "relay_start cs us = \<lparr>rl_client = cs, rl_upstream = us, rl_up = Reading, rl_down = Reading, rl_from_client = [],
     rl_from_upstream = [], rl_to_upstream = [], rl_to_client = [], rl_closed = False\<rparr>"

inductive relay_step :: "relay \<Rightarrow> relay \<Rightarrow> bool" where
  up_reads: "rl_up s = Reading \<Longrightarrow> \<not> rl_closed s \<Longrightarrow> rl_client s = f # fs \<Longrightarrow>
    relay_step s (s\<lparr>rl_up := Writing f, rl_client := fs, rl_from_client := rl_from_client s @ [f]\<rparr>)"
| up_writes: "rl_up s = Writing f \<Longrightarrow> \<not> rl_closed s \<Longrightarrow>
    relay_step s (s\<lparr>rl_up := Reading, rl_to_upstream := rl_to_upstream s @ [f]\<rparr>)"
| up_fails: "rl_up s \<noteq> Returned \<Longrightarrow> relay_step s (s\<lparr>rl_up := Returned\<rparr>)"
| down_reads: "rl_down s = Reading \<Longrightarrow> \<not> rl_closed s \<Longrightarrow> rl_upstream s = f # fs \<Longrightarrow>
    relay_step s (s\<lparr>rl_down := Writing f, rl_upstream := fs, rl_from_upstream := rl_from_upstream s @ [f]\<rparr>)"
| down_writes: "rl_down s = Writing f \<Longrightarrow> \<not> rl_closed s \<Longrightarrow>
    relay_step s (s\<lparr>rl_down := Reading, rl_to_client := rl_to_client s @ [f]\<rparr>)"
| down_fails: "rl_down s \<noteq> Returned \<Longrightarrow> relay_step s (s\<lparr>rl_down := Returned\<rparr>)"
| closes: "rl_up s = Returned \<or> rl_down s = Returned \<Longrightarrow> \<not> rl_closed s \<Longrightarrow> relay_step s (s\<lparr>rl_closed := True\<rparr>)"

inductive relay_reachable :: "frame list \<Rightarrow> frame list \<Rightarrow> relay \<Rightarrow> bool" for cs us where
  relay_init: "relay_reachable cs us (relay_start cs us)"
| relay_next: "relay_reachable cs us s \<Longrightarrow> relay_step s s' \<Longrightarrow> relay_reachable cs us s'"

section \<open>Invariant\<close>

text \<open>A direction: the frames read are the first of the source, those written the same but perhaps the last.\<close>

definition direction_ok :: "frame list \<Rightarrow> frame list \<Rightarrow> copier \<Rightarrow> frame list \<Rightarrow> frame list \<Rightarrow> bool" where
  "direction_ok all rest c got sent \<longleftrightarrow> all = got @ rest
     \<and> (case c of Reading \<Rightarrow> got = sent | Writing f \<Rightarrow> got = sent @ [f] | Returned \<Rightarrow> got = sent \<or> (\<exists>f. got = sent @ [f]))"

definition relay_inv :: "frame list \<Rightarrow> frame list \<Rightarrow> relay \<Rightarrow> bool" where
  "relay_inv cs us s \<longleftrightarrow> direction_ok cs (rl_client s) (rl_up s) (rl_from_client s) (rl_to_upstream s)
     \<and> direction_ok us (rl_upstream s) (rl_down s) (rl_from_upstream s) (rl_to_client s)
     \<and> (rl_closed s \<longrightarrow> rl_up s = Returned \<or> rl_down s = Returned)"

lemma relay_inv_reachable: "relay_reachable cs us s \<Longrightarrow> relay_inv cs us s"
proof (induction rule: relay_reachable.induct)
  case relay_init
  show ?case by (simp add: relay_inv_def relay_start_def direction_ok_def)
next
  case (relay_next s s')
  from relay_next.hyps(2) relay_next.IH show ?case
    by cases (auto simp: relay_inv_def direction_ok_def split: copier.splits)
qed

text \<open>The capturing loop audits all frames it has read, also the one whose write fails.\<close>

lemma copyClientFrames_writes:
  assumes "ascii path" and "got = sent \<or> (\<exists>f. got = sent @ [f])"
  shows "\<exists>q' w'. copyClientFrames E cfg path a b i got (length sent) q w = Return (sent, q', w')"
proof -
  have "take (length sent) got = sent" using assms(2) by auto
  with copyClientFrames_returns [OF assms(1), where E = E and cfg = cfg and a = a and b = b and i = i and fs = got
      and n = "length sent" and q = q and w = w] show ?thesis by simp
qed

text \<open>
  When both goroutines have returned, what they have relayed is what \<open>ServeWebSocket\<close> gives for
  connections that deliver the frames which were read and take those which were written.
\<close>

theorem relay_refines:
  assumes "relay_reachable cs us s" and "rl_up s = Returned" and "rl_down s = Returned" and "ascii (req_Path r)"
    and "\<forall>t h. dial t h = Dialed sub \<lparr>delivers = rl_from_upstream s, takes = length (rl_to_upstream s)\<rparr>"
  shows "prefix (rl_from_client s) cs \<and> prefix (rl_from_upstream s) us
    \<and> (\<exists>session q' w'. ServeWebSocket E p u dial (Some \<lparr>delivers = rl_from_client s, takes = length (rl_to_client s)\<rparr>) r a b q w
           = Return (session, q', w')
         \<and> ws_to_upstream session = rl_to_upstream s \<and> ws_to_client session = rl_to_client s)"
proof -
  note i = relay_inv_reachable [OF assms(1), unfolded relay_inv_def direction_ok_def assms(2,3) copier.case]
  obtain q' w' where "copyClientFrames E (p_cfg p) (req_Path r) a b (Lookup (p_resolver p) (extractAPIKey (req_Header r)))
      (rl_from_client s) (length (rl_to_upstream s)) q w = Return (rl_to_upstream s, q', w')"
    using copyClientFrames_writes [OF assms(4), of "rl_from_client s" "rl_to_upstream s" E "p_cfg p" a b
      "Lookup (p_resolver p) (extractAPIKey (req_Header r))" q w] i by auto
  moreover have "copyServerFrames (rl_from_upstream s) (length (rl_to_client s)) = rl_to_client s"
    using i by (auto simp: copyServerFrames_take)
  ultimately show ?thesis using i assms(5) by (auto simp: ServeWebSocket_def Let_def)
qed

definition one_way :: relay where
  "one_way = (relay_start [\<lparr>frame_type = 1, frame_payload = ''hi''\<rparr>] [])\<lparr>rl_client := [], rl_up := Returned, rl_down := Returned,
     rl_from_client := [\<lparr>frame_type = 1, frame_payload = ''hi''\<rparr>], rl_closed := True\<rparr>"

text \<open>A frame is read, the upstream closes, and the write comes too late.\<close>

lemma one_way_reachable: "relay_reachable [\<lparr>frame_type = 1, frame_payload = ''hi''\<rparr>] [] one_way"
proof -
  let ?f = "\<lparr>frame_type = 1, frame_payload = ''hi''\<rparr>"
  let ?s0 = "relay_start [?f] []"
  let ?s1 = "?s0\<lparr>rl_up := Writing ?f, rl_client := [], rl_from_client := rl_from_client ?s0 @ [?f]\<rparr>"
  let ?s2 = "?s1\<lparr>rl_down := Returned\<rparr>"
  let ?s3 = "?s2\<lparr>rl_closed := True\<rparr>"
  have 1: "relay_step ?s0 ?s1" by (rule up_reads) (simp_all add: relay_start_def)
  have 2: "relay_step ?s1 ?s2" by (rule down_fails) (simp add: relay_start_def)
  have 3: "relay_step ?s2 ?s3" by (rule closes) (simp_all add: relay_start_def)
  have 4: "relay_step ?s3 (?s3\<lparr>rl_up := Returned\<rparr>)" by (rule up_fails) (simp add: relay_start_def)
  have "?s3\<lparr>rl_up := Returned\<rparr> = one_way" by (simp add: one_way_def relay_start_def)
  with relay_next [OF relay_next [OF relay_next [OF relay_next [OF relay_init 1] 2] 3] 4] show ?thesis by simp
qed

text \<open>After the connections are closed nothing is relayed any more, and each goroutine can only return.\<close>

theorem relay_closed_final:
  assumes "relay_step s s'" and "rl_closed s"
  shows "rl_to_upstream s' = rl_to_upstream s \<and> rl_to_client s' = rl_to_client s \<and> rl_from_client s' = rl_from_client s
    \<and> rl_from_upstream s' = rl_from_upstream s \<and> rl_closed s'
    \<and> (rl_up s' = Returned \<or> rl_down s' = Returned)"
  using assms by cases auto

end
