(* ===== verification/Store_Facts.thy ===== *)
theory Store_Facts
  imports Store Utf8_Facts
begin

text \<open>
  Facts on the store: what the schema initialisation does, the text of the WHERE clause, and,
  under the laws of the database, what every operation does to the tables.
\<close>

section \<open>The schema\<close>

lemmas ensureSchema_defs = ensureSchema_def backing_off_def schema_failed_def

lemma ensureSchema_ready: "schemaReady st \<Longrightarrow> store_db st \<Longrightarrow> ensureSchema E (Some st) w = (None, Some st, w)"
  by (simp add: ensureSchema_def)

lemma ensureSchema_ok:
  "ensureSchema E s w = (None, s', w') \<Longrightarrow> \<exists>st'. s' = Some st' \<and> store_db st' \<and> schemaReady st'"
  by (auto simp: ensureSchema_defs Let_def split: option.splits prod.splits bool.splits if_splits)

lemma ensureSchema_again:
  assumes "ensureSchema E s w = (None, s', w')"
  shows "ensureSchema E s' v = (None, s', v)"
  using ensureSchema_ok [OF assms] by (auto simp: ensureSchema_ready)

section \<open>The WHERE clause\<close>

text \<open>The conditions a filter stands for, and the clause as \<open>List\<close> should have built it.\<close>

definition conditions_of :: "record_filter \<Rightarrow> condition list" where
  "conditions_of f =
     (case flt_UserID f of None \<Rightarrow> [] | Some u \<Rightarrow> [UserIs u])
     @ (if flt_RequestID f = [] then [] else [RequestIs (flt_RequestID f)])
     @ (if flt_Query f = [] then [] else [QueryLike (flt_Query f)])
     @ (case flt_From f of None \<Rightarrow> [] | Some t \<Rightarrow> [FromTime t])
     @ (case flt_To f of None \<Rightarrow> [] | Some t \<Rightarrow> [ToTime t])
     @ (if flt_ReviewStatus f = [] then [] else [StatusIs (to_lower (flt_ReviewStatus f))])"

definition rendered :: "condition list \<Rightarrow> where_state" where
  "rendered cs = (''1=1'' # map (\<lambda>(n, c). condition_sql n c) (enumerate 1 cs), map condition_arg cs)"

lemma rendered_Nil: "([''1=1''], []) = rendered []"
  by (simp add: rendered_def)

lemma add_where_cases:
  "add_where ''user_id = $'' (ArgInt u) (rendered cs) = rendered (cs @ [UserIs u])"
  "add_where ''request_id = $'' (ArgText r) (rendered cs) = rendered (cs @ [RequestIs r])"
  "add_query q (rendered cs) = rendered (cs @ [QueryLike q])"
  "add_where ''received_at >= $'' (ArgTime t) (rendered cs) = rendered (cs @ [FromTime t])"
  "add_where ''received_at < $'' (ArgTime t) (rendered cs) = rendered (cs @ [ToTime t])"
  "add_where ''review_status = $'' (ArgText st) (rendered cs) = rendered (cs @ [StatusIs st])"
  by (simp_all add: add_where_def add_query_def rendered_def enumerate_snoc Let_def)

lemma build_where_rendered: "build_where f = rendered (conditions_of f)"
  by (simp add: build_where_def conditions_of_def rendered_Nil add_where_cases Let_def split: option.split)

lemma clamp_page_bounds:
  "1 \<le> flt_Limit (clamp_page f)" "flt_Limit (clamp_page f) \<le> 200"
  "0 \<le> flt_Offset (clamp_page f)" "flt_Offset (clamp_page f) \<le> 1000000"
  by (auto simp: clamp_page_def Let_def)

lemma clamp_page_conditions: "conditions_of (clamp_page f) = conditions_of f"
  by (simp add: conditions_of_def clamp_page_def Let_def)

lemma scan_page_Inr:
  "scan_page rows err = Inr items \<Longrightarrow>
     \<exists>rs. rows = map Inr rs \<and> err = None \<and> items = map (\<lambda>row. scanRecordSummary row False) rs"
proof (induction rows arbitrary: items)
  case Nil
  then show ?case by (auto split: option.splits)
next
  case (Cons x rows)
  then obtain row where x: "x = Inr row" by (cases x) auto
  with Cons.prems obtain rest where rest: "scan_page rows err = Inr rest"
    "items = scanRecordSummary row False # rest" by (auto split: sum.splits)
  from Cons.IH [OF rest(1)] obtain rs where "rows = map Inr rs" "err = None"
    "rest = map (\<lambda>row. scanRecordSummary row False) rs" by auto
  with rest(2) x show ?case by (intro exI [of _ "row # rs"]) simp
qed

section \<open>JSON columns\<close>

lemma json_text_valid: "valid_utf8 s \<Longrightarrow> json_text s = s"
proof (induction "length s" arbitrary: s rule: less_induct)
  case less
  show ?case
  proof (cases "s = []")
    case False
    let ?n = "snd (decode_rune s)"
    have v: "decode_rune s \<noteq> (rune_error, 1)" "valid_utf8 (drop ?n s)"
      using less.prems False by (simp_all add: valid_utf8_step)
    have n: "1 \<le> ?n" using decode_rune_width_pos [OF False] by simp
    have "length (drop ?n s) < length s" using n False by (cases s) auto
    then have "json_text (drop ?n s) = drop ?n s" using less.hyps v(2) by blast
    moreover have "encode_rune (fst (decode_rune s)) = take ?n s"
      using encode_decode_rune [OF False v(1)] by simp
    moreover have "runes s = fst (decode_rune s) # runes (drop ?n s)"
      using False by (simp add: runes_Cons)
    ultimately show ?thesis by (simp add: json_text_def)
  qed (simp add: json_text_def)
qed

lemma marshal_messages_valid:
  "\<forall>m \<in> set ms. valid_utf8 (Text m) \<and> valid_utf8 (Source m) \<Longrightarrow> marshal_messages ms = ms"
  by (induction ms) (simp_all add: marshal_messages_def json_text_valid)

section \<open>What the operations do to the tables\<close>

text \<open>The captured columns of the rows, in the order of insertion: what the audit log consists of.\<close>

definition captures :: "tables \<Rightarrow> insert_row list" where
  "captures T = map insert_row.truncate (records T)"

definition unique_ids :: "tables \<Rightarrow> bool" where
  "unique_ids T \<longleftrightarrow> distinct (map col_id (records T))"

text \<open>The review columns agree: a known status, a review time exactly when the row is not pending.\<close>

definition reviews_ok :: "tables \<Rightarrow> bool" where
  "reviews_ok T \<longleftrightarrow> (\<forall>row \<in> set (records T). col_review_status row \<in> set review_statuses
     \<and> (col_reviewed_at row = None \<longleftrightarrow> col_review_status row = ''pending''))"

definition store_inv :: "tables \<Rightarrow> bool" where
  "store_inv T \<longleftrightarrow> unique_ids T \<and> reviews_ok T"

lemma captures_append: "captures (T\<lparr>records := records T @ [with_defaults r]\<rparr>) = captures T @ [r]"
  by (simp add: captures_def)

lemma store_inv_append:
  "store_inv T \<Longrightarrow> col_id r \<notin> col_id ` set (records T) \<Longrightarrow>
     store_inv (T\<lparr>records := records T @ [with_defaults r]\<rparr>)"
  by (auto simp: store_inv_def unique_ids_def reviews_ok_def review_statuses_def)

lemma store_inv_filter: "store_inv T \<Longrightarrow> store_inv (T\<lparr>records := filter P (records T)\<rparr>)"
  by (auto simp: store_inv_def unique_ids_def reviews_ok_def distinct_map_filter)

lemma captures_set_review: "captures (set_review V status reviewer note t u T) = captures T"
  by (simp add: captures_def set_review_def insert_row.defs)

lemma set_review_ids: "map col_id (records (set_review V status reviewer note t u T)) = map col_id (records T)"
  by (simp add: set_review_def)

lemma set_review_row:
  assumes "row \<in> set (records (set_review V status reviewer n t u T))" and "col_id row = u"
  shows "col_review_status row = status \<and> col_reviewer row = reviewer \<and> col_review_note row = n
    \<and> col_reviewed_at row = map_option (timestamp V) t"
proof -
  let ?f = "\<lambda>r. if col_id r = u then r\<lparr>col_review_status := status, col_reviewer := reviewer,
      col_review_note := n, col_reviewed_at := map_option (timestamp V) t\<rparr> else r"
  have "row \<in> ?f ` set (records T)" using assms(1) by (simp add: set_review_def)
  then obtain r where "row = ?f r" by (rule imageE)
  with assms(2) show ?thesis by (cases "col_id r = u") simp_all
qed

lemma store_inv_set_review:
  assumes "store_inv T" and "status \<in> set review_statuses" and "t = None \<longleftrightarrow> status = ''pending''"
  shows "store_inv (set_review V status reviewer note t u T)"
proof -
  have "unique_ids (set_review V status reviewer note t u T)"
    using assms(1) by (simp add: store_inv_def unique_ids_def set_review_ids)
  moreover have "reviews_ok (set_review V status reviewer note t u T)"
    using assms by (auto simp: store_inv_def reviews_ok_def set_review_def)
  ultimately show ?thesis by (simp add: store_inv_def)
qed

context services
begin

lemma quietD:
  "time_now E w = (n, w') \<Longrightarrow> tables_of V w' = tables_of V w"
  "ctx_err E w = (b, w') \<Longrightarrow> tables_of V w' = tables_of V w"
  "wait_done E d w = (b, w') \<Longrightarrow> tables_of V w' = tables_of V w"
  "db_ping E w = (r, w') \<Longrightarrow> tables_of V w' = tables_of V w"
  "db_schema E w = (r, w') \<Longrightarrow> tables_of V w' = tables_of V w"
  "db_usage E i w = (x, w') \<Longrightarrow> tables_of V w' = tables_of V w"
  using time_now_quiet [of w] ctx_err_quiet [of w] wait_done_quiet [of d w] ping_quiet [of w] schema_quiet [of w]
    usage_quiet [of i w]
  by simp_all

lemma ensureSchema_quiet: "ensureSchema E s w = (r, s', w') \<Longrightarrow> tables_of V w' = tables_of V w"
  by (auto simp: ensureSchema_defs Let_def quietD split: option.splits prod.splits bool.splits if_splits)

lemma Ping_quiet: "Ping E s w = (r, s', w') \<Longrightarrow> tables_of V w' = tables_of V w"
  by (auto simp: Ping_def ensureSchema_quiet split: option.splits if_splits)

end

context audit_db
begin

lemma Insert_effect:
  assumes "Insert E rec s w = (r, s', w')"
  shows "r \<noteq> None \<and> tables_of V w' = tables_of V w
    \<or> \<not> schema_refuses (insert_args rec) \<and> (\<exists>u stored. sql_uuid V (cr_ID rec) = Some u \<and> col_id stored = u
        \<and> u \<notin> col_id ` set (records (tables_of V w))
        \<and> tables_of V w' = (tables_of V w)\<lparr>records := records (tables_of V w) @ [with_defaults stored]\<rparr>
        \<and> col_user_id stored = UserID (cr_Identity rec) \<and> col_message_count stored = int (cr_MessageCount rec)
        \<and> col_prompt_text stored = cr_PromptText rec
        \<and> (fits_schema (insert_args rec) \<longrightarrow> with_defaults stored = stored_row V u (insert_args rec)))"
proof -
  obtain q s1 w1 where q: "ensureSchema E s w = (q, s1, w1)" by (cases "ensureSchema E s w")
  note t = ensureSchema_quiet [OF q]
  show ?thesis
  proof (cases q)
    case None
    then have "db_insert E (insert_args rec) w1 = (r, w')"
      using assms q by (auto simp: Insert_def split: prod.splits)
    from insert_law [OF this] show ?thesis by (simp add: t insert_args_def)
  next
    case (Some e)
    then show ?thesis using assms q t by (auto simp: Insert_def)
  qed
qed

lemma DeleteExpired_effect:
  assumes "DeleteExpired E days s w = (r, s', w')"
  shows "tables_of V w' = tables_of V w \<or> 0 < days \<and> (\<exists>t. tables_of V w' =
    (tables_of V w)\<lparr>records := filter (\<lambda>row. t \<le> col_received_at row) (records (tables_of V w))\<rparr>)"
proof (cases "0 < days")
  case True
  obtain q s1 w1 where q: "ensureSchema E s w = (q, s1, w1)" by (cases "ensureSchema E s w")
  note t = ensureSchema_quiet [OF q]
  show ?thesis
  proof (cases q)
    case None
    then have "db_delete_expired E days w1 = (r, w')"
      using assms q True by (auto simp: DeleteExpired_def split: prod.splits)
    from delete_expired_law [OF this] t True show ?thesis by auto
  qed (use assms q t True in \<open>auto simp: DeleteExpired_def\<close>)
qed (use assms in \<open>simp add: DeleteExpired_def\<close>)

lemma Get_quiet: "Get E i s w = (r, s', w') \<Longrightarrow> tables_of V w' = tables_of V w"
  by (auto simp: Get_def ensureSchema_quiet split: option.splits prod.splits sum.splits
      dest!: get_law ensureSchema_quiet)

text \<open>The two queries of \<open>List\<close> are those the laws speak of.\<close>

lemma List_queries:
  "snd (build_where (clamp_page f)) = map condition_arg (conditions_of f)"
  "join (fst (build_where (clamp_page f))) '' AND '' = where_sql (conditions_of f)"
  "length (snd (build_where (clamp_page f))) = length (conditions_of f)"
  by (simp_all add: build_where_rendered rendered_def where_sql_def clamp_page_conditions)

lemma List_effect:
  assumes "List_records E f s w = (r, s', w')"
  shows "tables_of V w' = tables_of V w \<and> (\<forall>res. r = Inr res \<longrightarrow>
    lr_Limit res = flt_Limit (clamp_page f) \<and> lr_Offset res = flt_Offset (clamp_page f)
    \<and> lr_Total res = int (length (matching V (conditions_of f) (tables_of V w)))
    \<and> lr_Items res = map (\<lambda>row. scanRecordSummary (page_view row) False)
         (take (nat (lr_Limit res)) (drop (nat (lr_Offset res))
            (newest_first (matching V (conditions_of f) (tables_of V w))))))"
proof -
  obtain q s1 w1 where q: "ensureSchema E s w = (q, s1, w1)" by (cases "ensureSchema E s w")
  note t = ensureSchema_quiet [OF q]
  obtain conds args where b: "build_where (clamp_page f) = (conds, args)" by (cases "build_where (clamp_page f)")
  note qs = List_queries [of f, unfolded b, simplified]
  show ?thesis
  proof (cases q)
    case None
    let ?w = "where_sql (conditions_of f)"
    obtain rc w2 where c: "db_count E ?w (map condition_arg (conditions_of f)) w1 = (rc, w2)" by fastforce
    note c' = count_law [OF c]
    show ?thesis
    proof (cases rc)
      case (Inr n)
      let ?l = "flt_Limit (clamp_page f)" and ?o = "flt_Offset (clamp_page f)"
      have lo: "int (nat ?l) = ?l" "int (nat ?o) = ?o" using clamp_page_bounds [of f] by simp_all
      obtain rp w3 where p: "db_page E ?w (length (conditions_of f) + 1) (length (conditions_of f) + 2)
          (map condition_arg (conditions_of f) @ [ArgInt (int (nat ?l)), ArgInt (int (nat ?o))]) w2 = (rp, w3)"
        by fastforce
      note p' = page_law [OF p]
      have "List_records E f s w = (case rp of Inl e \<Rightarrow> (Inl e, s1, w3) | Inr (rows, err) \<Rightarrow>
          (case scan_page rows err of Inl e \<Rightarrow> (Inl e, s1, w3)
           | Inr items \<Rightarrow> (Inr \<lparr>lr_Items = items, lr_Total = n, lr_Limit = ?l, lr_Offset = ?o\<rparr>, s1, w3)))"
        using q None b qs c Inr p lo by (simp add: List_records_def Let_def split: sum.split prod.split)
      then show ?thesis
        using assms p' c' Inr t by (auto split: sum.splits prod.splits dest!: scan_page_Inr)
    qed (use assms q None b qs c c' t in \<open>auto simp: List_records_def\<close>)
  qed (use assms q t in \<open>auto simp: List_records_def\<close>)
qed

lemma UpdateReview_effect:
  assumes "UpdateReview E i u s w = (r, s', w')"
  shows "tables_of V w' = tables_of V w \<or> (\<exists>status reviewer note t parsed.
    tables_of V w' = set_review V status reviewer note t parsed (tables_of V w)
    \<and> uuid_parse E (trim_space i) = Some parsed \<and> status = to_lower (trim_space (upd_Status u))
    \<and> status \<in> set review_statuses \<and> (t = None \<longleftrightarrow> status = ''pending''))"
proof -
  obtain q s1 w1 where q: "ensureSchema E s w = (q, s1, w1)" by (cases "ensureSchema E s w")
  note t = ensureSchema_quiet [OF q]
  let ?status = "to_lower (trim_space (upd_Status u))"
  show ?thesis
  proof (cases "q = None \<and> ?status \<in> set review_statuses \<and> uuid_parse E (trim_space i) \<noteq> None")
    case True
    then obtain parsed where p: "uuid_parse E (trim_space i) = Some parsed" by blast
    define at_w where "at_w = (if ?status = ''pending'' then (None, w1) else case time_now E w1 of (n, w2) \<Rightarrow> (Some n, w2))"
    obtain at w2 where a: "at_w = (at, w2)" by (cases at_w)
    have at: "at = None \<longleftrightarrow> ?status = ''pending''" "tables_of V w2 = tables_of V w1"
      using a by (auto simp: at_w_def quietD(1) split: if_splits prod.splits)
    obtain rr w3 where d: "db_review E ?status (trim_space (upd_Reviewer u)) (upd_Note u) at parsed w2 = (rr, w3)"
      by fastforce
    have "tables_of V w' = tables_of V w3"
      using assms q True p a d
      by (auto simp: UpdateReview_def at_w_def [symmetric] List.member_iff Let_def split: option.splits prod.splits dest!: Get_quiet)
    with review_law [OF d] p at t True show ?thesis by fastforce
  qed (use assms q t in \<open>auto simp: UpdateReview_def List.member_iff Let_def split: option.splits\<close>)
qed

end

end
