(* ===== verification/Table_World.thy ===== *)
theory Table_World
  imports World
begin

text \<open>
  An instance of \<open>World\<close>: the statements of \<open>store.go\<close> and \<open>auth.go\<close> executed on in-memory
  tables with the keys, references and column types of \<open>migrations/001_init.sql\<close>, under a list
  of faults. It discharges the laws of the three locales, and it is the world in which the
  witnesses of the properties run.
\<close>

section \<open>State and faults\<close>

text \<open>A call works, fails without an effect, or fails although it was executed.\<close>

datatype fault = Works | FailsBefore | FailsAfter

record mem =
  m_tables :: tables
  m_clock :: int
  m_faults :: "fault list"
  m_done :: "bool list"
  m_serial :: nat

definition next_fault :: "mem \<Rightarrow> fault \<times> mem" where
  "next_fault m = (case m_faults m of [] \<Rightarrow> (Works, m) | f # fs \<Rightarrow> (f, m\<lparr>m_faults := fs\<rparr>))"

lemma next_fault_frame:
  "next_fault m = (f, m1) \<Longrightarrow> m_tables m1 = m_tables m \<and> m_clock m1 = m_clock m"
  by (auto simp: next_fault_def split: list.splits)

definition lost :: go_error where
  "lost = Failure ''driver: bad connection''"

text \<open>A statement that changes the tables; \<open>None\<close> is a violated constraint.\<close>

definition exec :: "(tables \<Rightarrow> tables option) \<Rightarrow> mem \<Rightarrow> go_error option \<times> mem" where
  "exec f m =
     (case next_fault m of (fault, m1) \<Rightarrow>
        if fault = FailsBefore then (Some lost, m1)
        else case f (m_tables m1) of
               None \<Rightarrow> (Some (Failure ''constraint violated''), m1)
             | Some T \<Rightarrow> (if fault = FailsAfter then Some lost else None, m1\<lparr>m_tables := T\<rparr>))"

text \<open>A query.\<close>

definition ask :: "(tables \<Rightarrow> go_error + 'a) \<Rightarrow> mem \<Rightarrow> (go_error + 'a) \<times> mem" where
  "ask f m =
     (case next_fault m of (fault, m1) \<Rightarrow>
        if fault = Works then (f (m_tables m1), m1) else (Inl lost, m1))"

lemma exec_cases:
  "exec f m = (r, m') \<Longrightarrow> r \<noteq> None \<and> m_tables m' = m_tables m \<or> (\<exists>T. f (m_tables m) = Some T \<and> m_tables m' = T)"
  by (auto simp: exec_def dest: next_fault_frame split: prod.splits option.splits if_splits)

lemma ask_cases:
  "ask f m = (r, m') \<Longrightarrow> m_tables m' = m_tables m \<and> (r = Inl lost \<or> r = f (m_tables m))"
  by (auto simp: ask_def dest: next_fault_frame split: prod.splits if_splits)

section \<open>Reading the WHERE clause\<close>

text \<open>
  The conditions a placeholder with this argument can belong to, and the recovery of the
  conditions from the text and the arguments.
\<close>

fun candidates :: "sql_arg \<Rightarrow> condition list" where
  "candidates (ArgInt u) = [UserIs u]"
| "candidates (ArgText s) = [RequestIs s, StatusIs s, QueryLike (butlast (tl s))]"
| "candidates (ArgTime t) = [FromTime t, ToTime t]"

fun parse_conditions :: "nat \<Rightarrow> string \<Rightarrow> sql_arg list \<Rightarrow> condition list option" where
  "parse_conditions n s [] = (if s = [] then Some [] else None)"
| "parse_conditions n s (a # as) =
     (if \<not> prefix '' AND '' s then None
      else case find (\<lambda>c. prefix (condition_sql n c) (drop 5 s)) (candidates a) of
             None \<Rightarrow> None
           | Some c \<Rightarrow>
               map_option (Cons c) (parse_conditions (Suc n) (drop (length (condition_sql n c)) (drop 5 s)) as))"

definition parse_where :: "string \<Rightarrow> sql_arg list \<Rightarrow> condition list option" where
  "parse_where s args = (if prefix ''1=1'' s then parse_conditions 1 (drop 3 s) args else None)"

lemma find_candidate:
  "find (\<lambda>d. prefix (condition_sql n d) (condition_sql n c @ t)) (candidates (condition_arg c)) = Some c"
  by (cases c) simp_all

lemma join_Cons_concat: "join (x # xs) sep = x @ concat (map ((@) sep) xs)"
  by (induction xs arbitrary: x) simp_all

lemma parse_conditions_sql:
  "parse_conditions n (concat (map ((@) '' AND '') (map (\<lambda>(n, c). condition_sql n c) (enumerate n cs))))
     (map condition_arg cs) = Some cs"
proof (induction cs arbitrary: n)
  case (Cons c cs)
  define rest where "rest = concat (map ((@) '' AND '') (map (\<lambda>(n, c). condition_sql n c) (enumerate (Suc n) cs)))"
  have "parse_conditions (Suc n) rest (map condition_arg cs) = Some cs"
    unfolding rest_def by (rule Cons.IH)
  then have "parse_conditions n ('' AND '' @ (condition_sql n c @ rest)) (map condition_arg (c # cs)) = Some (c # cs)"
    using find_candidate [of n c rest] by simp
  moreover have "concat (map ((@) '' AND '') (map (\<lambda>(n, c). condition_sql n c) (enumerate n (c # cs))))
      = '' AND '' @ (condition_sql n c @ rest)"
    by (simp add: rest_def)
  ultimately show ?case by (simp only:)
qed simp

lemma parse_where_sql: "parse_where (where_sql cs) (map condition_arg cs) = Some cs"
  unfolding parse_where_def where_sql_def join_Cons_concat
  using parse_conditions_sql [of 1 cs] by simp

text \<open>The LIKE operator on characters: percent for any text, underscore for one character.\<close>

fun like :: "nat list \<Rightarrow> nat list \<Rightarrow> bool" where
  "like s [] = (s = [])"
| "like [] (c # p) = (c = 37 \<and> like [] p)"
| "like (d # s) (c # p) =
     (if c = 37 then like (d # s) p \<or> like s (c # p)
      else if c = 95 then like s p
      else d = c \<and> like s p)"

section \<open>The statements\<close>

definition mem_timestamp :: "int \<Rightarrow> int" where
  "mem_timestamp t = t div 1000 * 1000"

definition mem_view :: "mem view" where
  "mem_view =
     \<lparr>tables_of = m_tables,
      db_now = m_clock,
      days_before = (\<lambda>m days. m_clock m - days * seconds 86400),
      timestamp = mem_timestamp,
      sql_uuid = (\<lambda>s. if canonical_uuid s then Some s else None),
      ilike = (\<lambda>s p. like (map unicode_to_lower (runes s)) (map unicode_to_lower (runes p)))\<rparr>"

definition insert_record :: "insert_row \<Rightarrow> tables \<Rightarrow> tables option" where
  "insert_record row T =
     (if fits_schema row \<and> canonical_uuid (col_id row) \<and> col_id row \<notin> col_id ` set (records T)
      then Some (T\<lparr>records := records T @ [stored_row mem_view (col_id row) row]\<rparr>)
      else None)"

definition delete_expired :: "int \<Rightarrow> tables \<Rightarrow> tables option" where
  "delete_expired t T = Some (T\<lparr>records := filter (\<lambda>row. t \<le> col_received_at row) (records T)\<rparr>)"

definition count_records :: "string \<Rightarrow> sql_arg list \<Rightarrow> tables \<Rightarrow> go_error + int" where
  "count_records s args T =
     (case parse_where s args of
        None \<Rightarrow> Inl (Failure ''syntax error'')
      | Some conds \<Rightarrow> Inr (int (length (matching mem_view conds T))))"

definition page_records :: "string \<Rightarrow> nat \<Rightarrow> nat \<Rightarrow> sql_arg list \<Rightarrow> tables \<Rightarrow> go_error + page" where
  "page_records s l_no o_no args T =
     (let n = length args - 2
      in case (parse_where s (take n args), drop n args) of
           (Some conds, [ArgInt l, ArgInt off]) \<Rightarrow>
             if l_no = n + 1 \<and> o_no = n + 2 \<and> 0 \<le> l \<and> 0 \<le> off
             then Inr (map Inr (map page_view (take (nat l) (drop (nat off) (newest_first (matching mem_view conds T))))), None)
             else Inl (Failure ''syntax error'')
         | _ \<Rightarrow> Inl (Failure ''syntax error''))"

definition get_record :: "string \<Rightarrow> tables \<Rightarrow> go_error + record_row" where
  "get_record u T =
     (case find (\<lambda>row. col_id row = u) (records T) of None \<Rightarrow> Inl NoRows | Some row \<Rightarrow> Inr row)"

definition update_review :: "string \<Rightarrow> string \<Rightarrow> string \<Rightarrow> int option \<Rightarrow> string \<Rightarrow> tables \<Rightarrow> tables option" where
  "update_review status reviewer note t u T =
     (if varchar 255 reviewer \<and> pg_text note then Some (set_review mem_view status reviewer note t u T) else None)"

text \<open>\<open>INSERT ... ON CONFLICT DO NOTHING RETURNING username\<close>: a query that writes.\<close>

definition insert_admin :: "string \<Rightarrow> string \<Rightarrow> mem \<Rightarrow> (go_error + string) \<times> mem" where
  "insert_admin u h m =
     (case next_fault m of (fault, m1) \<Rightarrow>
        if fault = FailsBefore then (Inl lost, m1)
        else if u \<in> adm_username ` set (admins (m_tables m1))
             then (if fault = FailsAfter then Inl lost else Inl NoRows, m1)
        else if varchar_refuses 64 u \<or> \<not> pg_text h then (Inl (Failure ''constraint violated''), m1)
        else (if fault = FailsAfter then Inl lost else Inr u,
              m1\<lparr>m_tables := (m_tables m1)\<lparr>admins := admins (m_tables m1) @
                [\<lparr>adm_username = u, adm_password_hash = h, adm_last_login_at = None\<rparr>]\<rparr>\<rparr>))"

definition select_password :: "string \<Rightarrow> tables \<Rightarrow> go_error + string" where
  "select_password u T =
     (case find (\<lambda>a. adm_username a = u) (admins T) of
        None \<Rightarrow> Inl NoRows | Some a \<Rightarrow> Inr (adm_password_hash a))"

definition touch_login :: "int \<Rightarrow> string \<Rightarrow> tables \<Rightarrow> tables option" where
  "touch_login t u T = Some (T\<lparr>admins :=
     map (\<lambda>a. if adm_username a = u then a\<lparr>adm_last_login_at := Some t\<rparr> else a) (admins T)\<rparr>)"

definition insert_session :: "int \<Rightarrow> string \<Rightarrow> string \<Rightarrow> int \<Rightarrow> tables \<Rightarrow> tables option" where
  "insert_session t h u expires T =
     (if u \<in> adm_username ` set (admins T) \<and> h \<notin> ses_token_hash ` set (sessions T)
      then Some (T\<lparr>sessions := sessions T @
        [\<lparr>ses_token_hash = h, ses_username = u, ses_expires_at = mem_timestamp expires, ses_last_seen_at = t\<rparr>]\<rparr>)
      else None)"

definition select_session :: "int \<Rightarrow> string \<Rightarrow> tables \<Rightarrow> go_error + string" where
  "select_session t h T =
     (case find (\<lambda>s. ses_token_hash s = h \<and> t < ses_expires_at s) (sessions T) of
        None \<Rightarrow> Inl NoRows | Some s \<Rightarrow> Inr (ses_username s))"

definition touch_session :: "int \<Rightarrow> string \<Rightarrow> tables \<Rightarrow> tables option" where
  "touch_session t h T = Some (T\<lparr>sessions :=
     map (\<lambda>s. if ses_token_hash s = h \<and> ses_last_seen_at s < t - seconds 300 then s\<lparr>ses_last_seen_at := t\<rparr> else s)
       (sessions T)\<rparr>)"

definition delete_session :: "string \<Rightarrow> tables \<Rightarrow> tables option" where
  "delete_session h T = Some (T\<lparr>sessions := filter (\<lambda>s. ses_token_hash s \<noteq> h) (sessions T)\<rparr>)"

definition expire_sessions :: "int \<Rightarrow> tables \<Rightarrow> tables option" where
  "expire_sessions t T = Some (T\<lparr>sessions := filter (\<lambda>s. t < ses_expires_at s) (sessions T)\<rparr>)"

definition mem_uuid :: "nat \<Rightarrow> string" where
  "mem_uuid n = ''00000000-0000-4000-8000-00000000000'' @ [hex_digit (n mod 16)]"

definition mem_world :: "mem world" where
  "mem_world =
     \<lparr>time_now = (\<lambda>m. (m_clock m, m\<lparr>m_clock := m_clock m + 1\<rparr>)),
      ctx_err = (\<lambda>m. case m_done m of [] \<Rightarrow> (False, m) | b # bs \<Rightarrow> (b, m\<lparr>m_done := bs\<rparr>)),
      wait_done = (\<lambda>d m. case m_done m of
         [] \<Rightarrow> (False, m\<lparr>m_clock := m_clock m + d\<rparr>)
       | b # bs \<Rightarrow> (b, m\<lparr>m_clock := (if b then m_clock m else m_clock m + d), m_done := bs\<rparr>)),
      rand_read = (\<lambda>n m. (Inr (replicate n (char_of (m_serial m))), m\<lparr>m_serial := m_serial m + 1\<rparr>)),
      new_uuid = (\<lambda>m. (mem_uuid (m_serial m), m\<lparr>m_serial := m_serial m + 1\<rparr>)),
      uuid_parse = (\<lambda>s. if canonical_uuid s then Some s else None),
      bcrypt_generate = (\<lambda>p c m. (if 72 < length p then Inl (Failure ''password length exceeds 72 bytes'')
                                  else Inr (''$2a$12$'' @ hex_encode p), m)),
      bcrypt_compare = (\<lambda>h p. h = ''$2a$12$'' @ hex_encode p),
      db_usage = (\<lambda>r m. (None, snd (next_fault m))),
      db_close = (\<lambda>m. (None, m)),
      db_ping = exec Some,
      db_schema = exec Some,
      db_insert = (\<lambda>row. exec (insert_record row)),
      db_delete_expired = (\<lambda>days m. exec (delete_expired (days_before mem_view m days)) m),
      db_count = (\<lambda>s args. ask (count_records s args)),
      db_page = (\<lambda>s l_no o_no args. ask (page_records s l_no o_no args)),
      db_get = (\<lambda>u. ask (get_record u)),
      db_review = (\<lambda>status reviewer note t u. exec (update_review status reviewer note t u)),
      db_insert_admin = insert_admin,
      db_password = (\<lambda>u. ask (select_password u)),
      db_touch_login = (\<lambda>u m. exec (touch_login (m_clock m) u) m),
      db_insert_session = (\<lambda>h u expires m. exec (insert_session (m_clock m) h u expires) m),
      db_session = (\<lambda>h m. ask (select_session (m_clock m) h) m),
      db_touch_session = (\<lambda>h m. exec (touch_session (m_clock m) h) m),
      db_delete_session = (\<lambda>h. exec (delete_session h)),
      db_expire_sessions = (\<lambda>m. exec (expire_sessions (m_clock m)) m)\<rparr>"

section \<open>The laws hold\<close>

lemma view_simps [simp]:
  "tables_of mem_view = m_tables" "db_now mem_view = m_clock" "timestamp mem_view = mem_timestamp"
  by (simp_all add: mem_view_def)

lemma varchar_not_refuses: "varchar n s \<Longrightarrow> \<not> varchar_refuses n s"
  by (simp add: varchar_def varchar_refuses_def)

lemma fits_not_refuses: "fits_schema row \<Longrightarrow> \<not> schema_refuses row"
  by (auto simp: fits_schema_def schema_refuses_def dest: varchar_not_refuses)

lemma exec_Some_quiet: "m_tables (snd (exec Some m)) = m_tables m"
  using exec_cases [of Some m] by (cases "exec Some m") auto

lemma mem_uuid_canonical: "canonical_uuid (mem_uuid n)"
proof -
  have "\<forall>d \<in> set [0..<16]. canonical_uuid (''00000000-0000-4000-8000-00000000000'' @ [hex_digit d])"
    by code_simp
  then show ?thesis unfolding mem_uuid_def by (simp add: atLeast0LessThan)
qed

interpretation mem_services: services mem_world mem_view
  by unfold_locales
    (auto simp: mem_world_def exec_Some_quiet next_fault_def split: list.split)

interpretation mem_audit: audit_db mem_world mem_view
proof
  fix row w r w'
  assume "db_insert mem_world row w = (r, w')"
  then have "exec (insert_record row) w = (r, w')" by (simp add: mem_world_def)
  from exec_cases [OF this]
  show "r \<noteq> None \<and> tables_of mem_view w' = tables_of mem_view w
      \<or> \<not> schema_refuses row \<and> (\<exists>u stored. sql_uuid mem_view (col_id row) = Some u \<and> col_id stored = u
          \<and> u \<notin> col_id ` set (records (tables_of mem_view w))
          \<and> tables_of mem_view w' = (tables_of mem_view w)\<lparr>records := records (tables_of mem_view w) @ [with_defaults stored]\<rparr>
          \<and> col_user_id stored = col_user_id row \<and> col_message_count stored = col_message_count row
          \<and> col_prompt_text stored = col_prompt_text row
          \<and> (fits_schema row \<longrightarrow> with_defaults stored = stored_row mem_view u row))"
    by (auto simp: insert_record_def mem_view_def stored_row_def fits_not_refuses split: if_splits
        intro!: exI [of _ "row\<lparr>col_received_at := mem_timestamp (col_received_at row)\<rparr>"])
next
  fix days w r w'
  assume "db_delete_expired mem_world days w = (r, w')"
  then have "exec (delete_expired (days_before mem_view w days)) w = (r, w')" by (simp add: mem_world_def)
  from exec_cases [OF this]
  show "r \<noteq> None \<and> tables_of mem_view w' = tables_of mem_view w
      \<or> tables_of mem_view w' = (tables_of mem_view w)\<lparr>records :=
          filter (\<lambda>row. days_before mem_view w days \<le> col_received_at row) (records (tables_of mem_view w))\<rparr>"
    by (auto simp: delete_expired_def)
next
  fix conds w rc w'
  assume "db_count mem_world (where_sql conds) (map condition_arg conds) w = (rc, w')"
  then have "ask (count_records (where_sql conds) (map condition_arg conds)) w = (rc, w')" by (simp add: mem_world_def)
  from ask_cases [OF this]
  show "tables_of mem_view w' = tables_of mem_view w
      \<and> (\<forall>n. rc = Inr n \<longrightarrow> n = int (length (matching mem_view conds (tables_of mem_view w))))"
    by (auto simp: count_records_def parse_where_sql)
next
  fix conds limit offset w rp w'
  assume "db_page mem_world (where_sql conds) (length conds + 1) (length conds + 2)
        (map condition_arg conds @ [ArgInt (int limit), ArgInt (int offset)]) w = (rp, w')"
  then have "ask (page_records (where_sql conds) (length conds + 1) (length conds + 2)
        (map condition_arg conds @ [ArgInt (int limit), ArgInt (int offset)])) w = (rp, w')"
    by (simp add: mem_world_def)
  from ask_cases [OF this]
  show "tables_of mem_view w' = tables_of mem_view w
      \<and> (\<forall>rows. rp = Inr (map Inr rows, None) \<longrightarrow> rows = map page_view
           (take limit (drop offset (newest_first (matching mem_view conds (tables_of mem_view w))))))"
    by (auto simp: page_records_def parse_where_sql inj_map_eq_map [OF inj_Inr] simp del: map_map)
next
  fix u w rg w'
  assume "db_get mem_world u w = (rg, w')"
  then have "ask (get_record u) w = (rg, w')" by (simp add: mem_world_def)
  from ask_cases [OF this]
  show "tables_of mem_view w' = tables_of mem_view w
      \<and> (\<forall>row. rg = Inr row \<longrightarrow> row \<in> set (records (tables_of mem_view w)) \<and> col_id row = u)
      \<and> (\<forall>e. rg = Inl e \<and> is_no_rows e \<longrightarrow> u \<notin> col_id ` set (records (tables_of mem_view w)))"
    by (auto simp: get_record_def lost_def find_Some_iff find_None_iff split: option.splits)
next
  fix status reviewer nt t u w r w'
  assume "db_review mem_world status reviewer nt t u w = (r, w')"
  then have "exec (update_review status reviewer nt t u) w = (r, w')" by (simp add: mem_world_def)
  from exec_cases [OF this]
  show "r \<noteq> None \<and> tables_of mem_view w' = tables_of mem_view w
      \<or> pg_text nt \<and> \<not> varchar_refuses 255 reviewer
        \<and> (\<exists>reviewer'. (varchar 255 reviewer \<longrightarrow> reviewer' = reviewer)
             \<and> tables_of mem_view w' = set_review mem_view status reviewer' nt t u (tables_of mem_view w))"
    by (auto simp: update_review_def varchar_not_refuses split: if_splits)
qed (auto simp: mem_world_def mem_view_def mem_uuid_canonical split: if_splits)

interpretation mem_admin: admin_db mem_world mem_view
proof
  fix u h w rs w'
  assume "db_insert_admin mem_world u h w = (rs, w')"
  then have "insert_admin u h w = (rs, w')" by (simp add: mem_world_def)
  then show "(\<exists>e. rs = Inl e \<and> \<not> is_no_rows e) \<and> tables_of mem_view w' = tables_of mem_view w
      \<or> (\<exists>e. rs = Inl e \<and> is_no_rows e) \<and> u \<in> adm_username ` set (admins (tables_of mem_view w))
          \<and> tables_of mem_view w' = tables_of mem_view w
      \<or> (\<forall>e. rs = Inl e \<longrightarrow> \<not> is_no_rows e) \<and> (\<forall>x. rs = Inr x \<longrightarrow> x = u)
          \<and> u \<notin> adm_username ` set (admins (tables_of mem_view w))
          \<and> tables_of mem_view w' = (tables_of mem_view w)\<lparr>admins := admins (tables_of mem_view w) @
              [\<lparr>adm_username = u, adm_password_hash = h, adm_last_login_at = None\<rparr>]\<rparr>"
    by (auto simp: insert_admin_def lost_def dest!: next_fault_frame split: prod.splits if_splits)
next
  fix u w rs w'
  assume "db_password mem_world u w = (rs, w')"
  then have "ask (select_password u) w = (rs, w')" by (simp add: mem_world_def)
  from ask_cases [OF this]
  show "tables_of mem_view w' = tables_of mem_view w
      \<and> (\<forall>h. rs = Inr h \<longrightarrow> (\<exists>a \<in> set (admins (tables_of mem_view w)). adm_username a = u \<and> adm_password_hash a = h))
      \<and> (\<forall>e. rs = Inl e \<and> is_no_rows e \<longrightarrow> u \<notin> adm_username ` set (admins (tables_of mem_view w)))"
    by (auto simp: select_password_def lost_def find_Some_iff find_None_iff split: option.splits intro: nth_mem)
next
  fix u w r w'
  assume "db_touch_login mem_world u w = (r, w')"
  then have "exec (touch_login (m_clock w) u) w = (r, w')" by (simp add: mem_world_def)
  from exec_cases [OF this]
  show "r \<noteq> None \<and> tables_of mem_view w' = tables_of mem_view w
      \<or> (\<exists>t. tables_of mem_view w' = (tables_of mem_view w)\<lparr>admins :=
          map (\<lambda>a. if adm_username a = u then a\<lparr>adm_last_login_at := Some t\<rparr> else a) (admins (tables_of mem_view w))\<rparr>)"
    unfolding touch_login_def view_simps option.inject
    by (elim disjE exE conjE) (simp, rule disjI2, intro exI, simp)
next
  fix h u t w r w'
  assume "db_insert_session mem_world h u t w = (r, w')"
  then have "exec (insert_session (m_clock w) h u t) w = (r, w')" by (simp add: mem_world_def)
  from exec_cases [OF this]
  show "r \<noteq> None \<and> tables_of mem_view w' = tables_of mem_view w
      \<or> u \<in> adm_username ` set (admins (tables_of mem_view w)) \<and> h \<notin> ses_token_hash ` set (sessions (tables_of mem_view w))
        \<and> (\<exists>seen. tables_of mem_view w' = (tables_of mem_view w)\<lparr>sessions := sessions (tables_of mem_view w) @
             [\<lparr>ses_token_hash = h, ses_username = u, ses_expires_at = timestamp mem_view t, ses_last_seen_at = seen\<rparr>]\<rparr>)"
    unfolding insert_session_def view_simps
    by (elim disjE exE conjE) (simp, rule disjI2, auto split: if_splits intro!: exI [of _ "m_clock w"])
next
  fix h w rs w'
  assume "db_session mem_world h w = (rs, w')"
  then have "ask (select_session (m_clock w) h) w = (rs, w')" by (simp add: mem_world_def)
  from ask_cases [OF this]
  show "tables_of mem_view w' = tables_of mem_view w
      \<and> (\<forall>u. rs = Inr u \<longrightarrow> (\<exists>s \<in> set (sessions (tables_of mem_view w)).
           ses_token_hash s = h \<and> ses_username s = u \<and> db_now mem_view w < ses_expires_at s))
      \<and> (\<forall>e. rs = Inl e \<and> is_no_rows e \<longrightarrow>
           \<not> (\<exists>s \<in> set (sessions (tables_of mem_view w)). ses_token_hash s = h \<and> db_now mem_view w < ses_expires_at s))"
    by (auto simp: select_session_def lost_def find_Some_iff find_None_iff split: option.splits intro: nth_mem)
next
  fix h w r w'
  assume "db_touch_session mem_world h w = (r, w')"
  then have "exec (touch_session (m_clock w) h) w = (r, w')" by (simp add: mem_world_def)
  from exec_cases [OF this]
  show "r \<noteq> None \<and> tables_of mem_view w' = tables_of mem_view w
      \<or> (\<exists>P t. tables_of mem_view w' = (tables_of mem_view w)\<lparr>sessions :=
          map (\<lambda>s. if ses_token_hash s = h \<and> P s then s\<lparr>ses_last_seen_at := t\<rparr> else s) (sessions (tables_of mem_view w))\<rparr>)"
    unfolding touch_session_def view_simps option.inject
    by (elim disjE exE conjE) (blast, rule disjI2, intro exI, simp)
next
  fix h w r w'
  assume "db_delete_session mem_world h w = (r, w')"
  then have "exec (delete_session h) w = (r, w')" by (simp add: mem_world_def)
  from exec_cases [OF this]
  show "r \<noteq> None \<and> tables_of mem_view w' = tables_of mem_view w
      \<or> tables_of mem_view w' = (tables_of mem_view w)\<lparr>sessions :=
          filter (\<lambda>s. ses_token_hash s \<noteq> h) (sessions (tables_of mem_view w))\<rparr>"
    by (auto simp: delete_session_def)
next
  fix w r w'
  assume "db_expire_sessions mem_world w = (r, w')"
  then have "exec (expire_sessions (m_clock w)) w = (r, w')" by (simp add: mem_world_def)
  from exec_cases [OF this]
  show "r \<noteq> None \<and> tables_of mem_view w' = tables_of mem_view w
      \<or> tables_of mem_view w' = (tables_of mem_view w)\<lparr>sessions :=
          filter (\<lambda>s. db_now mem_view w < ses_expires_at s) (sessions (tables_of mem_view w))\<rparr>"
    by (auto simp: expire_sessions_def)
qed

text \<open>The progress laws: the context is alive when no answer to come is that it is done.\<close>

definition mem_outlook :: "mem outlook" where
  "mem_outlook = \<lparr>alive = (\<lambda>m. True \<notin> set (m_done m)), faults_left = (\<lambda>m. length (m_faults m)), clock_of = m_clock\<rparr>"

lemma outlook_simps [simp]:
  "alive mem_outlook m \<longleftrightarrow> True \<notin> set (m_done m)" "faults_left mem_outlook m = length (m_faults m)" "clock_of mem_outlook = m_clock"
  by (simp_all add: mem_outlook_def)

lemma next_fault_later: "next_fault m = (f, m1) \<Longrightarrow> later mem_outlook m m1 \<and> (f \<noteq> Works \<longrightarrow> length (m_faults m1) < length (m_faults m))"
  by (auto simp: next_fault_def later_def split: list.splits)

lemma later_tables: "later mem_outlook m (m1\<lparr>m_tables := T\<rparr>) = later mem_outlook m m1"
  by (simp add: later_def)

lemma exec_later: "exec f m = (r, m') \<Longrightarrow> later mem_outlook m m'"
  by (auto simp: exec_def later_tables dest: next_fault_later split: prod.splits option.splits if_splits)

lemma exec_fault:
  assumes "exec f m = (r, m')" and "f (m_tables m) = Some T" and "r \<noteq> None \<or> m_tables m' \<noteq> T"
  shows "length (m_faults m') < length (m_faults m)"
proof -
  obtain fault m1 where n: "next_fault m = (fault, m1)" by fastforce
  then have "fault \<noteq> Works" and "m_faults m' = m_faults m1"
    using assms next_fault_frame [OF n] by (auto simp: exec_def split: if_splits)
  with next_fault_later [OF n] show ?thesis by simp
qed

interpretation mem_live: live_services mem_world mem_view mem_outlook
proof
  fix w t w'
  assume "time_now mem_world w = (t, w')"
  then show "later mem_outlook w w' \<and> clock_of mem_outlook w \<le> t \<and> t \<le> clock_of mem_outlook w'"
    by (auto simp: mem_world_def later_def)
next
  fix w
  show "later mem_outlook w (snd (new_uuid mem_world w))" by (simp add: mem_world_def later_def)
next
  fix w b w'
  assume "ctx_err mem_world w = (b, w')"
  then show "later mem_outlook w w' \<and> (alive mem_outlook w \<longrightarrow> \<not> b)"
    by (auto simp: mem_world_def later_def split: list.splits)
next
  fix d :: int and w b w'
  assume "wait_done mem_world d w = (b, w')" and "0 \<le> d"
  then show "later mem_outlook w w' \<and> (alive mem_outlook w \<longrightarrow> \<not> b) \<and> (\<not> b \<longrightarrow> clock_of mem_outlook w + d \<le> clock_of mem_outlook w')"
    by (auto simp: mem_world_def later_def split: list.splits)
next
  fix w r w'
  assume "db_ping mem_world w = (r, w')"
  then have e: "exec Some w = (r, w')" by (simp add: mem_world_def)
  show "later mem_outlook w w' \<and> (r \<noteq> None \<longrightarrow> faults_left mem_outlook w' < faults_left mem_outlook w)"
    using exec_later [OF e] exec_fault [OF e refl] by simp
next
  fix w r w'
  assume "db_schema mem_world w = (r, w')"
  then have e: "exec Some w = (r, w')" by (simp add: mem_world_def)
  show "later mem_outlook w w' \<and> (r \<noteq> None \<longrightarrow> faults_left mem_outlook w' < faults_left mem_outlook w)"
    using exec_later [OF e] exec_fault [OF e refl] by simp
qed

lemma append_changes: "T\<lparr>records := records T @ [x]\<rparr> \<noteq> T"
proof
  assume "T\<lparr>records := records T @ [x]\<rparr> = T"
  then have "records (T\<lparr>records := records T @ [x]\<rparr>) = records T" by simp
  then show False by simp
qed

interpretation mem_live_audit: live_audit_db mem_world mem_view mem_outlook
proof
  fix row w r w'
  assume "db_insert mem_world row w = (r, w')"
  then have e: "exec (insert_record row) w = (r, w')" by (simp add: mem_world_def)
  then show "later mem_outlook w w'" by (rule exec_later)
  fix u
  assume "fits_schema row" "sql_uuid mem_view (col_id row) = Some u" "u \<notin> col_id ` set (records (tables_of mem_view w))"
    and t: "tables_of mem_view w' = tables_of mem_view w"
  then have "insert_record row (m_tables w) = Some ((m_tables w)\<lparr>records := records (m_tables w) @ [stored_row mem_view (col_id row) row]\<rparr>)"
    by (simp add: insert_record_def mem_view_def split: if_splits)
  with exec_fault [OF e] t append_changes [of "m_tables w" "stored_row mem_view (col_id row) row", symmetric]
  show "faults_left mem_outlook w' < faults_left mem_outlook w" by simp
qed

interpretation mem_live_admin: live_admin_db mem_world mem_view mem_outlook
proof
  fix u h w x w'
  assume "db_insert_admin mem_world u h w = (x, w')"
  then have "insert_admin u h w = (x, w')" by (simp add: mem_world_def)
  then show "later mem_outlook w w'"
    by (auto simp: insert_admin_def later_tables dest: next_fault_later split: prod.splits if_splits)
next
  fix u h w e w'
  assume "db_insert_admin mem_world u h w = (Inl e, w')" and c: "\<not> is_no_rows e" "\<not> varchar_refuses 64 u" "pg_text h"
  then have "insert_admin u h w = (Inl e, w')" by (simp add: mem_world_def)
  with c show "faults_left mem_outlook w' < faults_left mem_outlook w"
    by (auto simp: insert_admin_def dest: next_fault_later split: prod.splits if_splits)
qed

end
