(* ===== verification/Store_Props.thy ===== *)
theory Store_Props
  imports Store_Facts Table_World
begin

text \<open>
  The properties of the audit store, for every world that satisfies the laws of \<open>audit_db\<close>:
  the schema back-off, the invariant of the tables under any sequence of operations, the
  append-only log, and the round trips of records, pages and reviews.
\<close>

section \<open>Sequences of operations\<close>

datatype store_event =
    EvPing
  | EvInsert capture_record
  | EvExpire int
  | EvList record_filter
  | EvGet string
  | EvReview string review_update

fun run_event :: "'w world \<Rightarrow> store_event \<Rightarrow> store option \<times> 'w \<Rightarrow> store option \<times> 'w" where
  "run_event E EvPing (s, w) = snd (Ping E s w)"
| "run_event E (EvInsert rec) (s, w) = snd (Insert E rec s w)"
| "run_event E (EvExpire days) (s, w) = snd (DeleteExpired E days s w)"
| "run_event E (EvList f) (s, w) = snd (List_records E f s w)"
| "run_event E (EvGet i) (s, w) = snd (Get E i s w)"
| "run_event E (EvReview i u) (s, w) = snd (UpdateReview E i u s w)"

definition run_events :: "'w world \<Rightarrow> store_event list \<Rightarrow> store option \<times> 'w \<Rightarrow> store option \<times> 'w" where
  "run_events E evs st = fold (run_event E) evs st"

context audit_db
begin

text \<open>The effect of one operation on the tables, as one of four cases.\<close>

lemma run_event_effect:
  assumes "run_event E ev (s, w) = (s', w')"
  shows "tables_of V w' = tables_of V w
    \<or> (\<exists>r. col_id r \<notin> col_id ` set (records (tables_of V w))
         \<and> tables_of V w' = (tables_of V w)\<lparr>records := records (tables_of V w) @ [with_defaults r]\<rparr>)
    \<or> (\<exists>days t. ev = EvExpire days \<and> tables_of V w' = (tables_of V w)\<lparr>records :=
          filter (\<lambda>row. t \<le> col_received_at row) (records (tables_of V w))\<rparr>)
    \<or> (\<exists>status reviewer n t u. tables_of V w' = set_review V status reviewer n t u (tables_of V w)
         \<and> status \<in> set review_statuses \<and> (t = None \<longleftrightarrow> status = ''pending''))"
proof (cases ev)
  case EvPing
  then show ?thesis using assms by (cases "Ping E s w") (auto dest: Ping_quiet)
next
  case (EvInsert rec)
  with assms obtain r where "Insert E rec s w = (r, s', w')" by (cases "Insert E rec s w") auto
  from Insert_effect [OF this] show ?thesis by blast
next
  case (EvExpire days)
  with assms obtain r where "DeleteExpired E days s w = (r, s', w')" by (cases "DeleteExpired E days s w") auto
  from DeleteExpired_effect [OF this] EvExpire show ?thesis by blast
next
  case (EvList f)
  with assms obtain r where "List_records E f s w = (r, s', w')" by (cases "List_records E f s w") auto
  from List_effect [OF this] show ?thesis by blast
next
  case (EvGet i)
  with assms obtain r where "Get E i s w = (r, s', w')" by (cases "Get E i s w") auto
  from Get_quiet [OF this] show ?thesis by blast
next
  case (EvReview i u)
  with assms obtain r where "UpdateReview E i u s w = (r, s', w')" by (cases "UpdateReview E i u s w") auto
  from UpdateReview_effect [OF this] show ?thesis by blast
qed

lemma run_event_inv [keeps_inv]:
  assumes "run_event E ev (s, w) = (s', w')" and "store_inv (tables_of V w)"
  shows "store_inv (tables_of V w')"
  using run_event_effect [OF assms(1)] assms(2)
  by (elim disjE exE conjE) (simp_all add: store_inv_append store_inv_filter store_inv_set_review)

lemma run_event_captures:
  assumes "run_event E ev (s, w) = (s', w')" and "\<forall>days. ev \<noteq> EvExpire days"
  shows "prefix (captures (tables_of V w)) (captures (tables_of V w'))"
  using run_event_effect [OF assms(1)] assms(2)
  by (elim disjE exE conjE) (simp_all add: captures_append captures_set_review)

lemma run_events_inv:
  "store_inv (tables_of V w) \<Longrightarrow> store_inv (tables_of V (snd (run_events E evs (s, w))))"
proof (induction evs arbitrary: s w)
  case (Cons ev evs)
  obtain s1 w1 where e: "run_event E ev (s, w) = (s1, w1)" by (cases "run_event E ev (s, w)")
  from Cons.IH [OF run_event_inv [OF e Cons.prems], of s1] e show ?case by (simp add: run_events_def)
qed (simp add: run_events_def)

lemma run_events_captures:
  "(\<forall>ev \<in> set evs. \<forall>days. ev \<noteq> EvExpire days) \<Longrightarrow>
     prefix (captures (tables_of V w)) (captures (tables_of V (snd (run_events E evs (s, w)))))"
proof (induction evs arbitrary: s w)
  case (Cons ev evs)
  obtain s1 w1 where e: "run_event E ev (s, w) = (s1, w1)" by (cases "run_event E ev (s, w)")
  then have "prefix (captures (tables_of V w)) (captures (tables_of V w1))"
    using run_event_captures Cons.prems by auto
  moreover have "prefix (captures (tables_of V w1)) (captures (tables_of V (snd (run_events E evs (s1, w1)))))"
    using Cons by simp
  ultimately show ?case using e by (auto simp: run_events_def intro: prefix_order.trans)
qed (simp add: run_events_def)

lemma Get_row:
  assumes "Get E i s w = (Inr item, s', w')"
  shows "\<exists>parsed row. uuid_parse E (trim_space i) = Some parsed \<and> row \<in> set (records (tables_of V w))
    \<and> col_id row = parsed \<and> item = scanRecordSummary row True"
proof -
  obtain q s1 w1 where q: "ensureSchema E s w = (q, s1, w1)" by (cases "ensureSchema E s w")
  with assms have "q = None" by (cases q) (auto simp: Get_def)
  with assms q obtain parsed row where p: "uuid_parse E (trim_space i) = Some parsed"
    "db_get E parsed w1 = (Inr row, w')" "item = scanRecordSummary row True"
    by (auto simp: Get_def split: option.splits prod.splits sum.splits)
  with get_law [OF p(2)] ensureSchema_quiet [OF q] show ?thesis by auto
qed

lemma parsed_again: "uuid_parse E i = Some u \<Longrightarrow> uuid_parse E (trim_space u) = Some u"
  using uuid_parse_canonical uuid_parse_id canonical_uuid_trim by auto

lemma UpdateReview_success:
  assumes "UpdateReview E i u s w = (Inr item, s', w')"
  shows "\<exists>parsed status reviewer' t w3 s3. uuid_parse E (trim_space i) = Some parsed
    \<and> Get E parsed s3 w3 = (Inr item, s', w')
    \<and> status = to_lower (trim_space (upd_Status u)) \<and> status \<in> set review_statuses
    \<and> (t = None \<longleftrightarrow> status = ''pending'')
    \<and> (varchar 255 (trim_space (upd_Reviewer u)) \<longrightarrow> reviewer' = trim_space (upd_Reviewer u))
    \<and> tables_of V w3 = set_review V status reviewer' (upd_Note u) t parsed (tables_of V w)"
proof -
  obtain q s1 w1 where q: "ensureSchema E s w = (q, s1, w1)" by (cases "ensureSchema E s w")
  let ?status = "to_lower (trim_space (upd_Status u))"
  have "q = None" using assms q by (cases q) (auto simp: UpdateReview_def)
  with assms q obtain parsed where p: "uuid_parse E (trim_space i) = Some parsed" "?status \<in> set review_statuses"
    by (auto simp: UpdateReview_def Let_def split: option.splits if_splits)
  define at_w where "at_w = (if ?status = ''pending'' then (None, w1) else case time_now E w1 of (n, w2) \<Rightarrow> (Some n, w2))"
  obtain at w2 where a: "at_w = (at, w2)" by (cases at_w)
  have at: "at = None \<longleftrightarrow> ?status = ''pending''" "tables_of V w2 = tables_of V w1"
    using a by (auto simp: at_w_def quietD(1) split: if_splits prod.splits)
  obtain rr w3 where d: "db_review E ?status (trim_space (upd_Reviewer u)) (upd_Note u) at parsed w2 = (rr, w3)"
    by fastforce
  have "rr = None \<and> Get E parsed s1 w3 = (Inr item, s', w')"
    using assms q \<open>q = None\<close> p a d
    by (auto simp: UpdateReview_def at_w_def [symmetric] Let_def split: option.splits)
  with review_law [OF d] at p ensureSchema_quiet [OF q] show ?thesis by metis
qed

lemma unique_row:
  "unique_ids T \<Longrightarrow> row \<in> set (records T) \<Longrightarrow> row' \<in> set (records T) \<Longrightarrow> col_id row = col_id row' \<Longrightarrow> row = row'"
  by (auto simp: unique_ids_def distinct_map inj_on_def)

lemma Insert_stores:
  assumes "Insert E rec s w = (None, s1, w1)" and "canonical_uuid (cr_ID rec)" and "fits_schema (insert_args rec)"
  shows "tables_of V w1 = (tables_of V w)\<lparr>records := records (tables_of V w) @ [stored_row V (cr_ID rec) (insert_args rec)]\<rparr>
    \<and> cr_ID rec \<notin> col_id ` set (records (tables_of V w))"
  using Insert_effect [OF assms(1)] assms(2,3) sql_uuid_id by force

lemma Get_stored:
  assumes "Insert E rec s w = (None, s1, w1)" and "canonical_uuid (cr_ID rec)" and "fits_schema (insert_args rec)"
    and "store_inv (tables_of V w)" and "Get E (cr_ID rec) s1 w1 = (r, s2, w2)"
  shows "(\<forall>item. r = Inr item \<longrightarrow> item = scanRecordSummary (stored_row V (cr_ID rec) (insert_args rec)) True)
    \<and> (\<forall>e. r = Inl e \<longrightarrow> \<not> is_no_rows e)"
proof -
  note t = Insert_stores [OF assms(1-3)]
  let ?row = "stored_row V (cr_ID rec) (insert_args rec)"
  have row: "?row \<in> set (records (tables_of V w1))" "col_id ?row = cr_ID rec"
    using t by (simp_all add: stored_row_def)
  have "unique_ids (tables_of V w1)"
    using run_event_inv [of "EvInsert rec" s w s1 w1] assms(1,4) by (simp add: store_inv_def)
  then have "item = scanRecordSummary ?row True" if "r = Inr item" for item
    using Get_row assms(5) that row unique_row canonical_uuid_trim [OF assms(2)] uuid_parse_id [OF assms(2)] by fastforce
  moreover have "\<not> is_no_rows e" if e: "r = Inl e" for e
  proof -
    obtain q v x where q: "ensureSchema E s w = (q, v, x)" by (cases "ensureSchema E s w")
    with assms(1) have "q = None" "s1 = v" by (auto simp: Insert_def split: option.splits prod.splits)
    then have "ensureSchema E s1 w1 = (None, s1, w1)" using q ensureSchema_again [of E s w v x w1] by simp
    then have "db_get E (cr_ID rec) w1 = (Inl e, w2)"
      using assms(5) e canonical_uuid_trim [OF assms(2)] uuid_parse_id [OF assms(2)]
      by (auto simp: Get_def split: sum.splits prod.splits)
    from get_law [OF this] row show ?thesis by force
  qed
  ultimately show ?thesis by blast
qed

end

section \<open>A record and a world for the witnesses\<close>

definition sample_capture :: capture_record where
  "sample_capture =
     \<lparr>cr_ID = mem_uuid 1, cr_ReceivedAt = 5000, cr_RequestID = ''req-1'', cr_ClientRequestID = ''cli-1'',
      cr_Identity = \<lparr>UserID = Some 42, Username = ''ann'', Email = [], APIKeyID = Some 7, APIKeyName = ''ci'',
                     IdentitySource = ''api_key_map''\<rparr>,
      cr_Endpoint = ''/v1/chat/completions'', cr_Protocol = ''openai-chat'', cr_Model = ''gpt'',
      cr_Messages = [\<lparr>Index = 0, Text = ''hi'', Source = ''messages.content''\<rparr>],
      cr_PromptText = ''hi'', cr_PromptSHA256 = replicate 64 (CHR ''0''), cr_MessageCount = 1,
      cr_ParseStatus = ''parsed'', cr_Truncated = False, cr_ExcludedRoles = Some Map.empty\<rparr>"

definition empty_tables :: tables where
  "empty_tables = \<lparr>records = [], admins = [], sessions = []\<rparr>"

definition mem_start :: mem where
  "mem_start = \<lparr>m_tables = empty_tables, m_clock = 0, m_faults = [], m_done = [], m_serial = 1\<rparr>"

abbreviation fresh_store :: "store option" where
  "fresh_store \<equiv> Some new_store"

lemma sample_fits: "fits_schema (insert_args sample_capture)"
  by code_simp

lemma sample_canonical: "canonical_uuid (cr_ID sample_capture)"
  by (simp add: sample_capture_def mem_uuid_canonical)

lemma start_inv: "store_inv (tables_of mem_view mem_start)"
  by (simp add: mem_start_def empty_tables_def store_inv_def unique_ids_def reviews_ok_def)

section \<open>Properties\<close>

text \<open>
  C9. Whatever sequence of store operations runs, with whatever results and database faults, the
  tables keep their invariant: no two rows share an id, every review status is one of the four,
  and a row has a review time exactly when it is not pending.
\<close>

theorem store_operations_keep_invariant:
  assumes "audit_db E V" and "store_inv (tables_of V w)"
  shows "store_inv (tables_of V (snd (run_events E evs (s, w))))"
  using audit_db.run_events_inv [OF assms] .

theorem store_operations_keep_invariant_witness:
  "store_inv (m_tables (snd (run_events mem_world
     [EvInsert sample_capture, EvReview (mem_uuid 1) \<lparr>upd_Status = ''Flagged'', upd_Reviewer = ''bob'', upd_Note = []\<rparr>,
      EvInsert sample_capture] (fresh_store, mem_start\<lparr>m_faults := [Works, Works, FailsAfter]\<rparr>))))"
  using store_operations_keep_invariant [OF mem_audit.audit_db_axioms, of "mem_start\<lparr>m_faults := [Works, Works, FailsAfter]\<rparr>"]
    start_inv by (simp add: mem_start_def)

text \<open>
  C11. The audit log is append-only: apart from retention, no operation changes or removes a
  captured column of a row. What was captured before is an initial part of what is captured
  after, in the same order; a review changes the review columns only.
\<close>

theorem audit_log_append_only:
  assumes "audit_db E V" and "\<forall>ev \<in> set evs. \<forall>days. ev \<noteq> EvExpire days"
  shows "prefix (captures (tables_of V w)) (captures (tables_of V (snd (run_events E evs (s, w)))))"
  using audit_db.run_events_captures [OF assms] .

theorem audit_log_append_only_witness:
  "prefix (captures (m_tables mem_start)) (captures (m_tables (snd (run_events mem_world
     [EvInsert sample_capture, EvReview (mem_uuid 1) \<lparr>upd_Status = ''ignored'', upd_Reviewer = [], upd_Note = []\<rparr>]
     (fresh_store, mem_start)))))"
  using audit_log_append_only [OF mem_audit.audit_db_axioms,
    of "[EvInsert sample_capture, EvReview (mem_uuid 1) \<lparr>upd_Status = ''ignored'', upd_Reviewer = [], upd_Note = []\<rparr>]"
      mem_start fresh_store] by simp

text \<open>What the detail view of a freshly captured record has to show, field by field.\<close>

definition captured_summary :: "'w view \<Rightarrow> capture_record \<Rightarrow> record_summary" where
  "captured_summary V rec =
     \<lparr>sum_ID = cr_ID rec, sum_ReceivedAt = timestamp V (cr_ReceivedAt rec), sum_RequestID = cr_RequestID rec,
      sum_ClientRequestID = cr_ClientRequestID rec, sum_UserID = UserID (cr_Identity rec), sum_Username = Username (cr_Identity rec),
      sum_Email = Email (cr_Identity rec), sum_APIKeyID = APIKeyID (cr_Identity rec), sum_APIKeyName = APIKeyName (cr_Identity rec),
      sum_IdentitySource = IdentitySource (cr_Identity rec), sum_Endpoint = cr_Endpoint rec, sum_Protocol = cr_Protocol rec,
      sum_Model = cr_Model rec, sum_Messages = cr_Messages rec, sum_PromptText = cr_PromptText rec,
      sum_PromptPreview = truncateUTF8 (cr_PromptText rec) 512, sum_PromptSHA256 = cr_PromptSHA256 rec,
      sum_MessageCount = int (cr_MessageCount rec), sum_ParseStatus = cr_ParseStatus rec, sum_Truncated = cr_Truncated rec,
      sum_ExcludedRoleCounts = (case cr_ExcludedRoles rec of None \<Rightarrow> Map.empty | Some m \<Rightarrow> m),
      sum_ReviewStatus = ''pending'', sum_Reviewer = [], sum_ReviewNote = [], sum_ReviewedAt = None\<rparr>"

text \<open>
  C21. Insert and Get are a round trip: after a successful insert of a record that fits the
  columns and whose messages are valid UTF-8, the record is found under its id, and what Get
  returns has every captured field where it belongs, the review pending and without a reviewer,
  note or time, and the receive time up to the precision of the database.
\<close>

theorem insert_get_roundtrip:
  assumes "audit_db E V" and "store_inv (tables_of V w)"
    and "Insert E rec s w = (None, s1, w1)" and "canonical_uuid (cr_ID rec)" and "fits_schema (insert_args rec)"
    and "Get E (cr_ID rec) s1 w1 = (r, s2, w2)"
    and "\<forall>m \<in> set (cr_Messages rec). valid_utf8 (Text m) \<and> valid_utf8 (Source m)"
  shows "(\<forall>item. r = Inr item \<longrightarrow> item = captured_summary V rec) \<and> (\<forall>e. r = Inl e \<longrightarrow> \<not> is_no_rows e)"
  using audit_db.Get_stored [OF assms(1,3,4,5,2,6)] assms(7)
  by (auto simp: captured_summary_def scanRecordSummary_def stored_row_def with_defaults_def insert_row.defs insert_args_def
      marshal_messages_valid)

definition after_insert :: "go_error option \<times> store option \<times> mem" where
  "after_insert = Insert mem_world sample_capture fresh_store mem_start"

definition after_get :: "(go_error + record_summary) \<times> store option \<times> mem" where
  "after_get = Get mem_world (cr_ID sample_capture) (fst (snd after_insert)) (snd (snd after_insert))"

lemma after_insert_ok:
  "Insert mem_world sample_capture fresh_store mem_start = (None, fst (snd after_insert), snd (snd after_insert))"
proof -
  have "fst after_insert = None" by code_simp
  then show ?thesis by (metis after_insert_def prod.collapse)
qed

lemma after_get_ok: "\<exists>item. fst after_get = Inr item"
proof -
  have "case fst after_get of Inr _ \<Rightarrow> True | Inl _ \<Rightarrow> False" by code_simp
  then show ?thesis by (cases "fst after_get") auto
qed

theorem insert_get_roundtrip_witness:
  "\<exists>item. fst after_get = Inr item \<and> sum_PromptText item = ''hi'' \<and> sum_UserID item = Some 42
     \<and> sum_Messages item = cr_Messages sample_capture"
proof -
  obtain item where item: "fst after_get = Inr item" using after_get_ok by blast
  have g: "Get mem_world (cr_ID sample_capture) (fst (snd after_insert)) (snd (snd after_insert))
      = (fst after_get, fst (snd after_get), snd (snd after_get))" by (simp add: after_get_def)
  have v: "\<forall>m \<in> set (cr_Messages sample_capture). valid_utf8 (Text m) \<and> valid_utf8 (Source m)"
    by (simp add: sample_capture_def valid_utf8_ascii) code_simp
  show ?thesis
    using insert_get_roundtrip [OF mem_audit.audit_db_axioms start_inv after_insert_ok sample_canonical sample_fits g v] item
    by (simp add: sample_capture_def captured_summary_def)
qed

text \<open>
  C22. A page of the record list is exact: when \<open>List\<close> succeeds, the limit lies between 1 and 200
  and the offset between 0 and 1000000, the total is the number of rows that satisfy every
  condition of the filter, and the items are the requested section of those rows, newest first,
  without prompt text or messages.
\<close>

theorem list_page_exact:
  assumes "audit_db E V" and "List_records E f s w = (Inr res, s', w')"
  shows "1 \<le> lr_Limit res \<and> lr_Limit res \<le> 200 \<and> 0 \<le> lr_Offset res \<and> lr_Offset res \<le> 1000000
    \<and> int (length (lr_Items res)) \<le> lr_Limit res
    \<and> lr_Total res = int (length (matching V (conditions_of f) (tables_of V w)))
    \<and> lr_Items res = map (\<lambda>row. scanRecordSummary (page_view row) False)
         (take (nat (lr_Limit res)) (drop (nat (lr_Offset res))
            (newest_first (matching V (conditions_of f) (tables_of V w)))))
    \<and> (\<forall>item \<in> set (lr_Items res). sum_PromptText item = [] \<and> sum_Messages item = [])"
  using audit_db.List_effect [OF assms] clamp_page_bounds [of f]
  by (auto simp: scanRecordSummary_def)

definition pending_filter :: record_filter where
  "pending_filter = \<lparr>flt_UserID = Some 42, flt_RequestID = [], flt_Query = ''H'', flt_ReviewStatus = ''Pending'',
     flt_From = None, flt_To = None, flt_Limit = 0, flt_Offset = 0\<rparr>"

definition after_list :: "(go_error + list_result) \<times> store option \<times> mem" where
  "after_list = List_records mem_world pending_filter (fst (snd after_insert)) (snd (snd after_insert))"

lemma after_list_ok:
  "List_records mem_world pending_filter (fst (snd after_insert)) (snd (snd after_insert)) =
     (Inr (projr (fst after_list)), fst (snd after_list), snd (snd after_list))"
proof -
  have "case fst after_list of Inr _ \<Rightarrow> True | Inl _ \<Rightarrow> False" by code_simp
  then have "fst after_list = Inr (projr (fst after_list))" by (cases "fst after_list") auto
  then show ?thesis by (simp add: after_list_def prod_eq_iff)
qed

theorem list_page_exact_witness:
  "lr_Limit (projr (fst after_list)) \<le> 200 \<and> lr_Total (projr (fst after_list)) = 1"
proof -
  have "lr_Total (projr (fst after_list)) = 1" by code_simp
  then show ?thesis using list_page_exact [OF mem_audit.audit_db_axioms after_list_ok] by blast
qed

text \<open>
  C34. No value of a filter reaches the SQL text: the clauses of two filters that set the same
  fields are the same text, and there is one argument for each condition, with the placeholder
  numbers in the order of the arguments.
\<close>

theorem where_text_value_independent:
  assumes "flt_UserID f = None \<longleftrightarrow> flt_UserID g = None" and "flt_RequestID f = [] \<longleftrightarrow> flt_RequestID g = []"
    and "flt_Query f = [] \<longleftrightarrow> flt_Query g = []" and "flt_From f = None \<longleftrightarrow> flt_From g = None"
    and "flt_To f = None \<longleftrightarrow> flt_To g = None" and "flt_ReviewStatus f = [] \<longleftrightarrow> flt_ReviewStatus g = []"
  shows "fst (build_where f) = fst (build_where g)
    \<and> build_where f = (''1=1'' # map (\<lambda>(n, c). condition_sql n c) (enumerate 1 (conditions_of f)),
                      map condition_arg (conditions_of f))"
proof -
  let ?same = "\<lambda>c d. \<forall>n. condition_sql n c = condition_sql n d"
  have "list_all2 ?same (conditions_of f) (conditions_of g)"
    unfolding conditions_of_def using assms
    by (intro list_all2_appendI) (auto split: option.split)
  then have "map (\<lambda>(n, c). condition_sql n c) (enumerate k (conditions_of f))
      = map (\<lambda>(n, c). condition_sql n c) (enumerate k (conditions_of g))" for k
    by (induction arbitrary: k rule: list_all2_induct) auto
  then show ?thesis by (simp add: build_where_rendered rendered_def)
qed

theorem where_text_value_independent_witness:
  "fst (build_where pending_filter) = fst (build_where (pending_filter\<lparr>flt_Query := ''x OR 1=1 --''\<rparr>))"
  by (rule where_text_value_independent [THEN conjunct1]) (simp_all add: pending_filter_def)

text \<open>
  C29. The schema back-off: when an initialisation is tried on an open store and fails, the code
  reads the clock, at \<open>n0\<close>. Every further attempt at a time before \<open>n0\<close> plus five seconds returns the
  same error after only reading the clock, without a call to the database; from that time on the
  initialisation is tried again and succeeds when the database does.
\<close>

theorem schema_backoff:
  assumes "ensureSchema E (Some st) w = (Some e, s1, w1)" and "store_db st" and "\<not> fst (backing_off E st w)"
  shows "\<exists>v0 n0. time_now E v0 = (n0, w1) \<and> (\<forall>v n v1. time_now E v = (n, v1) \<longrightarrow>
    (n < n0 + 5 * 10 ^ 9 \<longrightarrow> ensureSchema E s1 v = (Some e, s1, v1))
    \<and> (n0 + 5 * 10 ^ 9 \<le> n \<longrightarrow> (\<forall>v2 v3. db_ping E v1 = (None, v2) \<and> db_schema E v2 = (None, v3) \<longrightarrow>
         fst (ensureSchema E s1 v) = None)))"
proof -
  obtain v0 e1 where f: "schema_failed E e1 st v0 = (Some e, s1, w1)" "\<not> schemaReady st"
    using assms by (auto simp: ensureSchema_def split: option.splits prod.splits bool.splits if_splits)
  obtain n0 v1 where n: "time_now E v0 = (n0, v1)" by fastforce
  define st1 where "st1 = st\<lparr>lastSchemaErr := Some e, nextSchemaTry := Some (n0 + seconds 5)\<rparr>"
  have s1: "s1 = Some st1" "store_db st1" "\<not> schemaReady st1" "nextSchemaTry st1 = Some (n0 + seconds 5)"
    "lastSchemaErr st1 = Some e" "v1 = w1"
    using f n assms(2) by (auto simp: schema_failed_def st1_def)
  show ?thesis
    using n s1 by (intro exI [of _ v0] exI [of _ n0]) (auto simp: ensureSchema_defs)
qed

theorem schema_backoff_witness:
  "\<exists>s1 w1. ensureSchema mem_world fresh_store (mem_start\<lparr>m_faults := [FailsBefore]\<rparr>) = (Some lost, s1, w1)
    \<and> fst (ensureSchema mem_world s1 w1) = Some lost \<and> fst (ensureSchema mem_world s1 (w1\<lparr>m_clock := 5 * 10 ^ 9\<rparr>)) = None"
proof -
  define x where "x = ensureSchema mem_world fresh_store (mem_start\<lparr>m_faults := [FailsBefore]\<rparr>)"
  have w1: "fst x = Some lost" "snd (snd x) = mem_start\<lparr>m_clock := 1\<rparr>"
    by (simp_all add: x_def ensureSchema_defs new_store_def mem_world_def mem_start_def exec_def next_fault_def Let_def)
  then have x: "ensureSchema mem_world fresh_store (mem_start\<lparr>m_faults := [FailsBefore]\<rparr>)
      = (Some lost, fst (snd x), mem_start\<lparr>m_clock := 1\<rparr>)"
    by (metis x_def prod.collapse)
  have tn: "time_now mem_world v = (m_clock v, v\<lparr>m_clock := m_clock v + 1\<rparr>)" for v
    by (simp add: mem_world_def)
  have db: "db_ping mem_world m = (None, m)" "db_schema mem_world m = (None, m)" if "m_faults m = []" for m
    using that by (simp_all add: mem_world_def exec_def next_fault_def)
  have "store_db new_store" "\<not> fst (backing_off mem_world new_store (mem_start\<lparr>m_faults := [FailsBefore]\<rparr>))"
    by (simp_all add: new_store_def backing_off_def)
  from schema_backoff [OF x this] obtain v0 n0 where n0: "time_now mem_world v0 = (n0, mem_start\<lparr>m_clock := 1\<rparr>)"
    and later: "\<And>v. m_clock v < n0 + 5 * 10 ^ 9 \<Longrightarrow> fst (ensureSchema mem_world (fst (snd x)) v) = Some lost"
      "\<And>v. n0 + 5 * 10 ^ 9 \<le> m_clock v \<Longrightarrow> m_faults v = [] \<Longrightarrow> fst (ensureSchema mem_world (fst (snd x)) v) = None"
    using tn db by fastforce
  have "n0 = 0"
    using n0 arg_cong [of _ _ m_clock] by (fastforce simp: tn mem_start_def)
  with later [of "mem_start\<lparr>m_clock := 1\<rparr>"] later [of "mem_start\<lparr>m_clock := 5 * 10 ^ 9\<rparr>"] show ?thesis
    unfolding x by (simp add: mem_start_def)
qed

text \<open>
  C33. A review is a round trip too: when \<open>UpdateReview\<close> succeeds, the status is one of the four,
  the record returned carries the trimmed and lowered status, the note, the reviewer as far as
  it fits its column, and a review time exactly when the status is not pending.
\<close>

theorem review_roundtrip:
  assumes "audit_db E V" and "UpdateReview E i u s w = (Inr item, s', w')"
  shows "sum_ReviewStatus item = to_lower (trim_space (upd_Status u))
    \<and> sum_ReviewStatus item \<in> set review_statuses \<and> sum_ReviewNote item = upd_Note u
    \<and> (varchar 255 (trim_space (upd_Reviewer u)) \<longrightarrow> sum_Reviewer item = trim_space (upd_Reviewer u))
    \<and> (sum_ReviewedAt item = None \<longleftrightarrow> sum_ReviewStatus item = ''pending'')
    \<and> uuid_parse E (trim_space i) = Some (sum_ID item)"
proof -
  obtain parsed status reviewer' t w3 s3 where p: "uuid_parse E (trim_space i) = Some parsed"
    "Get E parsed s3 w3 = (Inr item, s', w')"
    "status = to_lower (trim_space (upd_Status u))" "status \<in> set review_statuses" "t = None \<longleftrightarrow> status = ''pending''"
    "varchar 255 (trim_space (upd_Reviewer u)) \<longrightarrow> reviewer' = trim_space (upd_Reviewer u)"
    "tables_of V w3 = set_review V status reviewer' (upd_Note u) t parsed (tables_of V w)"
    using audit_db.UpdateReview_success [OF assms] by (elim exE conjE) (rule that)
  obtain row where row: "row \<in> set (records (tables_of V w3))" "col_id row = parsed" "item = scanRecordSummary row True"
    using audit_db.Get_row [OF assms(1) p(2)] audit_db.parsed_again [OF assms(1) p(1)] by auto
  from row(1,2) have "col_review_status row = status \<and> col_reviewer row = reviewer' \<and> col_review_note row = upd_Note u
      \<and> col_reviewed_at row = map_option (timestamp V) t"
    unfolding p(7) by (rule set_review_row)
  then show ?thesis
    using p(1,4,5,6) row(2) unfolding row(3) p(3) [symmetric] by (simp add: scanRecordSummary_def)
qed

definition flag_update :: review_update where
  "flag_update = \<lparr>upd_Status = '' Flagged'', upd_Reviewer = ''bob'', upd_Note = ''n''\<rparr>"

definition after_review :: "(go_error + record_summary) \<times> store option \<times> mem" where
  "after_review = UpdateReview mem_world (mem_uuid 1) flag_update (fst (snd after_insert)) (snd (snd after_insert))"

theorem review_roundtrip_witness:
  "\<exists>item. fst after_review = Inr item \<and> sum_ReviewStatus item = ''flagged'' \<and> sum_ReviewedAt item \<noteq> None"
proof -
  have "case fst after_review of Inr _ \<Rightarrow> True | Inl _ \<Rightarrow> False" by code_simp
  then obtain item where item: "fst after_review = Inr item" by (cases "fst after_review") auto
  then have "UpdateReview mem_world (mem_uuid 1) flag_update (fst (snd after_insert)) (snd (snd after_insert))
      = (Inr item, fst (snd after_review), snd (snd after_review))" by (simp add: after_review_def prod_eq_iff)
  from review_roundtrip [OF mem_audit.audit_db_axioms this]
  have "sum_ReviewStatus item = to_lower (trim_space (upd_Status flag_update))"
    "sum_ReviewedAt item = None \<longleftrightarrow> sum_ReviewStatus item = ''pending''" by auto
  moreover have "to_lower (trim_space (upd_Status flag_update)) = ''flagged''" by code_simp
  ultimately show ?thesis using item by auto
qed

end
