(* ===== verification/Audit_Props.thy ===== *)
theory Audit_Props
  imports Audit_Copy Utf8_Facts
begin

text \<open>
  The properties of the audit copy, stated over \<open>ExtractRequest\<close>, \<open>ExtractWebSocketMessage\<close> and
  the functions of \<open>model.go\<close> they call.
\<close>

section \<open>Properties\<close>

text \<open>The requests whose body is decoded as JSON.\<close>

definition json_media :: "string \<Rightarrow> bool" where
  "json_media ct \<longleftrightarrow>
     \<not> List.member [''application/x-www-form-urlencoded'', ''multipart/form-data'']
         (fst (parse_media_type ct))"

lemma json_unmarshal_empty [simp]: "json_unmarshal [] = None"
  by code_simp

lemma ExtractRequest_json:
  assumes "json_media ct" and "json_unmarshal body = Some root"
  shows "ExtractRequest lib path ct body m =
    finalize (extractJSONByProtocol ((new_extraction path)\<lparr>ModelName := modelFromJSON root\<rparr>) root) m"
proof -
  have "body \<noteq> []" using assms(2) by auto
  with assms show ?thesis by (simp add: ExtractRequest_def extract_body_def json_media_def Let_def)
qed

text \<open>Limits for the examples, which have no multipart bodies. A tilde in a JSON example stands for
  the double quote.\<close>

definition form_limits :: wire_lib where
  "form_limits = \<lparr>max_form_params = Some 10000, multipart_parts = (\<lambda>_ _. [])\<rparr>"

definition quoted :: "string \<Rightarrow> string" where
  "quoted s = map (\<lambda>c. if c = CHR ''~'' then dquote else c) s"

lemma json_medias: "json_media []" "json_media ''application/json''"
  by code_simp+

text \<open>
  C1. The audit copy of a JSON request does not depend on what it must not hold: two requests
  to the same path that agree on their model and on everything \<open>redact_object\<close> keeps (the
  allow-listed fields, with system prompts reduced to their presence and messages of other
  roles to their role) give exactly the same extraction, prompt text and hash included.
\<close>

theorem audit_copy_noninterference:
  assumes "json_media ct"
    and "json_unmarshal body = Some (JObject obj)" and "json_unmarshal body' = Some (JObject obj')"
    and "map_of (redact_object (protocolForPath path) obj)
           = map_of (redact_object (protocolForPath path) obj')"
    and "string_or_empty obj ''model'' = string_or_empty obj' ''model''"
  shows "ExtractRequest lib path ct body m = ExtractRequest lib path ct body' m"
proof -
  define e where "e = (new_extraction path)\<lparr>ModelName := modelFromJSON (JObject obj)\<rparr>"
  have p: "Protocol e = protocolForPath path" by (simp add: e_def new_extraction_def)
  have "extractJSONByProtocol e (JObject obj)
      = extractJSONByProtocol e (JObject (redact_object (protocolForPath path) obj))"
    using extractJSONByProtocol_redact [of e obj] p by simp
  also have "\<dots> = extractJSONByProtocol e (JObject (redact_object (protocolForPath path) obj'))"
    by (rule extractJSONByProtocol_map_of [OF assms(4)])
  also have "\<dots> = extractJSONByProtocol e (JObject obj')"
    using extractJSONByProtocol_redact [of e obj'] p by simp
  finally show ?thesis
    using assms(1,2,3,5) by (simp add: ExtractRequest_json e_def modelFromJSON_def)
qed

definition chat_body_a :: string where
  "chat_body_a = quoted ''{~messages~:[{~role~:~system~,~content~:~A~},{~role~:~user~,~content~:~hi~}]}''"

definition chat_body_b :: string where
  "chat_body_b = quoted ''{~messages~:[{~role~:~system~,~content~:~B~},{~role~:~user~,~content~:~hi~}]}''"

definition chat_object :: "string \<Rightarrow> json_object" where
  "chat_object s = [(''messages'', JArray
     [JObject [(''content'', JString s), (''role'', JString ''system'')],
      JObject [(''content'', JString ''hi''), (''role'', JString ''user'')]])]"

lemma chat_bodies:
  "json_unmarshal chat_body_a = Some (JObject (chat_object ''A''))"
  "json_unmarshal chat_body_b = Some (JObject (chat_object ''B''))"
  by code_simp+

lemma chat_path: "protocolForPath ''/v1/chat/completions'' = ''openai-chat''"
  by code_simp

lemma chat_redacted:
  "redact_object ''openai-chat'' (chat_object ''A'') = redact_object ''openai-chat'' (chat_object ''B'')"
  by code_simp

theorem audit_copy_noninterference_witness:
  "chat_body_a \<noteq> chat_body_b \<and>
   ExtractRequest form_limits ''/v1/chat/completions'' [] chat_body_a 1024 =
   ExtractRequest form_limits ''/v1/chat/completions'' [] chat_body_b 1024"
proof
  show "chat_body_a \<noteq> chat_body_b" by code_simp
  show "ExtractRequest form_limits ''/v1/chat/completions'' [] chat_body_a 1024 =
      ExtractRequest form_limits ''/v1/chat/completions'' [] chat_body_b 1024"
    by (rule audit_copy_noninterference [OF json_medias(1) chat_bodies])
      (simp_all only: chat_path chat_redacted, simp add: chat_object_def string_or_empty_def get_string_def)
qed



text \<open>
  C20. Every extraction that \<open>ExtractRequest\<close> returns, for any body, is well formed: messages
  are numbered from 0 without gaps, none is blank, the stored prompt is the messages joined by
  blank lines and cut to the limit, the hash is that of the uncut prompt, the flag tells
  whether it was cut, the counters exist and a status is set.
\<close>

theorem extraction_well_formed:
  "let e = ExtractRequest lib path ct body m; full = join (map Text (Messages e)) paragraph_break in
   map Index (Messages e) = [0..<length (Messages e)] \<and>
   filter (\<lambda>msg. blank (Text msg)) (Messages e) = [] \<and>
   PromptText e = truncateUTF8 full m \<and>
   PromptSHA256 e = hex_encode (sha256 full) \<and>
   (Truncated e \<longleftrightarrow> 0 < m \<and> m < int (length full)) \<and>
   ExcludedRoles e \<noteq> None \<and> Status e \<noteq> [] \<and> Protocol e = protocolForPath path"
proof -
  let ?x = "extract_body lib (new_extraction path) ct body"
  have wi: "well_indexed ?x" by simp
  have full: "fullPrompt (Messages ?x) = join (map Text (Messages ?x)) paragraph_break"
    by (simp add: fullPrompt_def prompt_parts_well_indexed [OF wi])
  have fr: "Protocol ?x = protocolForPath path" "\<not> Truncated ?x"
    using extends_frame [OF extract_body_extends [where e = "new_extraction path" and lib = lib and ct = ct and body = body]]
    by (simp_all add: new_extraction_def)
  show ?thesis
    using wi fr by (simp add: ExtractRequest_def full Let_def well_indexed_def filter_empty_conv)
qed

text \<open>
  Excluded roles are counted: for a chat request with a list of messages, the counter of a
  role is the number of messages of that role (system, developer, assistant or tool), plus one
  for a non-empty top-level \<open>system\<close> or \<open>developer\<close> field.
\<close>

theorem excluded_roles_counted:
  assumes "json_media ct" and "json_unmarshal body = Some (JObject obj)"
    and "protocolForPath path = ''openai-chat''" and "get_array obj ''messages'' = Some ms"
  shows "role_count (ExcludedRoles (ExtractRequest lib path ct body m)) r =
      of_bool (r = ''system'' \<and> (\<exists>v. map_of obj ''system'' = Some v \<and> hasValue v))
    + of_bool (r = ''developer'' \<and> (\<exists>v. map_of obj ''developer'' = Some v \<and> hasValue v))
    + int (length (filter (excluded_as r) ms))"
proof -
  let ?e = "(new_extraction path)\<lparr>ModelName := modelFromJSON (JObject obj)\<rparr>"
  have "extractJSONByProtocol ?e (JObject obj) = extractOpenAIChat ?e obj"
    using assms(3) by (simp add: extractJSONByProtocol_def new_extraction_def)
  moreover have "role_count (Some (case x of None \<Rightarrow> Map.empty | Some f \<Rightarrow> f)) r = role_count x r" for x
    by (simp add: role_count_def split: option.split)
  moreover have "counted ?e r = 0" by (simp add: new_extraction_def role_count_def)
  ultimately show ?thesis
    using assms by (simp add: ExtractRequest_json counted_extractOpenAIChat)
qed

theorem excluded_roles_counted_witness:
  "role_count (ExcludedRoles (ExtractRequest form_limits ''/v1/chat/completions'' [] chat_body_a 1024))
     ''system'' = 1"
proof -
  have ms: "get_array (chat_object ''A'') ''messages'' = Some
     [JObject [(''content'', JString ''A''), (''role'', JString ''system'')],
      JObject [(''content'', JString ''hi''), (''role'', JString ''user'')]]"
    by (simp add: get_array_def chat_object_def)
  have "filter (excluded_as ''system'')
     [JObject [(''content'', JString ''A''), (''role'', JString ''system'')],
      JObject [(''content'', JString ''hi''), (''role'', JString ''user'')]] =
     [JObject [(''content'', JString ''A''), (''role'', JString ''system'')]]"
    by code_simp
  then show ?thesis
    using excluded_roles_counted [OF json_medias(1) chat_bodies(1) chat_path ms, of form_limits 1024 "''system''"]
    by (simp add: chat_object_def)
qed

text \<open>
  C10. Truncation is exact on valid UTF-8: the result is valid, at most \<open>maxBytes\<close> long, and no
  longer valid prefix fits.
\<close>

theorem truncateUTF8_correct:
  assumes "valid_utf8 s" and "0 < maxBytes"
  shows "prefix (truncateUTF8 s maxBytes) s \<and> valid_utf8 (truncateUTF8 s maxBytes) \<and>
    int (length (truncateUTF8 s maxBytes)) \<le> maxBytes \<and>
    (\<forall>t. prefix t s \<and> valid_utf8 t \<and> int (length t) \<le> maxBytes
         \<longrightarrow> length t \<le> length (truncateUTF8 s maxBytes))"
  using assms
  by (auto simp: truncateUTF8_prefix truncateUTF8_valid truncateUTF8_length truncateUTF8_longest)

definition ni_hao :: string where
  "ni_hao = map char_of [228, 189, 160, 229, 165, 189 :: nat]"

theorem truncateUTF8_correct_witness:
  "valid_utf8 ni_hao \<and> length ni_hao = 6 \<and> truncateUTF8 ni_hao 5 = take 3 ni_hao \<and>
   int (length (truncateUTF8 ni_hao 5)) \<le> 5"
proof -
  have v: "valid_utf8 ni_hao" by code_simp
  moreover have "truncateUTF8 ni_hao 5 = take 3 ni_hao" "length ni_hao = 6" by code_simp+
  ultimately show ?thesis using truncateUTF8_correct [OF v, of 5] by simp
qed

text \<open>
  Whatever the bytes and the limit, the slice of \<open>truncateUTF8\<close> is in range: it returns a
  prefix and never panics.
\<close>

theorem truncateUTF8_never_panics:
  "truncateUTF8_outcome s maxBytes = Return (truncateUTF8 s maxBytes) \<and>
   prefix (truncateUTF8 s maxBytes) s"
  by (simp add: truncateUTF8_no_panic truncateUTF8_prefix)

text \<open>
  The stored prompt of every JSON request is valid UTF-8, whatever bytes the body holds and
  wherever it is cut.
\<close>

theorem json_prompt_valid_utf8:
  assumes "json_media ct" and "json_unmarshal body = Some root"
  shows "valid_utf8 (PromptText (ExtractRequest lib path ct body m))"
proof -
  let ?e = "(new_extraction path)\<lparr>ModelName := modelFromJSON root\<rparr>"
  have t: "texts (extractJSONByProtocol ?e root) = nonblank (stored_texts (protocolForPath path) root)"
    using texts_extractJSONByProtocol [of ?e root] by (simp add: new_extraction_def)
  have "utf8_strings (nonblank (stored_texts (protocolForPath path) root))"
    using stored_texts_utf8 [OF json_unmarshal_utf8 [OF assms(2)]] by (auto simp: list_all_iff)
  then have "valid_utf8 (join (texts (extractJSONByProtocol ?e root)) paragraph_break)"
    using join_utf8 paragraph_break_utf8 t by simp
  then show ?thesis
    using assms json_body.run_prompt [of ?e root m] truncateUTF8_valid by (simp add: ExtractRequest_json)
qed

theorem json_prompt_valid_utf8_witness:
  "valid_utf8 (PromptText (ExtractRequest form_limits ''/v1/chat/completions'' [] chat_body_a 1))"
  by (rule json_prompt_valid_utf8 [OF json_medias(1) chat_bodies(1)])


text \<open>
  An unknown JSON format is never stored: on a path of no known protocol, an object that has
  neither \<open>messages\<close> nor one of the prompt fields yields no message, no prompt text and the
  status \<open>unsupported\<close>.
\<close>

theorem unknown_format_not_stored:
  assumes "json_media ct" and "json_unmarshal body = Some (JObject obj)"
    and "List.member [''generic'', ''media''] (protocolForPath path)"
    and "list_all (\<lambda>k. map_of obj k = None) (''messages'' # promptFieldNames)"
  shows "Messages (ExtractRequest lib path ct body m) = [] \<and>
    PromptText (ExtractRequest lib path ct body m) = [] \<and>
    Status (ExtractRequest lib path ct body m) = ''unsupported''"
proof -
  let ?e = "(new_extraction path)\<lparr>ModelName := modelFromJSON (JObject obj)\<rparr>"
  have "extract_prompt_fields e obj ks = e" if "list_all (\<lambda>k. map_of obj k = None) ks" for e ks
    using that by (induction ks) simp_all
  then have "extractGeneric ?e obj = ?e\<lparr>Status := ''unsupported''\<rparr>"
    using assms(4) by (simp add: extractGeneric_def get_array_def set_partial_def new_extraction_def)
  moreover have "extractJSONByProtocol ?e (JObject obj) = extractGeneric ?e obj"
    using assms(3) by (auto simp: extractJSONByProtocol_def new_extraction_def Let_def)
  ultimately show ?thesis
    using assms(1,2)
    by (simp add: ExtractRequest_json new_extraction_def fullPrompt_def prompt_parts_def truncateUTF8_def)
qed

definition unknown_body :: string where
  "unknown_body = quoted ''{~context~:~system secret~}''"

theorem unknown_format_not_stored_witness:
  "Status (ExtractRequest form_limits ''/v1/unknown'' [] unknown_body 1024) = ''unsupported''"
proof -
  have b: "json_unmarshal unknown_body = Some (JObject [(''context'', JString ''system secret'')])"
    by code_simp
  have p: "List.member [''generic'', ''media''] (protocolForPath ''/v1/unknown'')" by code_simp
  have k: "list_all (\<lambda>k. map_of [(''context'', JString ''system secret'')] k = None)
      (''messages'' # promptFieldNames)"
    by code_simp
  show ?thesis
    using unknown_format_not_stored [OF json_medias(1) b p k, of form_limits 1024] by (rule conjunct2 [THEN conjunct2])
qed

text \<open>
  A client frame of a WebSocket that is marked \<open>unsupported\<close> never carries a message, so the
  second test of \<open>copyClientFrames\<close> never lets one through.
\<close>

theorem websocket_unsupported_has_no_messages:
  "Status (ExtractWebSocketMessage path payload m) = ''unsupported'' \<Longrightarrow>
     Messages (ExtractWebSocketMessage path payload m) = []"
proof -
  have "sound_status (extract_payload (new_extraction path) payload)"
    using extract_event_sound [of "(new_extraction path)\<lparr>ModelName := n\<rparr>" root for n root]
    by (auto simp: extract_payload_def new_extraction_def sound_status_def split: option.split)
  then show "Status (ExtractWebSocketMessage path payload m) = ''unsupported'' \<Longrightarrow>
      Messages (ExtractWebSocketMessage path payload m) = []"
    by (auto simp: ExtractWebSocketMessage_def sound_status_def split: if_splits)
qed

theorem websocket_unsupported_has_no_messages_witness:
  "Status (ExtractWebSocketMessage ''/v1/responses'' ''[1]'' 10) = ''unsupported'' \<and>
   Messages (ExtractWebSocketMessage ''/v1/responses'' ''[1]'' 10) = []"
proof -
  have "json_unmarshal ''[1]'' = Some (JArray [JNumber ''1''])" by code_simp
  then have s: "Status (ExtractWebSocketMessage ''/v1/responses'' ''[1]'' 10) = ''unsupported''"
    by (simp add: ExtractWebSocketMessage_def extract_payload_def extract_event_def)
  then show ?thesis using websocket_unsupported_has_no_messages [OF s] by simp
qed

text \<open>
  The model name in a path: on ASCII paths \<open>modelFromPath\<close> returns a part of the path
  without colon and slash and never panics.
\<close>

theorem modelFromPath_ascii:
  assumes "ascii path"
  shows "\<exists>model. modelFromPath path = Return model \<and> CHR ''/'' \<notin> set model \<and>
    CHR '':'' \<notin> set model \<and> sublist model path"
  using assms by (rule modelFromPath_ascii_returns)

theorem modelFromPath_ascii_witness:
  "modelFromPath ''/v1beta/models/gemini-2.5-pro:generateContent'' = Return ''gemini-2.5-pro'' \<and>
   sublist ''gemini-2.5-pro'' ''/v1beta/models/gemini-2.5-pro:generateContent''"
proof -
  have r: "modelFromPath ''/v1beta/models/gemini-2.5-pro:generateContent'' = Return ''gemini-2.5-pro''"
    by code_simp
  have "ascii ''/v1beta/models/gemini-2.5-pro:generateContent''" by (simp add: byte_def)
  from modelFromPath_ascii [OF this] r show ?thesis by simp
qed

text \<open>
  Off ASCII it can panic: lowering a path may lengthen it, and the index found in the lowered path
  is then past the end of the path. The capital A with stroke (U+023A) has two bytes, and its lower
  case three.
\<close>

definition stroke :: string where
  "stroke = map char_of [200 :: nat, 186]"

definition lowered_stroke :: string where
  "lowered_stroke = map char_of [226 :: nat, 177, 165]"

definition stroke_path :: "nat \<Rightarrow> string \<Rightarrow> string" where
  "stroke_path k model = ''/v1/'' @ concat (replicate k stroke) @ ''/models/'' @ model"

lemma decode_stroke: "decode_rune (stroke @ s) = (570, 2)"
  by (simp add: stroke_def decode_rune_def seq_len_def accept_second_def continuation_def byte_char_of Let_def)

lemma runes_stroke: "runes (concat (replicate k stroke) @ s) = replicate k 570 @ runes s"
proof (induction k)
  case (Suc k)
  have "runes (stroke @ t) = 570 # runes t" for t
    by (subst runes_Cons) (simp_all add: decode_stroke, simp_all add: stroke_def)
  with Suc show ?case by simp
qed simp

lemma runes_ascii_append: "ascii s \<Longrightarrow> runes (s @ t) = map byte s @ runes t"
  by (induction s) (simp_all add: runes_Cons)

lemma lower_rune_ascii: "n < 128 \<Longrightarrow> encode_rune (unicode_to_lower n) = [ascii_lower (char_of n)]"
proof -
  have "list_all (\<lambda>n. encode_rune (unicode_to_lower n) = [ascii_lower (char_of n)]) [0..<128]" by code_simp
  then show "n < 128 \<Longrightarrow> encode_rune (unicode_to_lower n) = [ascii_lower (char_of n)]" by (simp add: list_all_iff)
qed

lemma lower_runes_ascii: "ascii s \<Longrightarrow> concat (map (\<lambda>r. encode_rune (unicode_to_lower r)) (map byte s)) = map ascii_lower s"
  by (induction s) (simp_all add: lower_rune_ascii byte_def)

lemma to_lower_runes: "to_lower s = concat (map (\<lambda>r. encode_rune (unicode_to_lower r)) (runes s))"
  using lower_runes_ascii [of s] runes_ascii_append [of s "[]"] by (simp add: to_lower_def list_all_iff)

lemma lower_stroke: "encode_rune (unicode_to_lower 570) = lowered_stroke"
proof -
  have "unicode_to_lower 570 = 11365" by (simp add: unicode_to_lower_def lower_ranges_def)
  moreover have "encode_rune 11365 = lowered_stroke" by code_simp
  ultimately show ?thesis by simp
qed

lemma stroke_path_lower:
  assumes "ascii model"
  shows "to_lower (stroke_path k model) = ''/v1/'' @ concat (replicate k lowered_stroke) @ ''/models/'' @ map ascii_lower model"
proof -
  have a: "ascii ''/v1/''" "ascii (''/models/'' @ model)" using assms by (simp_all add: byte_def)
  have "runes (stroke_path k model) = map byte ''/v1/'' @ replicate k 570 @ map byte (''/models/'' @ model)"
    using runes_ascii_append [OF a(1)] runes_stroke [of k] runes_ascii_append [OF a(2), of "[]"] by (simp add: stroke_path_def)
  then have "to_lower (stroke_path k model) = concat (map (\<lambda>r. encode_rune (unicode_to_lower r)) (map byte ''/v1/''))
      @ concat (map (\<lambda>r. encode_rune (unicode_to_lower r)) (replicate k 570))
      @ concat (map (\<lambda>r. encode_rune (unicode_to_lower r)) (map byte (''/models/'' @ model)))"
    unfolding to_lower_runes by simp
  then show ?thesis
    unfolding lower_runes_ascii [OF a(1)] lower_runes_ascii [OF a(2)]
    by (simp add: lower_stroke) (simp add: ascii_lower_def byte_def)
qed

lemma index_of_skip:
  "CHR ''/'' \<notin> set s \<Longrightarrow> index_of t (CHR ''/'' # u) = Some j \<Longrightarrow> index_of (s @ t) (CHR ''/'' # u) = Some (length s + j)"
  by (induction s) auto

lemma stroke_path_index:
  assumes "ascii model"
  shows "index_of (to_lower (stroke_path k model)) ''/models/'' = Some (4 + 3 * k)"
proof -
  let ?x = "concat (replicate k lowered_stroke)" and ?t = "''/models/'' @ map ascii_lower model"
  have l: "length ?x = 3 * k" by (induction k) (simp_all add: lowered_stroke_def)
  have "CHR ''/'' \<notin> set ?x" by (simp add: lowered_stroke_def) code_simp
  moreover have "index_of ?t ''/models/'' = Some 0" by simp
  ultimately have x: "index_of (?x @ ?t) ''/models/'' = Some (3 * k)" using index_of_skip [of ?x ?t] l by simp
  have "\<not> prefix ''models/'' (?x @ ?t)"
  proof (cases k)
    case (Suc n)
    have "CHR ''m'' \<noteq> char_of (226 :: nat)" by code_simp
    with Suc show ?thesis by (simp add: lowered_stroke_def)
  qed simp
  with x show ?thesis unfolding stroke_path_lower [OF assms] by simp
qed

lemma modelFromPath_stroke:
  assumes "ascii model"
  shows "modelFromPath (stroke_path k model) = Panic \<longleftrightarrow> length model < k"
proof -
  have "length (concat (replicate k stroke)) = 2 * k" by (induction k) (simp_all add: stroke_def)
  then have "length (stroke_path k model) = 12 + 2 * k + length model" by (simp add: stroke_path_def)
  then show ?thesis
    by (simp add: modelFromPath_def stroke_path_index [OF assms] slice_from_def)
qed

text \<open>
  A Gemini content whose role is neither model, system nor developer is stored as user text,
  also when the role is \<open>tool\<close> or \<open>assistant\<close>: its texts are exactly those of its parts.
\<close>

theorem gemini_other_roles_stored:
  assumes "\<not> List.member [''model'', ''system'', ''developer''] (normal_role (string_or_empty content ''role''))"
    and "map_of content ''parts'' = Some parts"
  shows "map Text (Messages (extract_contents e [JObject content] i))
    = map Text (Messages e) @ nonblank (content_texts parts)"
  using assms by (simp add: texts_extractContent extractParts_def)

theorem gemini_other_roles_stored_witness:
  "map Text (Messages (extract_contents (new_extraction ''/v1beta'')
     [JObject [(''role'', JString ''tool''), (''parts'', JString ''tool output'')]] 0)) = [''tool output'']"
proof -
  have r: "\<not> List.member [''model'', ''system'', ''developer'']
      (normal_role (string_or_empty [(''role'', JString ''tool''), (''parts'', JString ''tool output'')] ''role''))"
    by code_simp
  have p: "map_of [(''role'', JString ''tool''), (''parts'', JString ''tool output'')] ''parts''
      = Some (JString ''tool output'')" by simp
  have "nonblank (content_texts (JString ''tool output'')) = [''tool output'']" by code_simp
  with gemini_other_roles_stored [OF r p, of "new_extraction ''/v1beta''" 0] show ?thesis
    by (simp add: new_extraction_def)
qed

end
