(* ===== verification/Proxy_Props.thy ===== *)
theory Proxy_Props
  imports Proxy Websocket_Steps Store_Props Audit_Props
begin

text \<open>
  Properties of the request path: what the upstream receives, what is captured, and that serving
  a proxied request touches neither the store nor the tables.
\<close>

section \<open>Which requests are audited\<close>

text \<open>
  The specification: a request is audited when its path and method are chosen, its encoding and
  media type are readable, its body is complete within the limit and the extraction is not
  empty for want of a known format.
\<close>

definition audited :: "wire_lib \<Rightarrow> config \<Rightarrow> request \<Rightarrow> extraction option" where
  "audited lib cfg r =
     (case req_Body r of
        None \<Rightarrow> None
      | Some b \<Rightarrow>
          if shouldCapture cfg r \<and> capturable_headers (req_Header r) \<and> \<not> stream_fails b
             \<and> 0 < MaxCaptureBytes cfg \<and> int (length (stream_bytes b)) \<le> MaxCaptureBytes cfg
          then let e = ExtractRequest lib (req_Path r) (header_get (req_Header r) ''Content-Type'') (stream_bytes b)
                         (MaxPromptBytes cfg)
               in if Status e = ''unsupported'' \<and> Messages e = [] then None else Some e
          else None)"

lemma read_limited_eq:
  "read_limited (n + 1) b = (take (nat (n + 1)) (stream_bytes b), stream_fails b \<and> int (length (stream_bytes b)) \<le> n)"
  by (auto simp: read_limited_def Let_def)

lemma readBodyForCapture_body:
  assumes "req_Body r = Some b" and "0 < n" and "capturable_headers (req_Header r)" and "n < 2 ^ 63 - 1"
  shows "fst (readBodyForCapture r n) =
    (if n < int (length (stream_bytes b)) then ([], False, False)
     else if stream_fails b then ([], False, True) else (stream_bytes b, True, False))"
  using assms by (auto simp: readBodyForCapture_reads read_limited_eq)


text \<open>The record made of an audited request, with the model from the path where the body has none.\<close>

definition record_of :: "proxy \<Rightarrow> request \<Rightarrow> string \<Rightarrow> string \<Rightarrow> string \<Rightarrow> int \<Rightarrow> extraction \<Rightarrow> capture_record" where
  "record_of p r a b ident t e =
     capture_of ident t a b (Lookup (p_resolver p) (extractAPIKey (req_Header r))) (req_Path r)
       (case with_model (req_Path r) e of Return e' \<Rightarrow> e' | Panic \<Rightarrow> e)"

lemma captureHTTP_result:
  assumes "ascii (req_Path r)"
    and "e = ExtractRequest lib (req_Path r) (header_get (req_Header r) ''Content-Type'') body (MaxPromptBytes (p_cfg p))"
  shows "\<exists>w'. captureHTTP E lib p r a b t body q w =
    Return (if Status e = ''unsupported'' \<and> Messages e = [] then q
            else snd (Enqueue (record_of p r a b (fst (new_uuid E w)) t e) q), w')"
proof -
  obtain m where m: "with_model (req_Path r) e = Return (e\<lparr>ModelName := m\<rparr>)"
    using with_model_returns [OF assms(1)] by blast
  obtain ident w1 where u: "new_uuid E w = (ident, w1)" by fastforce
  show ?thesis
    using m u assms(2) by (simp add: captureHTTP_def record_of_def)
qed

text \<open>Capturing returns the request as it was, and enqueues exactly the audited ones.\<close>

lemma capture_request_result:
  assumes "ascii (req_Path r)" and "MaxCaptureBytes (p_cfg p) < 2 ^ 63 - 1"
  shows "\<exists>v u w'. capture_request E lib p r a b q w =
    Return (r, case audited lib (p_cfg p) r of
                 None \<Rightarrow> q | Some e \<Rightarrow> snd (Enqueue (record_of p r a b (fst (new_uuid E v)) (fst (time_now E u)) e) q), w')"
proof (cases "shouldCapture (p_cfg p) r")
  case False
  then show ?thesis by (simp add: capture_request_def audited_def split: option.split)
next
  case True
  obtain t w1 where t: "time_now E w = (t, w1)" by fastforce
  let ?n = "MaxCaptureBytes (p_cfg p)"
  obtain body captured err where b: "readBodyForCapture r ?n = ((body, captured, err), r)"
    using readBodyForCapture_transparent [OF assms(2), of r] by (metis prod.collapse)
  show ?thesis
  proof (cases "req_Body r = None \<or> ?n \<le> 0 \<or> \<not> capturable_headers (req_Header r)")
    case skip: True
    then have "audited lib (p_cfg p) r = None" by (auto simp: audited_def split: option.split)
    with True t readBodyForCapture_skips [OF skip] show ?thesis by (simp add: capture_request_def)
  next
    case False
    then obtain s where s: "req_Body r = Some s" by auto
    have f: "(body, captured, err) = (if ?n < int (length (stream_bytes s)) then ([], False, False)
        else if stream_fails s then ([], False, True) else (stream_bytes s, True, False))"
      using readBodyForCapture_body [OF s _ _ assms(2)] False b by simp
    show ?thesis
    proof (cases "captured \<and> \<not> err")
      case ok: True
      let ?e = "ExtractRequest lib (req_Path r) (header_get (req_Header r) ''Content-Type'') body (MaxPromptBytes (p_cfg p))"
      obtain w2 where c: "captureHTTP E lib p r a b t body q w1 =
          Return (if Status ?e = ''unsupported'' \<and> Messages ?e = [] then q
                  else snd (Enqueue (record_of p r a b (fst (new_uuid E w1)) t ?e) q), w2)"
        using captureHTTP_result [OF assms(1) refl, where E = E and lib = lib and p = p and a = a and b = b and t = t
          and body = body and q = q and w = w1] by (elim exE) (rule that)
      have "audited lib (p_cfg p) r = (if Status ?e = ''unsupported'' \<and> Messages ?e = [] then None else Some ?e)"
        using ok f s True False by (simp add: audited_def Let_def split: if_splits)
      then show ?thesis using True t b c ok
        by (intro exI [of _ w1] exI [of _ w] exI [of _ w2]) (simp add: capture_request_def)
    next
      case bad: False
      then have "audited lib (p_cfg p) r = None" using f s by (auto simp: audited_def split: if_splits)
      with True t b bad show ?thesis by (auto simp: capture_request_def)
    qed
  qed
qed

section \<open>The correlation headers\<close>

definition proxied :: "proxy \<Rightarrow> request \<Rightarrow> bool" where
  "proxied p r \<longleftrightarrow> \<not> health_path (req_Path r) \<and> \<not> admin_path (req_Path r) \<and> \<not> (p_websocket p \<and> isWebSocketRequest r)"

lemma correlation_keys:
  "canonical_key ''X-Request-ID'' = ''X-Request-Id''" "canonical_key ''X-Client-Request-ID'' = ''X-Client-Request-Id''"
  "canonical_key ''Upgrade'' = ''Upgrade''" "canonical_key ''Connection'' = ''Connection''"
  "canonical_key ''Content-Type'' = ''Content-Type''" "canonical_key ''Content-Encoding'' = ''Content-Encoding''"
  "canonical_key ''Authorization'' = ''Authorization''"
  by code_simp+

lemma with_correlation_simps [simp]:
  "req_Path (with_correlation a b r) = req_Path r" "req_Method (with_correlation a b r) = req_Method r"
  "req_Body (with_correlation a b r) = req_Body r"
  by (simp_all add: with_correlation_def)

lemma with_correlation_get:
  "canonical_key k \<notin> {''X-Request-Id'', ''X-Client-Request-Id''} \<Longrightarrow>
     header_values (req_Header (with_correlation a b r)) k = header_values (req_Header r) k"
  by (simp add: with_correlation_def header_values_set correlation_keys)

lemma with_correlation_websocket [simp]: "isWebSocketRequest (with_correlation a b r) = isWebSocketRequest r"
  by (simp add: isWebSocketRequest_def header_get_def with_correlation_get correlation_keys)

lemma with_correlation_unread [simp]:
  "shouldCapture cfg (with_correlation a b r) = shouldCapture cfg r"
  "capturable_headers (req_Header (with_correlation a b r)) = capturable_headers (req_Header r)"
  "header_get (req_Header (with_correlation a b r)) ''Content-Type'' = header_get (req_Header r) ''Content-Type''"
  by (simp_all add: shouldCapture_def capturable_headers_def header_get_def with_correlation_get correlation_keys)

lemma with_correlation_audited [simp]: "audited lib cfg (with_correlation a b r) = audited lib cfg r"
  by (cases "req_Body r") (simp_all add: audited_def)

lemma ServeHTTP_proxied:
  assumes "proxied p r" and "ascii (req_Path r)" and "MaxCaptureBytes (p_cfg p) < 2 ^ 63 - 1"
    and "correlationID E (header_get (req_Header r) ''X-Request-ID'') w = (a, w1)"
    and "correlationID E (header_get (req_Header r) ''X-Client-Request-ID'') w1 = (b, w2)"
  shows "\<exists>v u w'. ServeHTTP E lib alib peers p r s q w =
    Return (Forwarded (with_correlation a b r) (forward (p_target p) (round_trip peers) (with_correlation a b r)), s,
      case audited lib (p_cfg p) r of None \<Rightarrow> q
      | Some e \<Rightarrow> snd (Enqueue (record_of p (with_correlation a b r) a b (fst (new_uuid E v)) (fst (time_now E u)) e) q), w')"
proof -
  obtain v u w' where "capture_request E lib p (with_correlation a b r) a b q w2 =
      Return (with_correlation a b r, case audited lib (p_cfg p) r of None \<Rightarrow> q
        | Some e \<Rightarrow> snd (Enqueue (record_of p (with_correlation a b r) a b (fst (new_uuid E v)) (fst (time_now E u)) e) q), w')"
    using capture_request_result [of "with_correlation a b r" p E lib a b q w2] assms(2,3) by auto
  with assms show ?thesis
    by (intro exI [of _ v] exI [of _ u] exI [of _ w']) (auto simp: ServeHTTP_def proxied_def Let_def)
qed

section \<open>What serving leaves alone\<close>

text \<open>The queue after a request: the old records in front, the same limits.\<close>

definition queue_grows :: "record_queue \<Rightarrow> record_queue \<Rightarrow> bool" where
  "queue_grows q q' \<longleftrightarrow> prefix (items q) (items q') \<and> capacity q' = capacity q \<and> closed q' = closed q"

lemma queue_grows_refl [simp]: "queue_grows q q"
  by (simp add: queue_grows_def)

lemma queue_grows_trans: "queue_grows q q1 \<Longrightarrow> queue_grows q1 q2 \<Longrightarrow> queue_grows q q2"
  by (auto simp: queue_grows_def intro: prefix_order.trans)

lemma queue_grows_Enqueue [simp]: "queue_grows q (snd (Enqueue rec q))"
  by (simp add: queue_grows_def Enqueue_def)

text \<open>
  What serving keeps of the world is what reading the clock and making a UUID keep of it: its
  tables, and the course of the faults and of the clock.
\<close>

locale observation =
  fixes E :: "'w world" and kept :: "'w \<Rightarrow> 'w \<Rightarrow> bool"
  assumes kept_refl [simp]: "kept w w"
    and kept_trans: "kept w w1 \<Longrightarrow> kept w1 w2 \<Longrightarrow> kept w w2"
    and time_kept [simp]: "kept w (snd (time_now E w))"
    and uuid_kept [simp]: "kept w (snd (new_uuid E w))"
begin

definition calm :: "record_queue \<times> 'w \<Rightarrow> record_queue \<times> 'w \<Rightarrow> bool" where
  "calm before after \<longleftrightarrow> queue_grows (fst before) (fst after) \<and> kept (snd before) (snd after)"

lemma calm_refl [simp]: "calm x x"
  by (simp add: calm_def)

lemma calm_trans: "calm x y \<Longrightarrow> calm y z \<Longrightarrow> calm x z"
  by (auto simp: calm_def intro: queue_grows_trans kept_trans)

lemma calm_calls:
  "time_now E w = (t, w1) \<Longrightarrow> calm (q, w) (q, w1)"
  "new_uuid E w = (u, w2) \<Longrightarrow> calm (q, w) (snd (Enqueue rec q), w2)"
  "correlationID E v w = (x, w3) \<Longrightarrow> calm (q, w) (q, w3)"
proof -
  show "time_now E w = (t, w1) \<Longrightarrow> calm (q, w) (q, w1)"
    using time_kept [of w] by (simp add: calm_def)
  have u: "kept w w2" if "new_uuid E w = (u, w2)" for u w2 using uuid_kept [of w] that by simp
  then show "new_uuid E w = (u, w2) \<Longrightarrow> calm (q, w) (snd (Enqueue rec q), w2)" by (simp add: calm_def)
  show "correlationID E v w = (x, w3) \<Longrightarrow> calm (q, w) (q, w3)"
    using u by (auto simp: correlationID_def calm_def Let_def split: if_splits)
qed

lemma captureHTTP_calm: "captureHTTP E lib p r a b t body q w = Return qw \<Longrightarrow> calm (q, w) qw"
  by (auto simp: captureHTTP_def bind_outcome_Return_iff Let_def calm_calls split: prod.splits if_splits)

lemma capture_request_calm:
  "capture_request E lib p r a b q w = Return (r', qw) \<Longrightarrow> calm (q, w) qw"
  by (auto simp: capture_request_def bind_outcome_Return_iff split: prod.splits if_splits
      dest!: calm_calls(1) captureHTTP_calm intro: calm_trans)

lemma audit_frame_calm:
  assumes "audit_frame E cfg path a b i payload q w = Return qw"
  shows "calm (q, w) qw"
proof -
  have "calm (q, w) (snd (Enqueue (capture_of ident t a b i path e) q), w2)"
    if "new_uuid E w = (ident, w1)" "time_now E w1 = (t, w2)" for ident t w1 w2 e
    using calm_trans [OF calm_calls(2) [OF that(1)] calm_calls(1) [OF that(2)]] .
  with assms show ?thesis
    by (auto simp: audit_frame_def bind_outcome_Return_iff Let_def split: prod.splits if_splits)
qed

lemma copyClientFrames_calm:
  "copyClientFrames E cfg path a b i fs n q w = Return (sent, qw) \<Longrightarrow> calm (q, w) qw"
proof (induction fs arbitrary: n q w sent qw)
  case (Cons f fs)
  from Cons.prems obtain q1 w1 where
    f: "(if frame_type f = 1 then audit_frame E cfg path a b i (frame_payload f) q w else Return (q, w)) = Return (q1, w1)"
    and rest: "(case n of 0 \<Rightarrow> Return ([], q1, w1) | Suc n1 \<Rightarrow>
        bind_outcome (copyClientFrames E cfg path a b i fs n1 q1 w1) (\<lambda>(sent, q2, w2). Return (f # sent, q2, w2)))
      = Return (sent, qw)"
    by (auto simp: bind_outcome_Return_iff)
  have "calm (q, w) (q1, w1)" using f audit_frame_calm by (auto split: if_splits)
  moreover have "calm (q1, w1) qw"
    using rest Cons.IH by (auto simp: bind_outcome_Return_iff split: nat.splits)
  ultimately show ?case by (rule calm_trans)
qed simp

lemma ServeWebSocket_calm:
  "ServeWebSocket E p u dial up r a b q w = Return (session, qw) \<Longrightarrow> calm (q, w) qw"
  by (auto simp: ServeWebSocket_def Let_def bind_outcome_Return_iff dest: copyClientFrames_calm
      split: dial_result.splits option.splits)

lemma ServeHTTP_calm:
  assumes "\<not> health_path (req_Path r)" and "\<not> admin_path (req_Path r)"
    and "ServeHTTP E lib alib peers p r s q w = Return (x, s', qw)"
  shows "s' = s \<and> calm (q, w) qw"
proof -
  obtain a w1 where a: "correlationID E (header_get (req_Header r) ''X-Request-ID'') w = (a, w1)" by fastforce
  obtain b w2 where b: "correlationID E (header_get (req_Header r) ''X-Client-Request-ID'') w1 = (b, w2)" by fastforce
  have w2: "calm (q, w) (q, w2)" using calm_trans [OF calm_calls(3) [OF a] calm_calls(3) [OF b]] .
  have "s' = s \<and> calm (q, w2) qw"
    using assms a b by (auto simp: ServeHTTP_def Let_def bind_outcome_Return_iff dest: ServeWebSocket_calm capture_request_calm
        split: if_splits option.splits)
  with w2 calm_trans show ?thesis by blast
qed

end

sublocale services \<subseteq> serving: observation E "\<lambda>w w'. tables_of V w' = tables_of V w"
  by unfold_locales simp_all

lemma services_observation: "services E V \<Longrightarrow> observation E (\<lambda>w w'. tables_of V w' = tables_of V w)"
  by (simp add: observation_def services.time_now_quiet services.new_uuid_quiet)

lemma live_observation:
  assumes "live_services E V L"
  shows "observation E (later L)"
proof
  show "later L w (snd (time_now E w))" for w
    using live_services.time_now_later [OF assms, of w] by (metis prod.collapse)
qed (auto intro: later_trans live_services.new_uuid_later [OF assms])

interpretation mem_progress: observation mem_world "later mem_outlook"
  by (rule live_observation [OF mem_live.live_services_axioms])

lemma safe_id_runes: "safe_id s \<Longrightarrow> runes s = map byte s"
proof -
  assume "safe_id s"
  then have "ascii s" by (auto simp: safe_id_def list_all_iff safe_rune_def)
  then show ?thesis by (induction s) (auto simp: runes_Cons)
qed

section \<open>A request for the witnesses\<close>

definition chat_post :: request where
  "chat_post = \<lparr>req_Method = ''POST'', req_Path = ''/v1/chat/completions'', req_RawPath = [], req_RawQuery = [], req_ForceQuery = False,
     req_Host = ''gw'', req_ContentLength = -1, req_ClientIP = Some ''10.0.0.9'',
     req_Header = [(''Content-Type'', [''application/json'']), (''Connection'', [''keep-alive'']),
                   (''X-Request-Id'', ['' req-7 '']), (''X-Client-Request-Id'', [''a b''])],
     req_Body = Some (bytes_reader chat_body_a),
     req_TLS = False\<rparr>"

definition sample_proxy :: proxy where
  "sample_proxy = \<lparr>p_cfg = sample_config, p_resolver = None, p_target = sample_url, p_websocket = True\<rparr>"

definition sample_peers :: peers where
  "sample_peers = \<lparr>round_trip = (\<lambda>_. None), dialer = (\<lambda>_ _. DialError None), upgrader = None\<rparr>"

definition empty_queue :: record_queue where
  "empty_queue = \<lparr>items = [], capacity = 8, dropped = 0, closed = False\<rparr>"

definition no_admin_lib :: admin_lib where
  "no_admin_lib = \<lparr>max_cookies = None, max_params = None\<rparr>"

lemma chat_post_type: "header_get (req_Header chat_post) ''Content-Type'' = ''application/json''"
  by code_simp

lemma chat_post_proxied: "proxied sample_proxy chat_post" "ascii (req_Path chat_post)"
  "MaxCaptureBytes (p_cfg sample_proxy) < 2 ^ 63 - 1"
  by code_simp+

lemma chat_post_ids:
  "fst (correlationID mem_world (header_get (req_Header chat_post) ''X-Request-ID'') mem_start) = ''req-7''"
  "fst (correlationID mem_world (header_get (req_Header chat_post) ''X-Client-Request-ID'') mem_start) = mem_uuid 1"
  by code_simp+

text \<open>
  The request \<open>out\<close> that leaves for the upstream has the method, host and body of the request \<open>r\<close>
  of the client. Its headers are those of \<open>r\<close>, with \<open>a\<close> as the request id and \<open>b\<close> as the client
  request id, apart from the headers of one connection, the list of forwarding addresses and the
  user agent. It goes to the scheme and host of the upstream, to the path of \<open>r\<close>, as the client has
  encoded it, below the path of the upstream, and with the query of \<open>r\<close> after that of the upstream.
\<close>

definition intact :: "url \<Rightarrow> request \<Rightarrow> string \<Rightarrow> string \<Rightarrow> outbound \<Rightarrow> bool" where
  "intact target r a b out \<longleftrightarrow>
     ob_Method out = req_Method r \<and> ob_Host out = req_Host r
     \<and> (req_ContentLength r \<noteq> 0 \<longrightarrow> ob_Body out = req_Body r)
     \<and> (\<forall>k. \<not> rewritten (req_Header r) k \<longrightarrow>
          header_values (ob_Header out) k =
            (if canonical_key k = ''X-Request-Id'' then [a]
             else if canonical_key k = ''X-Client-Request-Id'' then [b]
             else header_values (req_Header r) k))
     \<and> url_Scheme (ob_URL out) = url_Scheme target \<and> url_Host (ob_URL out) = url_Host target
     \<and> url_RawQuery (ob_URL out) =
         (if url_RawQuery target = [] then req_RawQuery r
          else if req_RawQuery r = [] then url_RawQuery target else url_RawQuery target @ ''&'' @ req_RawQuery r)
     \<and> ((url_Path target = [] \<or> prefix ''/'' (url_Path target)) \<and> prefix ''/'' (req_Path r)
          \<and> (req_RawPath r = [] \<or> prefix ''/'' (req_RawPath r)) \<longrightarrow>
        escaped_path (url_Path (ob_URL out)) (url_RawPath (ob_URL out)) =
          without_slash (escaped_path (url_Path target) (url_RawPath target)) @ escaped_path (req_Path r) (req_RawPath r))"

text \<open>The id that stands for a value of the client: the trimmed value where it is safe, otherwise a new UUID.\<close>

definition id_from :: "'w world \<Rightarrow> string \<Rightarrow> string \<Rightarrow> bool" where
  "id_from E value v \<longleftrightarrow> (if safe_id (trim_space value) then v = trim_space value else (\<exists>w. v = fst (new_uuid E w)))"

lemma correlationID_safe: "safe_id (trim_space value) \<Longrightarrow> correlationID E value w = (trim_space value, w)"
  using safe_id_runes [of "trim_space value"] by (auto simp: correlationID_def safe_id_def Let_def list_ex_iff list_all_iff)

lemma correlationID_id_from: "correlationID E value w = (v, w') \<Longrightarrow> id_from E value v"
  using correlationID_cases [of E "value" w v w'] correlationID_safe [of "value" E w] by (auto simp: id_from_def)

lemma correlationID_safe_id: "audit_db E V \<Longrightarrow> correlationID E value w = (v, w') \<Longrightarrow> safe_id v"
  using correlationID_cases [of E "value" w v w'] canonical_safe [OF audit_db.new_uuid_canonical, of E V w] by auto

text \<open>What a record of an audited request says of it.\<close>

definition describes :: "proxy \<Rightarrow> request \<Rightarrow> extraction \<Rightarrow> capture_record \<Rightarrow> bool" where
  "describes p r e rec \<longleftrightarrow>
     cr_Identity rec = Lookup (p_resolver p) (extractAPIKey (req_Header r)) \<and> cr_Endpoint rec = req_Path r
     \<and> cr_Protocol rec = Protocol e \<and> cr_Messages rec = Messages e \<and> cr_PromptText rec = PromptText e
     \<and> cr_PromptSHA256 rec = PromptSHA256 e \<and> cr_MessageCount rec = length (Messages e)
     \<and> cr_ParseStatus rec = Status e \<and> cr_Truncated rec = Truncated e \<and> cr_ExcludedRoles rec = ExcludedRoles e
     \<and> (if ModelName e = [] then modelFromPath (req_Path r) = Return (cr_Model rec) else cr_Model rec = ModelName e)"

lemma api_keys_unaffected: "extractAPIKey (req_Header (with_correlation a b r)) = extractAPIKey (req_Header r)"
proof -
  have "canonical_key ''x-api-key'' = ''X-Api-Key''" "canonical_key ''x-goog-api-key'' = ''X-Goog-Api-Key''" by code_simp+
  then show ?thesis by (simp add: extractAPIKey_def header_get_def with_correlation_get correlation_keys)
qed

lemma record_of_describes:
  assumes "ascii (req_Path r)"
  shows "describes p r e (record_of p (with_correlation a b r) a b ident t e)"
  using modelFromPath_ascii_returns [OF assms]
  by (auto simp: describes_def record_of_def capture_of_def with_model_def api_keys_unaffected)

lemma record_of_ids [simp]:
  "cr_ID (record_of p r a b ident t e) = ident" "cr_ReceivedAt (record_of p r a b ident t e) = t"
  "cr_RequestID (record_of p r a b ident t e) = a" "cr_ClientRequestID (record_of p r a b ident t e) = b"
  by (simp_all add: record_of_def capture_of_def)

lemma with_correlation_ids:
  "header_values (req_Header (with_correlation a b r)) ''X-Request-ID'' = [a]"
  "header_values (req_Header (with_correlation a b r)) ''X-Client-Request-ID'' = [b]"
  by (simp_all add: with_correlation_def header_values_set correlation_keys)

lemma with_correlation_connection:
  "header_values (req_Header (with_correlation a b r)) ''Connection'' = header_values (req_Header r) ''Connection''"
  "header_get (req_Header (with_correlation a b r)) ''Upgrade'' = header_get (req_Header r) ''Upgrade''"
  by (simp_all add: with_correlation_def header_get_def header_values_set correlation_keys)

lemma with_correlation_tokens:
  "connection_tokens (req_Header (with_correlation a b r)) = connection_tokens (req_Header r)"
  "upgrade_type (req_Header (with_correlation a b r)) = upgrade_type (req_Header r)"
  by (simp_all add: connection_tokens_def upgrade_type_def with_correlation_connection)

lemma outbound_intact:
  assumes "ascii_printable (upgrade_type (req_Header r))"
  shows "\<exists>out. outbound_of target (with_correlation a b r) = Some out \<and> intact target r a b out"
proof -
  let ?r = "with_correlation a b r"
  have f: "req_Method ?r = req_Method r" "req_Host ?r = req_Host r" "req_ContentLength ?r = req_ContentLength r"
    "req_Body ?r = req_Body r" "req_Path ?r = req_Path r" "req_RawPath ?r = req_RawPath r" "req_RawQuery ?r = req_RawQuery r"
    by (simp_all add: with_correlation_def)
  have h: "header_values (outbound_header ?r) k = (if canonical_key k = ''X-Request-Id'' then [a]
      else if canonical_key k = ''X-Client-Request-Id'' then [b] else header_values (req_Header r) k)"
    if "\<not> rewritten (req_Header r) k" for k
    using that outbound_header_keeps [of ?r k]
    by (simp add: rewritten_def with_correlation_tokens) (simp add: with_correlation_def header_values_set correlation_keys)
  have u: "url_Scheme (rewrite_url target ?r) = url_Scheme target" "url_Host (rewrite_url target ?r) = url_Host target"
    "url_RawQuery (rewrite_url target ?r) = (if url_RawQuery target = [] then req_RawQuery r
       else if req_RawQuery r = [] then url_RawQuery target else url_RawQuery target @ ''&'' @ req_RawQuery r)"
    by (simp_all add: rewrite_url_def f split: prod.split)
  show ?thesis
    using assms h u rewrite_url_joins [of target ?r] by (simp add: outbound_of_def with_correlation_tokens intact_def f)
qed

section \<open>Properties\<close>

text \<open>
  C3. The gateway is transparent and fails open: a proxied request is sent to the upstream whether
  or not it is captured, the body is too long or breaks off, the queue is full or closed, or the
  database is down. The upstream gets its method, host, body and headers, those of one connection
  apart, with the request id \<open>a\<close> and the client request id \<open>b\<close> as the only new ones; its query; and
  its path, in the encoding of the client, below the path of the upstream. The ids are those of
  the client where they are safe. Conditions: the path is ASCII, the limit on captured bytes is
  below the largest 64-bit number, and the protocol to upgrade to, if any, is printable.
\<close>

theorem proxy_transparent:
  assumes "proxied p r" and "ascii (req_Path r)" and "MaxCaptureBytes (p_cfg p) < 2 ^ 63 - 1"
    and "ascii_printable (upgrade_type (req_Header r))"
  shows "\<exists>a b r1 out q' w'. ServeHTTP E lib alib peers p r s q w =
      Return (Forwarded r1 (forward (p_target p) (round_trip peers) r1), s, q', w')
    \<and> outbound_of (p_target p) r1 = Some out \<and> intact (p_target p) r a b out
    \<and> id_from E (header_get (req_Header r) ''X-Request-ID'') a \<and> id_from E (header_get (req_Header r) ''X-Client-Request-ID'') b"
proof -
  obtain a w1 where a: "correlationID E (header_get (req_Header r) ''X-Request-ID'') w = (a, w1)" by fastforce
  obtain b w2 where b: "correlationID E (header_get (req_Header r) ''X-Client-Request-ID'') w1 = (b, w2)" by fastforce
  from ServeHTTP_proxied [OF assms(1-3) a b, where s = s and q = q] outbound_intact [OF assms(4)]
    correlationID_id_from [OF a] correlationID_id_from [OF b]
  show ?thesis by blast
qed

lemma forward_no_answer: "forward target (\<lambda>_. None) r = upstream_unavailable"
  by (cases "outbound_of target r") (simp_all add: forward_def)

lemma chat_post_upgrade: "ascii_printable (upgrade_type (req_Header chat_post))"
  by code_simp

theorem proxy_transparent_witness:
  "\<exists>r1 out q' w'. ServeHTTP mem_world form_limits no_admin_lib sample_peers sample_proxy chat_post None empty_queue mem_start =
      Return (Forwarded r1 upstream_unavailable, None, q', w')
    \<and> outbound_of (p_target sample_proxy) r1 = Some out \<and> ob_Body out = req_Body chat_post
    \<and> url_Host (ob_URL out) = ''up'' \<and> header_values (ob_Header out) ''X-Request-ID'' = [''req-7'']"
proof -
  have "\<not> rewritten (req_Header chat_post) ''X-Request-ID''" "req_ContentLength chat_post \<noteq> 0"
    "safe_id (trim_space (header_get (req_Header chat_post) ''X-Request-ID''))"
    "trim_space (header_get (req_Header chat_post) ''X-Request-ID'') = ''req-7''" by code_simp+
  then have i: "ob_Body out = req_Body chat_post \<and> url_Host (ob_URL out) = ''up''
      \<and> header_values (ob_Header out) ''X-Request-ID'' = [''req-7'']"
    if "intact (p_target sample_proxy) chat_post a b out" "id_from mem_world (header_get (req_Header chat_post) ''X-Request-ID'') a" for a b out
    using that by (simp add: intact_def id_from_def correlation_keys sample_proxy_def sample_url_def empty_url_def)
  have "forward (p_target sample_proxy) (round_trip sample_peers) r1 = upstream_unavailable" for r1
    by (simp add: sample_peers_def forward_no_answer)
  then show ?thesis
    using proxy_transparent [OF chat_post_proxied chat_post_upgrade, of mem_world form_limits no_admin_lib sample_peers None empty_queue mem_start]
      i by metis
qed

text \<open>
  C7. Exactly the audited requests are captured, once each: the queue is offered one record, which
  describes the extraction of the complete body, the identity of the API key and the path, has a
  new UUID and a reading of the clock, and carries the values of the headers \<open>X-Request-ID\<close> and
  \<open>X-Client-Request-ID\<close> that the request has when it is forwarded; for any other proxied request
  the queue is unchanged. The path is ASCII and the limit on captured bytes is below the largest
  64-bit number.
\<close>

theorem captures_exactly_audited:
  assumes "proxied p r" and "ascii (req_Path r)" and "MaxCaptureBytes (p_cfg p) < 2 ^ 63 - 1"
  shows "\<exists>r1 resp q' w'. ServeHTTP E lib alib peers p r s q w = Return (Forwarded r1 resp, s, q', w')
    \<and> (case audited lib (p_cfg p) r of
         None \<Rightarrow> q' = q
       | Some e \<Rightarrow> \<exists>rec v u. q' = snd (Enqueue rec q) \<and> describes p r e rec
           \<and> header_values (req_Header r1) ''X-Request-ID'' = [cr_RequestID rec]
           \<and> header_values (req_Header r1) ''X-Client-Request-ID'' = [cr_ClientRequestID rec]
           \<and> id_from E (header_get (req_Header r) ''X-Request-ID'') (cr_RequestID rec)
           \<and> id_from E (header_get (req_Header r) ''X-Client-Request-ID'') (cr_ClientRequestID rec)
           \<and> cr_ID rec = fst (new_uuid E v) \<and> cr_ReceivedAt rec = fst (time_now E u))"
proof -
  obtain a w1 where a: "correlationID E (header_get (req_Header r) ''X-Request-ID'') w = (a, w1)" by fastforce
  obtain b w2 where b: "correlationID E (header_get (req_Header r) ''X-Client-Request-ID'') w1 = (b, w2)" by fastforce
  obtain v u w' where serve: "ServeHTTP E lib alib peers p r s q w =
      Return (Forwarded (with_correlation a b r) (forward (p_target p) (round_trip peers) (with_correlation a b r)), s,
        case audited lib (p_cfg p) r of None \<Rightarrow> q
        | Some e \<Rightarrow> snd (Enqueue (record_of p (with_correlation a b r) a b (fst (new_uuid E v)) (fst (time_now E u)) e) q), w')"
    using ServeHTTP_proxied [OF assms a b, where s = s and q = q] by blast
  show ?thesis
  proof (cases "audited lib (p_cfg p) r")
    case None
    with serve show ?thesis by simp
  next
    case (Some e)
    let ?rec = "record_of p (with_correlation a b r) a b (fst (new_uuid E v)) (fst (time_now E u)) e"
    have "describes p r e ?rec" using assms(2) by (rule record_of_describes)
    with serve Some correlationID_id_from [OF a] correlationID_id_from [OF b] show ?thesis
      by (intro exI [of _ "with_correlation a b r"] exI conjI) (auto simp: with_correlation_ids intro!: exI [of _ ?rec])
  qed
qed

lemma chat_post_extracted:
  "map Text (Messages (extractJSONByProtocol ((new_extraction ''/v1/chat/completions'')\<lparr>ModelName := modelFromJSON (JObject (chat_object ''A''))\<rparr>)
     (JObject (chat_object ''A'')))) = [''hi'']"
  by code_simp

lemma chat_post_chosen:
  "shouldCapture sample_config chat_post" "capturable_headers (req_Header chat_post)"
  "0 < MaxCaptureBytes sample_config" "int (length chat_body_a) \<le> MaxCaptureBytes sample_config"
  by code_simp+

lemma chat_post_audited:
  "\<exists>e. audited form_limits sample_config chat_post = Some e \<and> map Text (Messages e) = [''hi'']"
proof -
  let ?e = "ExtractRequest form_limits ''/v1/chat/completions'' (header_get (req_Header chat_post) ''Content-Type'')
    chat_body_a (MaxPromptBytes sample_config)"
  have "map Text (Messages ?e) = [''hi'']"
    using chat_post_extracted by (simp add: chat_post_type ExtractRequest_json [OF json_medias(2) chat_bodies(1)])
  moreover from this have "Messages ?e \<noteq> []" by auto
  moreover have "req_Body chat_post = Some (bytes_reader chat_body_a)" "req_Path chat_post = ''/v1/chat/completions''"
    by (simp_all add: chat_post_def)
  ultimately show ?thesis using chat_post_chosen by (simp add: audited_def bytes_reader_def Let_def)
qed

theorem captures_exactly_audited_witness:
  "\<exists>x s' q' w'. ServeHTTP mem_world form_limits no_admin_lib sample_peers sample_proxy chat_post None empty_queue mem_start =
      Return (x, s', q', w') \<and> map (map Text \<circ> cr_Messages) (items q') = [[''hi'']] \<and> map cr_RequestID (items q') = [''req-7'']"
proof -
  obtain e where e: "audited form_limits (p_cfg sample_proxy) chat_post = Some e" "map Text (Messages e) = [''hi'']"
    using chat_post_audited by (auto simp: sample_proxy_def)
  have "safe_id (trim_space (header_get (req_Header chat_post) ''X-Request-ID''))"
    "trim_space (header_get (req_Header chat_post) ''X-Request-ID'') = ''req-7''" by code_simp+
  then show ?thesis
    using captures_exactly_audited [OF chat_post_proxied, of mem_world form_limits no_admin_lib sample_peers None empty_queue mem_start]
      e by (auto simp: Enqueue_def empty_queue_def describes_def id_from_def)
qed

text \<open>
  At the largest 64-bit limit the sum \<open>maxBytes+1\<close> wraps around and the body is lost: the
  request that goes on has an empty body, and an empty body is what is captured.
\<close>

theorem capture_limit_overflow:
  assumes "req_Body r = Some b" and "capturable_headers (req_Header r)"
  shows "readBodyForCapture r (2 ^ 63 - 1) = (([], True, False), r\<lparr>req_Body := Some (bytes_reader [])\<rparr>)"
  using assms by (simp add: readBodyForCapture_def wrap64_def read_limited_def Let_def)

theorem capture_limit_overflow_witness:
  "req_Body (snd (readBodyForCapture chat_post (2 ^ 63 - 1))) \<noteq> req_Body chat_post"
proof -
  have "capturable_headers (req_Header chat_post)" by code_simp
  then show ?thesis
    using capture_limit_overflow [of chat_post "the (req_Body chat_post)"] by (simp add: chat_post_def bytes_reader_def chat_body_a_def quoted_def)
qed

text \<open>
  C30. Correlation ids are safe whatever a client sends: the id that is forwarded and stored is
  the trimmed value when that is 1 to 128 letters, digits or one of \<open>._:-\<close>, and otherwise a
  new UUID; in both cases it has that form and fits its column.
\<close>

theorem correlation_ids_safe:
  assumes "audit_db E V" and "correlationID E value w = (v, w')"
  shows "v = (if safe_id (trim_space value) then trim_space value else fst (new_uuid E w))
    \<and> safe_id v \<and> varchar 128 v"
proof -
  have u: "safe_id (fst (new_uuid E w))"
    using canonical_safe [OF audit_db.new_uuid_canonical [OF assms(1)]] .
  from correlationID_cases [OF assms(2)] u correlationID_safe [of "value" E w] assms(2) have "v = (if safe_id (trim_space value) then trim_space value else fst (new_uuid E w)) \<and> safe_id v"
    by auto
  then show ?thesis using safe_id_varchar by blast
qed

theorem correlation_ids_safe_witness:
  "safe_id ''req-7'' \<and> safe_id (mem_uuid 1)"
  using correlation_ids_safe [OF mem_audit.audit_db_axioms prod.collapse [symmetric],
    of "header_get (req_Header chat_post) ''X-Request-ID''" mem_start]
    correlation_ids_safe [OF mem_audit.audit_db_axioms prod.collapse [symmetric],
    of "header_get (req_Header chat_post) ''X-Client-Request-ID''" mem_start]
  unfolding chat_post_ids by blast

text \<open>
  C23. The request path never waits for or writes to the audit database: serving a request that is
  neither a health check nor for the administration leaves the store and the tables as they
  are; records only go to the end of the queue. An administration or health request is
  answered by the sidecar itself: it reaches neither the upstream nor the queue.
\<close>

theorem request_paths_separated:
  assumes "services E V" and "ServeHTTP E lib alib peers p r s q w = Return (x, s', q', w')"
  shows "if health_path (req_Path r) \<or> admin_path (req_Path r) then q' = q \<and> (\<exists>resp. x = Answered resp)
    else s' = s \<and> tables_of V w' = tables_of V w \<and> queue_grows q q'"
proof (cases "health_path (req_Path r) \<or> admin_path (req_Path r)")
  case True
  then show ?thesis using assms(2) by (auto simp: ServeHTTP_def split: if_splits prod.splits)
next
  case False
  then show ?thesis
    using observation.ServeHTTP_calm [OF services_observation [OF assms(1)] _ _ assms(2)]
    by (simp add: observation.calm_def [OF services_observation [OF assms(1)]])
qed

theorem request_paths_separated_witness:
  "\<exists>x s' q' w'. ServeHTTP mem_world form_limits no_admin_lib sample_peers sample_proxy chat_post None empty_queue mem_start
      = Return (x, s', q', w') \<and> m_tables w' = m_tables mem_start"
proof -
  obtain a w1 where a: "correlationID mem_world (header_get (req_Header chat_post) ''X-Request-ID'') mem_start = (a, w1)"
    by fastforce
  obtain b w2 where b: "correlationID mem_world (header_get (req_Header chat_post) ''X-Client-Request-ID'') w1 = (b, w2)"
    by fastforce
  obtain x s' q' w' where s: "ServeHTTP mem_world form_limits no_admin_lib sample_peers sample_proxy chat_post None empty_queue
      mem_start = Return (x, s', q', w')"
    using ServeHTTP_proxied [OF chat_post_proxied a b, of form_limits no_admin_lib sample_peers None empty_queue] by blast
  from request_paths_separated [OF mem_services.services_axioms s] s show ?thesis
    using chat_post_proxied(1) by (auto simp: proxied_def)
qed




theorem relay_refines_witness:
  "\<exists>session q' w'. ServeWebSocket mem_world sample_proxy sample_url (\<lambda>_ _. Dialed [] \<lparr>delivers = [], takes = 0\<rparr>)
      (Some \<lparr>delivers = [\<lparr>frame_type = 1, frame_payload = ''hi''\<rparr>], takes = 0\<rparr>) chat_post ''a'' ''b'' empty_queue mem_start
      = Return (session, q', w') \<and> ws_to_upstream session = []"
  using relay_refines [OF one_way_reachable _ _ chat_post_proxied(2), of "\<lambda>_ _. Dialed [] \<lparr>delivers = [], takes = 0\<rparr>" "[]"
      mem_world sample_proxy sample_url "''a''" "''b''" empty_queue mem_start]
  by (auto simp: one_way_def relay_start_def)

lemma canonical_request_id: "canonical_key ''X-Request-Id'' = ''X-Request-Id''"
  by code_simp

text \<open>
  C40. A client can keep the request id from the upstream: if it names \<open>X-Request-Id\<close> in the header
  \<open>Connection\<close>, the request is captured under the id \<open>a\<close> that the gateway sets, but the reverse proxy
  takes the header for one of this connection and removes it, so the records of the upstream
  have another id and the identity of an unknown key cannot be looked up by it later.
\<close>

theorem correlation_id_strippable:
  assumes "proxied p r" and "ascii (req_Path r)" and "MaxCaptureBytes (p_cfg p) < 2 ^ 63 - 1"
    and "''X-Request-Id'' \<in> set (connection_tokens (req_Header r))" and "ascii_printable (upgrade_type (req_Header r))"
    and "audited lib (p_cfg p) r = Some e"
  shows "\<exists>a b out rec w' resp. ServeHTTP E lib alib peers p r s q w =
      Return (Forwarded (with_correlation a b r) resp, s, snd (Enqueue rec q), w') \<and> cr_RequestID rec = a
    \<and> outbound_of (p_target p) (with_correlation a b r) = Some out \<and> header_values (ob_Header out) ''X-Request-ID'' = []"
proof -
  obtain a w1 where a: "correlationID E (header_get (req_Header r) ''X-Request-ID'') w = (a, w1)" by fastforce
  obtain b w2 where b: "correlationID E (header_get (req_Header r) ''X-Client-Request-ID'') w1 = (b, w2)" by fastforce
  let ?r = "with_correlation a b r"
  obtain v u w' where s: "ServeHTTP E lib alib peers p r s q w = Return (Forwarded ?r (forward (p_target p) (round_trip peers) ?r), s,
      snd (Enqueue (record_of p ?r a b (fst (new_uuid E v)) (fst (time_now E u)) e) q), w')"
    using ServeHTTP_proxied [OF assms(1-3) a b, where s = s and q = q and lib = lib and alib = alib and peers = peers] assms(6)
    by (elim exE) (simp add: that)
  have "''X-Request-Id'' \<in> canonical_key ` set (connection_tokens (req_Header ?r))"
    using assms(4) by (intro image_eqI [of _ _ "''X-Request-Id''"]) (simp_all add: with_correlation_tokens canonical_request_id)
  then have "header_values (outbound_header ?r) ''X-Request-ID'' = []"
    by (intro outbound_header_drops) (simp_all add: correlation_keys)
  moreover obtain out where "outbound_of (p_target p) ?r = Some out" "ob_Header out = outbound_header ?r"
    using assms(5) by (simp add: outbound_of_def with_correlation_tokens)
  ultimately show ?thesis using s record_of_ids(3) by metis
qed

definition stripping_post :: request where
  "stripping_post = chat_post\<lparr>req_Header := map (\<lambda>(k, vs). if k = ''Connection'' then (k, [''keep-alive, X-Request-Id'']) else (k, vs)) (req_Header chat_post)\<rparr>"

lemma stripping_post_proxied: "proxied sample_proxy stripping_post" "ascii (req_Path stripping_post)"
  "''X-Request-Id'' \<in> set (connection_tokens (req_Header stripping_post))" "ascii_printable (upgrade_type (req_Header stripping_post))"
  by code_simp+

lemma stripping_post_audited: "audited form_limits sample_config stripping_post = audited form_limits sample_config chat_post"
proof -
  have h: "header_get (req_Header stripping_post) ''Content-Type'' = header_get (req_Header chat_post) ''Content-Type''"
    "header_get (req_Header stripping_post) ''Content-Encoding'' = header_get (req_Header chat_post) ''Content-Encoding''" by code_simp+
  then have c: "capturable_headers (req_Header stripping_post) = capturable_headers (req_Header chat_post)"
    by (simp add: capturable_headers_def)
  have f: "req_Body stripping_post = req_Body chat_post" "req_Path stripping_post = req_Path chat_post"
    "shouldCapture sample_config stripping_post = shouldCapture sample_config chat_post"
    by (simp_all add: stripping_post_def shouldCapture_def)
  show ?thesis unfolding audited_def h c f by (rule refl)
qed

theorem correlation_id_strippable_witness:
  "\<exists>a b out rec w' resp. ServeHTTP mem_world form_limits no_admin_lib sample_peers sample_proxy stripping_post None empty_queue mem_start =
      Return (Forwarded (with_correlation a b stripping_post) resp, None, snd (Enqueue rec empty_queue), w') \<and> cr_RequestID rec = a
    \<and> outbound_of sample_url (with_correlation a b stripping_post) = Some out \<and> header_values (ob_Header out) ''X-Request-ID'' = []"
proof -
  obtain e where "audited form_limits (p_cfg sample_proxy) stripping_post = Some e"
    using chat_post_audited stripping_post_audited by (auto simp: sample_proxy_def)
  with correlation_id_strippable [OF stripping_post_proxied(1,2) chat_post_proxied(3) stripping_post_proxied(3,4),
      of form_limits e mem_world no_admin_lib sample_peers None empty_queue mem_start]
  show ?thesis by (simp add: sample_proxy_def)
qed

text \<open>
  C38. The gateway does not always fail open: a request to a path with \<open>k\<close> letters \<open>A\<close> with stroke
  (U+023A) before \<open>/models/\<close> and an ASCII name after it, whose body is captured and names no model,
  ends in a panic of \<open>modelFromPath\<close>, and is not forwarded, exactly when the name has fewer than \<open>k\<close> bytes.
\<close>

theorem stroke_path_not_forwarded:
  assumes "proxied p r" and "req_Path r = stroke_path k model" and "ascii model"
    and "shouldCapture (p_cfg p) r" and "capturable_headers (req_Header r)"
    and "req_Body r = Some b" and "\<not> stream_fails b" and "0 < MaxCaptureBytes (p_cfg p)"
    and "int (length (stream_bytes b)) \<le> MaxCaptureBytes (p_cfg p)" and "MaxCaptureBytes (p_cfg p) < 2 ^ 63 - 1"
    and "ModelName (ExtractRequest lib (req_Path r) (header_get (req_Header r) ''Content-Type'') (stream_bytes b) (MaxPromptBytes (p_cfg p))) = []"
  shows "ServeHTTP E lib alib peers p r s q w = Panic \<longleftrightarrow> length model < k"
proof -
  obtain x w1 where a: "correlationID E (header_get (req_Header r) ''X-Request-ID'') w = (x, w1)" by fastforce
  obtain y w2 where b: "correlationID E (header_get (req_Header r) ''X-Client-Request-ID'') w1 = (y, w2)" by fastforce
  let ?r = "with_correlation x y r" and ?n = "MaxCaptureBytes (p_cfg p)"
  have body: "readBodyForCapture ?r ?n = ((stream_bytes b, True, False), ?r)"
    using readBodyForCapture_body [of ?r b ?n] readBodyForCapture_transparent [OF assms(10), of ?r] assms(5-10)
    by (simp add: prod_eq_iff)
  let ?e = "ExtractRequest lib (req_Path r) (header_get (req_Header r) ''Content-Type'') (stream_bytes b) (MaxPromptBytes (p_cfg p))"
  have m: "with_model (req_Path r) ?e = bind_outcome (modelFromPath (req_Path r)) (\<lambda>m. Return (?e\<lparr>ModelName := m\<rparr>))"
    using assms(11) by (simp add: with_model_def)
  have "captureHTTP E lib p ?r x y t (stream_bytes b) q v = Panic \<longleftrightarrow> modelFromPath (req_Path r) = Panic" for t v
    using m by (cases "modelFromPath (req_Path r)") (auto simp: captureHTTP_def split: prod.split)
  then have "capture_request E lib p ?r x y q w2 = Panic \<longleftrightarrow> modelFromPath (req_Path r) = Panic"
    using body assms(4) by (auto simp: capture_request_def bind_outcome_Panic_iff split: prod.split)
  then show ?thesis
    using assms(1) a b modelFromPath_stroke [OF assms(3), of k] assms(2)
    by (auto simp: ServeHTTP_def proxied_def Let_def bind_outcome_Panic_iff)
qed

definition stroke_post :: request where
  "stroke_post = chat_post\<lparr>req_Path := stroke_path 2 ''x'', req_Body := Some (bytes_reader ''{}'')\<rparr>"

theorem stroke_path_not_forwarded_witness:
  "ServeHTTP mem_world form_limits no_admin_lib sample_peers sample_proxy stroke_post None empty_queue mem_start = Panic"
proof -
  have f: "req_Path stroke_post = stroke_path 2 ''x''" "ascii ''x''" "req_Body stroke_post = Some (bytes_reader ''{}'')"
    by (simp_all add: stroke_post_def byte_def)
  have p: "proxied sample_proxy stroke_post" "shouldCapture (p_cfg sample_proxy) stroke_post" "capturable_headers (req_Header stroke_post)"
    "0 < MaxCaptureBytes (p_cfg sample_proxy)" "int (length ''{}'') \<le> MaxCaptureBytes (p_cfg sample_proxy)"
    by code_simp+
  have "header_get (req_Header stroke_post) ''Content-Type'' = ''application/json''" by (simp add: stroke_post_def chat_post_type)
  moreover have "json_unmarshal ''{}'' = Some (JObject [])" by code_simp
  moreover have "ModelName (extractJSONByProtocol ((new_extraction (stroke_path 2 ''x''))\<lparr>ModelName := modelFromJSON (JObject [])\<rparr>) (JObject [])) = []"
    by code_simp
  ultimately have "ModelName (ExtractRequest form_limits (req_Path stroke_post) (header_get (req_Header stroke_post) ''Content-Type'')
      (stream_bytes (bytes_reader ''{}'')) (MaxPromptBytes (p_cfg sample_proxy))) = []"
    by (simp add: f ExtractRequest_json [OF json_medias(2)] bytes_reader_def)
  then show ?thesis
    using stroke_path_not_forwarded [OF p(1) f(1,2) p(2,3) f(3) _ p(4), of form_limits mem_world no_admin_lib sample_peers None empty_queue mem_start]
      p(5) chat_post_proxied(3) by (simp add: bytes_reader_def)
qed

text \<open>
  A WebSocket request loses the encoding of its path: the target is built from the decoded path,
  so a slash that the client has encoded reaches the upstream as a separator.
\<close>

theorem websocket_path_reencoded:
  "upstreamWebSocketURL sample_url (chat_post\<lparr>req_Path := ''/v1/a/b'', req_RawPath := ''/v1/a%2Fb''\<rparr>) = ''ws://up/v1/a/b''
   \<and> request_uri (chat_post\<lparr>req_Path := ''/v1/a/b'', req_RawPath := ''/v1/a%2Fb''\<rparr>) = ''/v1/a%2Fb''"
  by code_simp

end
