(* ===== verification/Auth_Props.thy ===== *)
theory Auth_Props
  imports Auth Store_Props
begin

text \<open>
  Properties of the administrators and their sessions, for every world that satisfies the laws
  of \<open>admin_db\<close>.
\<close>

section \<open>The invariant and what may change\<close>

definition auth_inv :: "tables \<Rightarrow> bool" where
  "auth_inv T \<longleftrightarrow> distinct (map adm_username (admins T)) \<and> distinct (map ses_token_hash (sessions T))
     \<and> ses_username ` set (sessions T) \<subseteq> adm_username ` set (admins T)"

definition credentials :: "tables \<Rightarrow> (string \<times> string) list" where
  "credentials T = map (\<lambda>a. (adm_username a, adm_password_hash a)) (admins T)"

text \<open>
  A change an operation of \<open>auth.go\<close> may make: the audit records stay, the credentials only
  grow at the end, the invariant is kept.
\<close>

definition auth_ok :: "tables \<Rightarrow> tables \<Rightarrow> bool" where
  "auth_ok T T' \<longleftrightarrow> records T' = records T \<and> prefix (credentials T) (credentials T')
     \<and> (auth_inv T \<longrightarrow> auth_inv T')"

lemma auth_ok_refl [simp, intro]: "auth_ok T T"
  by (simp add: auth_ok_def)

lemma auth_ok_trans [trans]: "auth_ok T T' \<Longrightarrow> auth_ok T' T'' \<Longrightarrow> auth_ok T T''"
  by (auto simp: auth_ok_def intro: prefix_order.trans)

datatype auth_event =
    EnsureEv string string
  | LoginEv string string
  | SessionEv string int
  | ValidateEv string
  | LogoutEv string
  | ExpireEv

fun run_auth :: "'w world \<Rightarrow> auth_event \<Rightarrow> store option \<times> 'w \<Rightarrow> store option \<times> 'w" where
  "run_auth E (EnsureEv u p) (s, w) = snd (EnsureAdmin E u p s w)"
| "run_auth E (LoginEv u p) (s, w) = snd (AuthenticateAdmin E u p s w)"
| "run_auth E (SessionEv u ttl) (s, w) = snd (CreateAdminSession E u ttl s w)"
| "run_auth E (ValidateEv t) (s, w) = snd (ValidateAdminSession E t s w)"
| "run_auth E (LogoutEv t) (s, w) = snd (DeleteAdminSession E t s w)"
| "run_auth E ExpireEv (s, w) = snd (DeleteExpiredAdminSessions E s w)"

lemma append_admin_ok:
  "adm_username a \<notin> adm_username ` set (admins T) \<Longrightarrow> auth_ok T (T\<lparr>admins := admins T @ [a]\<rparr>)"
  by (auto simp: auth_ok_def credentials_def auth_inv_def)

lemma touch_admins_ok:
  assumes "\<And>a. adm_username (f a) = adm_username a \<and> adm_password_hash (f a) = adm_password_hash a"
  shows "auth_ok T (T\<lparr>admins := map f (admins T)\<rparr>)"
  using assms by (simp add: auth_ok_def credentials_def auth_inv_def image_image comp_def)

lemma append_session_ok:
  "ses_username x \<in> adm_username ` set (admins T) \<Longrightarrow> ses_token_hash x \<notin> ses_token_hash ` set (sessions T) \<Longrightarrow>
     auth_ok T (T\<lparr>sessions := sessions T @ [x]\<rparr>)"
  by (auto simp: auth_ok_def credentials_def auth_inv_def)

lemma touch_sessions_ok:
  assumes "\<And>x. ses_username (f x) = ses_username x \<and> ses_token_hash (f x) = ses_token_hash x"
  shows "auth_ok T (T\<lparr>sessions := map f (sessions T)\<rparr>)"
  using assms by (simp add: auth_ok_def credentials_def auth_inv_def image_image comp_def)

lemma filter_sessions_ok: "auth_ok T (T\<lparr>sessions := filter P (sessions T)\<rparr>)"
  by (auto simp: auth_ok_def credentials_def auth_inv_def distinct_map_filter)

context admin_db
begin

lemma statements_ok:
  "db_insert_admin E u h w = (rs, w') \<Longrightarrow> auth_ok (tables_of V w) (tables_of V w')"
  "db_touch_login E u w = (r, w') \<Longrightarrow> auth_ok (tables_of V w) (tables_of V w')"
  "db_insert_session E h u t w = (r, w') \<Longrightarrow> auth_ok (tables_of V w) (tables_of V w')"
  "db_touch_session E h w = (r, w') \<Longrightarrow> auth_ok (tables_of V w) (tables_of V w')"
  "db_delete_session E h w = (r, w') \<Longrightarrow> auth_ok (tables_of V w) (tables_of V w')"
  "db_expire_sessions E w = (r, w') \<Longrightarrow> auth_ok (tables_of V w) (tables_of V w')"
proof -
  show "db_insert_admin E u h w = (rs, w') \<Longrightarrow> auth_ok (tables_of V w) (tables_of V w')"
    by (drule insert_admin_law) (elim disjE conjE, simp_all add: append_admin_ok)
  show "db_touch_login E u w = (r, w') \<Longrightarrow> auth_ok (tables_of V w) (tables_of V w')"
    by (drule touch_login_law) (elim disjE conjE exE, simp, simp add: touch_admins_ok)
  show "db_insert_session E h u t w = (r, w') \<Longrightarrow> auth_ok (tables_of V w) (tables_of V w')"
    by (drule insert_session_law) (elim disjE conjE exE, simp, simp add: append_session_ok)
  show "db_touch_session E h w = (r, w') \<Longrightarrow> auth_ok (tables_of V w) (tables_of V w')"
    by (drule touch_session_law) (elim disjE conjE exE, simp, simp add: touch_sessions_ok)
  show "db_delete_session E h w = (r, w') \<Longrightarrow> auth_ok (tables_of V w) (tables_of V w')"
    by (drule delete_session_law) (elim disjE conjE, simp, simp add: filter_sessions_ok)
  show "db_expire_sessions E w = (r, w') \<Longrightarrow> auth_ok (tables_of V w) (tables_of V w')"
    by (drule expire_sessions_law) (elim disjE conjE, simp, simp add: filter_sessions_ok)
qed

lemma call_quiet:
  "rand_read E n w = (x, w') \<Longrightarrow> tables_of V w' = tables_of V w"
  "bcrypt_generate E p c w = (y, w') \<Longrightarrow> tables_of V w' = tables_of V w"
  by (metis rand_read_quiet snd_conv) (metis bcrypt_quiet snd_conv)

lemma random_quiet:
  "generateSessionToken E w = (y, w') \<Longrightarrow> tables_of V w' = tables_of V w"
  "hashAdminPassword E p w = (y, w') \<Longrightarrow> tables_of V w' = tables_of V w"
  by (auto simp: generateSessionToken_def hashAdminPassword_def split: prod.splits sum.splits if_splits
      dest: call_quiet)

lemma EnsureAdminHash_ok:
  "EnsureAdminHash E u h s w = (r, s', w') \<Longrightarrow> auth_ok (tables_of V w) (tables_of V w')"
  by (auto simp: EnsureAdminHash_def Let_def split: option.splits prod.splits sum.splits if_splits
      dest!: ensureSchema_quiet statements_ok(1))

lemma EnsureAdmin_ok:
  "EnsureAdmin E u p s w = (r, s', w') \<Longrightarrow> auth_ok (tables_of V w) (tables_of V w')"
  by (auto simp: EnsureAdmin_def split: prod.splits sum.splits dest!: random_quiet(2) EnsureAdminHash_ok)

lemma AuthenticateAdmin_ok:
  "AuthenticateAdmin E u p s w = (r, s', w') \<Longrightarrow> auth_ok (tables_of V w) (tables_of V w')"
  by (auto simp: AuthenticateAdmin_def Let_def split: option.splits prod.splits sum.splits if_splits
      dest!: ensureSchema_quiet statements_ok(2) password_law)

lemma session_attempts_ok:
  "session_attempts E u ttl n w = (r, w') \<Longrightarrow> auth_ok (tables_of V w) (tables_of V w')"
proof (induction n arbitrary: w)
  case (Suc n)
  obtain g w1 where g: "generateSessionToken E w = (g, w1)" by fastforce
  obtain k w2 where k: "time_now E w1 = (k, w2)" by fastforce
  have q: "tables_of V w2 = tables_of V w" using random_quiet(1) [OF g] quietD(1) [OF k] by simp
  show ?case
  proof (cases g)
    case (Inl e)
    with Suc.prems g q random_quiet(1) [OF g] show ?thesis by simp
  next
    case (Inr token)
    obtain x w3 where x: "db_insert_session E (hashSessionToken token) u (k + ttl) w2 = (x, w3)" by fastforce
    have "auth_ok (tables_of V w) (tables_of V w3)" using statements_ok(3) [OF x] q by simp
    with Suc.prems Suc.IH [of w3] g k Inr x show ?thesis
      by (auto split: option.splits if_splits intro: auth_ok_trans)
  qed
qed simp

lemma CreateAdminSession_ok:
  "CreateAdminSession E u ttl s w = (r, s', w') \<Longrightarrow> auth_ok (tables_of V w) (tables_of V w')"
  by (auto simp: CreateAdminSession_def Let_def split: option.splits prod.splits if_splits
      dest!: ensureSchema_quiet session_attempts_ok)

lemma ValidateAdminSession_ok:
  assumes "ValidateAdminSession E t s w = (r, s', w')"
  shows "auth_ok (tables_of V w) (tables_of V w')"
proof -
  have "auth_ok (tables_of V v) (tables_of V (snd (db_touch_session E h v)))" for h v
    using statements_ok(4) [of h v "fst (db_touch_session E h v)"] by (metis prod.collapse)
  with assms show ?thesis
    by (auto simp: ValidateAdminSession_def Let_def split: option.splits prod.splits sum.splits if_splits
        dest!: ensureSchema_quiet session_law) metis
qed

lemma DeleteAdminSession_ok:
  "DeleteAdminSession E t s w = (r, s', w') \<Longrightarrow> auth_ok (tables_of V w) (tables_of V w')"
  by (auto simp: DeleteAdminSession_def Let_def split: option.splits prod.splits if_splits
      dest!: ensureSchema_quiet statements_ok(5))

lemma DeleteExpired_ok:
  "DeleteExpiredAdminSessions E s w = (r, s', w') \<Longrightarrow> auth_ok (tables_of V w) (tables_of V w')"
  by (auto simp: DeleteExpiredAdminSessions_def split: option.splits prod.splits
      dest!: ensureSchema_quiet statements_ok(6))

lemma run_auth_ok: "auth_ok (tables_of V w) (tables_of V (snd (run_auth E ev (s, w))))"
  by (cases ev)
    (auto simp: prod_eq_iff intro: EnsureAdmin_ok AuthenticateAdmin_ok CreateAdminSession_ok ValidateAdminSession_ok
      DeleteAdminSession_ok DeleteExpired_ok surjective_pairing)

lemma run_auths_ok: "auth_ok (tables_of V w) (tables_of V (snd (fold (run_auth E) evs (s, w))))"
proof (induction evs arbitrary: s w)
  case (Cons ev evs)
  obtain s1 w1 where e: "run_auth E ev (s, w) = (s1, w1)" by (cases "run_auth E ev (s, w)")
  have "auth_ok (tables_of V w) (tables_of V w1)" using run_auth_ok [of w ev s] e by simp
  from auth_ok_trans [OF this Cons.IH] e show ?case by simp
qed simp

text \<open>A token is 43 URL-safe characters, so trimming it changes nothing.\<close>

lemma token_trim:
  assumes "generateSessionToken E w = (Inr token, w')"
  shows "trim_space token = token \<and> length token = 43"
proof -
  obtain bytes where b: "rand_read E 32 w = (Inr bytes, w')" "token = base64_raw_url bytes"
    using assms by (auto simp: generateSessionToken_def split: prod.splits sum.splits)
  have "length bytes = 32" using rand_read_length [of 32 w bytes] b(1) by simp
  moreover have "byte c < 128 \<and> \<not> is_space (byte c)" if "c \<in> set token" for c
    using base64_safe [of bytes] that b(2) by (auto simp: list_all_iff url_safe_def is_space_def Let_def)
  ultimately show ?thesis using b(2) trim_space_ascii_id [of token] by (auto simp: length_base64)
qed

lemma session_attempts_stores:
  "session_attempts E u ttl n w = (Inr (token, expires), w') \<Longrightarrow>
   trim_space token = token \<and> token \<noteq> [] \<and> u \<in> adm_username ` set (admins (tables_of V w')) \<and>
   (\<exists>x \<in> set (sessions (tables_of V w')). ses_token_hash x = hashSessionToken token \<and> ses_username x = u
      \<and> ses_expires_at x = timestamp V expires)"
proof (induction n arbitrary: w)
  case (Suc n)
  obtain g w1 where g: "generateSessionToken E w = (g, w1)" by fastforce
  obtain k w2 where k: "time_now E w1 = (k, w2)" by fastforce
  obtain tok where tok: "g = Inr tok" using Suc.prems g by (cases g) auto
  obtain x w3 where x: "db_insert_session E (hashSessionToken tok) u (k + ttl) w2 = (x, w3)" by fastforce
  show ?case
  proof (cases x)
    case None
    with Suc.prems g k tok x have eq: "token = tok" "expires = k + ttl" "w' = w3" by auto
    from insert_session_law [OF x] None eq token_trim [of w token w1] g tok show ?thesis by auto
  next
    case (Some e)
    with Suc g k tok x show ?thesis by (auto split: if_splits)
  qed
qed simp

lemma CreateAdminSession_stores:
  assumes "CreateAdminSession E u ttl s w = (Inr (token, expires), s', w')"
  shows "trim_space token = token \<and> token \<noteq> [] \<and> trim_space u \<in> adm_username ` set (admins (tables_of V w'))
    \<and> (\<exists>x \<in> set (sessions (tables_of V w')). ses_token_hash x = hashSessionToken token
         \<and> ses_username x = trim_space u \<and> ses_expires_at x = timestamp V expires)
    \<and> (\<forall>v. ensureSchema E s' v = (None, s', v))"
proof -
  obtain q s1 w1 where q: "ensureSchema E s w = (q, s1, w1)" by (cases "ensureSchema E s w")
  with assms have n: "q = None" by (cases q) (auto simp: CreateAdminSession_def)
  with assms q have "session_attempts E (trim_space u) (if ttl \<le> 0 then defaultAdminSessionTTL else ttl) 3 w1
      = (Inr (token, expires), w')" and s: "s' = s1"
    by (auto simp: CreateAdminSession_def Let_def split: prod.splits if_splits)
  from session_attempts_stores [OF this(1)] q n s ensureSchema_again [of E s w s1 w1] show ?thesis by simp
qed

lemma DeleteAdminSession_removes:
  assumes "DeleteAdminSession E token s w = (None, s1, w1)" and "trim_space token \<noteq> []"
  shows "hashSessionToken (trim_space token) \<notin> ses_token_hash ` set (sessions (tables_of V w1))"
proof -
  obtain q s0 w0 where q: "ensureSchema E s w = (q, s0, w0)" by (cases "ensureSchema E s w")
  with assms(1) have n: "q = None" by (cases q) (auto simp: DeleteAdminSession_def)
  obtain x w3 where x: "db_delete_session E (hashSessionToken (trim_space token)) w0 = (x, w3)" by fastforce
  with assms q n have "x = None" "w3 = w1" by (simp_all add: DeleteAdminSession_def)
  with delete_session_law [OF x] show ?thesis by auto
qed

lemma Validate_ready:
  assumes "ensureSchema E s w = (None, s, w)" and "ValidateAdminSession E t s w = (r, s', w')" and "trim_space t \<noteq> []"
  shows "(\<forall>u b. r = Inr (u, b) \<longrightarrow> (b \<longrightarrow> (\<exists>x \<in> set (sessions (tables_of V w)).
      ses_token_hash x = hashSessionToken (trim_space t) \<and> ses_username x = u \<and> db_now V w < ses_expires_at x))
    \<and> (\<not> b \<longrightarrow> \<not> (\<exists>x \<in> set (sessions (tables_of V w)).
      ses_token_hash x = hashSessionToken (trim_space t) \<and> db_now V w < ses_expires_at x)))"
proof -
  obtain y w2 where y: "db_session E (hashSessionToken (trim_space t)) w = (y, w2)" by fastforce
  have "r = (case y of Inl e \<Rightarrow> if is_no_rows e then Inr ([], False) else Inl e | Inr u \<Rightarrow> Inr (u, True))"
    using assms y by (auto simp: ValidateAdminSession_def Let_def split: sum.splits if_splits)
  then show ?thesis using session_law [OF y] by (auto split: sum.splits if_splits)
qed

lemma login_password:
  assumes "AuthenticateAdmin E u p s w = (Inr True, s', w')"
  shows "\<exists>a \<in> set (admins (tables_of V w)). adm_username a = trim_space u \<and> bcrypt_compare E (adm_password_hash a) p"
proof -
  obtain q s1 w1 where q: "ensureSchema E s w = (q, s1, w1)" by (cases "ensureSchema E s w")
  with assms have "q = None" by (cases q) (auto simp: AuthenticateAdmin_def)
  with assms q obtain h w2 where h: "db_password E (trim_space u) w1 = (Inr h, w2)" "bcrypt_compare E h p"
    by (auto simp: AuthenticateAdmin_def Let_def split: prod.splits sum.splits if_splits)
  with password_law [OF h(1)] ensureSchema_quiet [OF q] show ?thesis by auto
qed

text \<open>A new session is accepted in every world with these tables, until it expires.\<close>

lemma session_accepted:
  assumes "auth_inv (tables_of V w)"
    and "CreateAdminSession E u ttl s w = (Inr (token, expires), s1, w1)" and "tables_of V v = tables_of V w1"
    and "ValidateAdminSession E token s1 v = (Inr res, s2, w2)" and "db_now V v < timestamp V expires"
  shows "res = (trim_space u, True)"
proof -
  note c = CreateAdminSession_stores [OF assms(2)]
  have inv: "auth_inv (tables_of V v)"
    using CreateAdminSession_ok [OF assms(2)] assms(1,3) by (simp add: auth_ok_def)
  obtain x where x: "x \<in> set (sessions (tables_of V v))" "ses_token_hash x = hashSessionToken token"
    "ses_username x = trim_space u" "db_now V v < ses_expires_at x" using c assms(3,5) by auto
  obtain n b where res: "res = (n, b)" by (cases res)
  have "ensureSchema E s1 v = (None, s1, v)" "trim_space token = token" "trim_space token \<noteq> []" using c by auto
  note r = Validate_ready [OF this(1) assms(4) this(3)]
  have b: "b" using r x res \<open>trim_space token = token\<close> by auto
  then obtain y where "y \<in> set (sessions (tables_of V v))" "ses_token_hash y = hashSessionToken token" "ses_username y = n"
    using r res \<open>trim_space token = token\<close> by auto
  with x inv have "y = x" by (auto simp: auth_inv_def distinct_map inj_on_def)
  with x \<open>ses_username y = n\<close> res b show ?thesis by simp
qed

end

section \<open>An administrator for the witnesses\<close>

definition admin_mem :: mem where
  "admin_mem = mem_start\<lparr>m_tables := empty_tables\<lparr>admins :=
     [\<lparr>adm_username = ''admin'', adm_password_hash = ''$2a$12$'' @ hex_encode ''correct horse'', adm_last_login_at = None\<rparr>]\<rparr>\<rparr>"

definition ready_store :: "store option" where
  "ready_store = Some (new_store\<lparr>schemaReady := True\<rparr>)"

lemma ready: "ensureSchema E ready_store w = (None, ready_store, w)"
  by (simp add: ready_store_def ensureSchema_def new_store_def)

lemma admin_mem_inv: "auth_inv (m_tables admin_mem)"
  by (simp add: admin_mem_def mem_start_def empty_tables_def auth_inv_def)

lemma admin_trim: "trim_space ''admin'' = ''admin''"
  by code_simp

section \<open>Properties\<close>

text \<open>
  Existing credentials are never replaced: whatever administrator operations run, in any
  order and with any faults, the user names and password hashes present before are an initial
  part of those after, and the audit records are untouched.
\<close>

theorem credentials_never_replaced:
  assumes "admin_db E V"
  shows "prefix (credentials (tables_of V w)) (credentials (tables_of V (snd (fold (run_auth E) evs (s, w)))))
    \<and> records (tables_of V (snd (fold (run_auth E) evs (s, w)))) = records (tables_of V w)"
  using admin_db.run_auths_ok [OF assms] by (simp add: auth_ok_def)

theorem credentials_never_replaced_witness:
  "prefix (credentials (m_tables admin_mem))
     (credentials (m_tables (snd (run_auth mem_world (EnsureEv ''admin'' ''another password'') (ready_store, admin_mem)))))"
  using credentials_never_replaced [OF mem_admin.admin_db_axioms, of admin_mem "[EnsureEv ''admin'' ''another password'']" ready_store]
  by simp

text \<open>
  The administrator operations keep the keys and references of their tables: distinct user
  names, distinct token hashes, and no session without its administrator.
\<close>

theorem auth_operations_keep_invariant:
  assumes "admin_db E V" and "auth_inv (tables_of V w)"
  shows "auth_inv (tables_of V (snd (fold (run_auth E) evs (s, w))))"
  using admin_db.run_auths_ok [OF assms(1)] assms(2) by (simp add: auth_ok_def)

theorem auth_operations_keep_invariant_witness:
  "auth_inv (m_tables (snd (fold (run_auth mem_world)
     [LoginEv ''admin'' ''x'', SessionEv ''admin'' 0, LogoutEv ''t'', ExpireEv] (ready_store, admin_mem))))"
  by (rule auth_operations_keep_invariant [OF mem_admin.admin_db_axioms, unfolded view_simps, OF admin_mem_inv])

text \<open>
  A login succeeds only with the right password: if \<open>AuthenticateAdmin\<close> says yes, the trimmed
  user name is that of an administrator whose stored bcrypt hash matches the password.
\<close>

theorem login_sound:
  assumes "admin_db E V" and "AuthenticateAdmin E u p s w = (Inr True, s', w')"
  shows "\<exists>a \<in> set (admins (tables_of V w)). adm_username a = trim_space u \<and> bcrypt_compare E (adm_password_hash a) p"
  using admin_db.login_password [OF assms] .

definition logged_in :: "(go_error + bool) \<times> store option \<times> mem" where
  "logged_in = AuthenticateAdmin mem_world ''admin'' ''correct horse'' ready_store admin_mem"

theorem login_sound_witness:
  "fst logged_in = Inr True \<and> (\<exists>a \<in> set (admins (m_tables admin_mem)). adm_username a = ''admin'')"
proof -
  have f: "fst logged_in = Inr True" by code_simp
  then have "AuthenticateAdmin mem_world ''admin'' ''correct horse'' ready_store admin_mem
      = (Inr True, fst (snd logged_in), snd (snd logged_in))"
    by (metis logged_in_def prod.collapse)
  from login_sound [OF mem_admin.admin_db_axioms this] f show ?thesis by (auto simp: admin_trim)
qed

text \<open>
  Sessions are a round trip: the token \<open>CreateAdminSession\<close> returns names, until it expires, a
  valid session of that administrator. Validating it right afterwards gives that user or a
  database error, never "no session"; only the hash of the token is stored.
\<close>

theorem session_roundtrip:
  assumes "admin_db E V" and "auth_inv (tables_of V w)"
    and "CreateAdminSession E u ttl s w = (Inr (token, expires), s1, w1)"
    and "ValidateAdminSession E token s1 w1 = (Inr res, s2, w2)" and "db_now V w1 < timestamp V expires"
  shows "res = (trim_space u, True)"
  using admin_db.session_accepted [OF assms(1-3) refl assms(4,5)] .

definition session_made :: "(go_error + string \<times> int) \<times> store option \<times> mem" where
  "session_made = CreateAdminSession mem_world ''admin'' 1000000 ready_store admin_mem"

lemma session_made_row:
  "session_made = (Inr (base64_raw_url (replicate 32 (char_of (Suc 0))), 1000000), ready_store,
     admin_mem\<lparr>m_tables := (m_tables admin_mem)\<lparr>sessions := [\<lparr>ses_token_hash = hashSessionToken (base64_raw_url (replicate 32 (char_of (Suc 0)))),
       ses_username = ''admin'', ses_expires_at = 1000000, ses_last_seen_at = 1\<rparr>]\<rparr>, m_serial := 2, m_clock := 1\<rparr>)"
  unfolding session_made_def CreateAdminSession_def ready Let_def admin_trim
  by (simp add: numeral_3_eq_3 generateSessionToken_def mem_world_def exec_def next_fault_def insert_session_def
      admin_mem_def mem_start_def empty_tables_def mem_timestamp_def)

theorem session_roundtrip_witness:
  "\<exists>token s1 w1. CreateAdminSession mem_world ''admin'' 1000000 ready_store admin_mem = (Inr (token, 1000000), s1, w1)
     \<and> (\<forall>res s2 w2. ValidateAdminSession mem_world token s1 w1 = (Inr res, s2, w2) \<longrightarrow> res = (''admin'', True))"
proof -
  let ?t = "base64_raw_url (replicate 32 (char_of (Suc 0)))"
  have c: "CreateAdminSession mem_world ''admin'' 1000000 ready_store admin_mem
      = (Inr (?t, 1000000), fst (snd session_made), snd (snd session_made))"
    using session_made_row by (simp add: session_made_def)
  have n: "db_now mem_view (snd (snd session_made)) < timestamp mem_view 1000000"
    by (simp add: session_made_row mem_timestamp_def)
  have i: "auth_inv (tables_of mem_view admin_mem)" using admin_mem_inv by simp
  have "res = (''admin'', True)" if v: "ValidateAdminSession mem_world ?t (fst (snd session_made)) (snd (snd session_made))
      = (Inr res, s2, w2)" for res s2 w2
    using session_roundtrip [OF mem_admin.admin_db_axioms i c v n] by (simp add: admin_trim)
  with c show ?thesis by blast
qed

text \<open>
  Generated secrets need no quoting: an administrator password has 32 characters, all of the
  URL-safe base64 alphabet, for 24 random bytes.
\<close>

theorem generated_password_url_safe:
  assumes "services E V" and "generateAdminPassword E w = (Inr password, w')"
  shows "length password = 32 \<and> list_all url_safe password"
proof -
  obtain bytes where b: "rand_read E 24 w = (Inr bytes, w')" "password = base64_raw_url bytes"
    using assms(2) by (auto simp: generateAdminPassword_def split: prod.splits sum.splits)
  have "length bytes = 24" using services.rand_read_length [OF assms(1), of 24 w bytes] b(1) by simp
  with b(2) base64_safe [of bytes] show ?thesis by (simp add: length_base64)
qed

theorem generated_password_url_safe_witness:
  "\<exists>password. fst (generateAdminPassword mem_world mem_start) = Inr password \<and> length password = 32"
proof -
  let ?g = "generateAdminPassword mem_world mem_start"
  have "?g = (Inr (base64_raw_url (replicate 24 (char_of (Suc 0)))), snd ?g)"
    by (simp add: generateAdminPassword_def mem_world_def mem_start_def)
  from generated_password_url_safe [OF mem_services.services_axioms this] this show ?thesis by (metis fst_conv)
qed

end
