(* ===== verification/Admin_Props.thy ===== *)
theory Admin_Props
  imports Admin Auth_Props Audit_Props
begin

text \<open>
  Properties of the administration: nothing is disclosed or changed without a credential, a
  login leads to a session that is accepted, redirects stay local and queries are bounded.
\<close>

section \<open>Authorization\<close>

text \<open>
  The credentials a request may carry: the configured token, or a cookie whose hash is that of a
  stored session that is live when it is looked up.
\<close>

definition authorized :: "'w world \<Rightarrow> 'w view \<Rightarrow> admin_lib \<Rightarrow> config \<Rightarrow> request \<Rightarrow> store option \<Rightarrow> 'w \<Rightarrow> bool" where
  "authorized E V lib cfg r s w \<longleftrightarrow>
     AdminToken cfg \<noteq> [] \<and> bearerToken (req_Header r) = AdminToken cfg
     \<or> (\<exists>v. \<exists>x \<in> set (sessions (tables_of V w)).
          request_cookie (max_cookies lib) (req_Header r) adminSessionCookieName = Some v
          \<and> ses_token_hash x = hashSessionToken (trim_space v)
          \<and> db_now V (snd (snd (ensureSchema E s w))) < ses_expires_at x)"

text \<open>The responses that show something of the audit or of who is logged in.\<close>

fun disclosing :: "resp_body \<Rightarrow> bool" where
  "disclosing AdminPage = True"
| "disclosing (SessionBody u) = True"
| "disclosing (ListBody l) = True"
| "disclosing (RecordBody x) = True"
| "disclosing _ = False"

lemma not_disclosing [simp]:
  "\<not> disclosing (resp_body (writeJSONError h n m))" "\<not> disclosing (resp_body auth_unavailable)"
  "\<not> disclosing (resp_body login_required)" "\<not> disclosing (resp_body (redirect l))"
  "\<not> disclosing (resp_body (redirectToLogin l))" "\<not> disclosing (resp_body (html_page LoginPage))"
  "\<not> disclosing (resp_body (method_not_allowed m))"
  by (simp_all add: writeJSONError_def auth_unavailable_def login_required_def redirect_def redirectToLogin_def Let_def
      html_page_def method_not_allowed_def)

lemma auth_ok_records: "auth_ok T T' \<Longrightarrow> records T' = records T"
  by (simp add: auth_ok_def)

context admin_db
begin

lemma Validate_live:
  assumes "ValidateAdminSession E t s w = (Inr (u, True), s', w')"
  shows "\<exists>x \<in> set (sessions (tables_of V w)). ses_token_hash x = hashSessionToken (trim_space t)
    \<and> db_now V (snd (snd (ensureSchema E s w))) < ses_expires_at x"
proof -
  obtain q s1 w1 where q: "ensureSchema E s w = (q, s1, w1)" by (cases "ensureSchema E s w")
  with assms have "q = None" by (cases q) (auto simp: ValidateAdminSession_def)
  obtain y w2 where y: "db_session E (hashSessionToken (trim_space t)) w1 = (y, w2)" by fastforce
  have "y = Inr u"
    using assms q y \<open>q = None\<close> by (auto simp: ValidateAdminSession_def Let_def split: sum.splits if_splits)
  with session_law [OF y] ensureSchema_quiet [OF q] q show ?thesis by auto
qed

lemma authenticateAdmin_authorized:
  assumes "authenticateAdmin E lib cfg r s w = (Inr (u, True), s', w')"
  shows "authorized E V lib cfg r s w"
proof (cases "AdminToken cfg \<noteq> [] \<and> bearerToken (req_Header r) = AdminToken cfg")
  case False
  with assms obtain v where "request_cookie (max_cookies lib) (req_Header r) adminSessionCookieName = Some v"
    "ValidateAdminSession E v s w = (Inr (u, True), s', w')"
    by (auto simp: authenticateAdmin_def split: if_splits option.splits)
  with Validate_live [OF this(2)] show ?thesis unfolding authorized_def by blast
qed (simp add: authorized_def)

lemma authenticateAdmin_ok:
  "authenticateAdmin E lib cfg r s w = (x, s', w') \<Longrightarrow> auth_ok (tables_of V w) (tables_of V w')"
  by (auto simp: authenticateAdmin_def split: if_splits option.splits dest: ValidateAdminSession_ok)

lemma loginAdmin_ok:
  assumes "loginAdmin E cfg r s w = (resp, s', w')"
  shows "auth_ok (tables_of V w) (tables_of V w') \<and> \<not> disclosing (resp_body resp)"
proof (cases "s = None \<or> decode_strings [''username'', ''password''] (req_Body r) = None")
  case True
  with assms show ?thesis by (auto simp: loginAdmin_def split: option.splits if_splits)
next
  case False
  then obtain payload where p: "decode_strings [''username'', ''password''] (req_Body r) = Some payload" "s \<noteq> None" by auto
  obtain x s1 w1 where a: "AuthenticateAdmin E (payload ''username'') (payload ''password'') s w = (x, s1, w1)"
    by (metis prod.collapse)
  note a_ok = AuthenticateAdmin_ok [OF a]
  obtain y s2 w2 where c: "CreateAdminSession E (payload ''username'') (AdminSessionTTL cfg) s1 w1 = (y, s2, w2)"
    by (metis prod.collapse)
  note c_ok = auth_ok_trans [OF a_ok CreateAdminSession_ok [OF c]]
  have "tables_of V w3 = tables_of V w2" if "setAdminSessionCookie E r token t w2 = (ck, w3)" for token t ck w3
    using that by (auto simp: setAdminSessionCookie_def Let_def quietD(1) split: prod.splits)
  with assms p a c a_ok c_ok show ?thesis
    by (auto simp: loginAdmin_def writeJSON_def split: sum.splits bool.splits prod.splits)
qed

lemma logoutAdmin_ok:
  assumes "logoutAdmin E lib r s w = (resp, s', w')"
  shows "auth_ok (tables_of V w) (tables_of V w') \<and> \<not> disclosing (resp_body resp)"
proof -
  have "auth_ok (tables_of V w) (tables_of V (snd (snd (DeleteAdminSession E v s w))))" for v
    by (metis DeleteAdminSession_ok prod.collapse)
  with assms show ?thesis
    by (auto simp: logoutAdmin_def writeJSON_def Let_def split: option.splits if_splits prod.splits) (metis snd_conv)
qed

text \<open>A request that is not authorized learns nothing and changes no record.\<close>

lemma handleAdmin_unauthorized:
  assumes "\<not> authorized E V lib cfg r s w" and "handleAdmin E lib cfg r s w = (resp, s', w')"
  shows "\<not> disclosing (resp_body resp) \<and> records (tables_of V w') = records (tables_of V w)"
proof -
  obtain x s1 w1 where a: "authenticateAdmin E lib cfg r s w = (x, s1, w1)" by (metis prod.collapse)
  have no: "x \<noteq> Inr (u, True)" for u using a assms(1) authenticateAdmin_authorized by blast
  have w1: "records (tables_of V w1) = records (tables_of V w)"
    using auth_ok_records [OF authenticateAdmin_ok [OF a]] .
  note guards = requireAdminPage_def requireAdminAPI_def serveLogin_def handleAdminAPI_def a
  have "resp = fst (loginAdmin E cfg r s w) \<and> w' = snd (snd (loginAdmin E cfg r s w))
      \<or> resp = fst (logoutAdmin E lib r s w) \<and> w' = snd (snd (logoutAdmin E lib r s w))
      \<or> \<not> disclosing (resp_body resp) \<and> (w' = w \<or> w' = w1)"
    using assms(2) no unfolding handleAdmin_def Let_def guards
    by (auto split: if_splits sum.splits prod.splits bool.splits)
  then show ?thesis
    using w1 auth_ok_records loginAdmin_ok [of cfg r s w "fst (loginAdmin E cfg r s w)"
        "fst (snd (loginAdmin E cfg r s w))" "snd (snd (loginAdmin E cfg r s w))"]
      logoutAdmin_ok [of lib r s w "fst (logoutAdmin E lib r s w)"
        "fst (snd (logoutAdmin E lib r s w))" "snd (snd (logoutAdmin E lib r s w))"]
    by auto
qed

end

section \<open>What a request can change\<close>

definition same_audit :: "tables \<Rightarrow> tables \<Rightarrow> bool" where
  "same_audit T T' \<longleftrightarrow> captures T' = captures T \<and> prefix (credentials T) (credentials T')"

lemma same_audit_refl [simp]: "same_audit T T"
  by (simp add: same_audit_def)

lemma same_audit_trans: "same_audit T T1 \<Longrightarrow> same_audit T1 T2 \<Longrightarrow> same_audit T T2"
  by (auto simp: same_audit_def intro: prefix_order.trans)

lemma auth_ok_same: "auth_ok T T' \<Longrightarrow> same_audit T T'"
  by (simp add: auth_ok_def same_audit_def captures_def)

lemma same_audit_review: "same_audit T (set_review V status reviewer n t u T)"
  by (simp add: same_audit_def captures_set_review) (simp add: set_review_def credentials_def)

context audit_db
begin

lemma record_handlers_keep:
  "same_audit (tables_of V w) (tables_of V (snd (snd (listRecords E lib r s w))))"
  "same_audit (tables_of V w) (tables_of V (snd (snd (getRecord E ident s w))))"
  "same_audit (tables_of V w) (tables_of V (snd (snd (updateRecord E r ident s w))))"
proof -
  show "same_audit (tables_of V w) (tables_of V (snd (snd (listRecords E lib r s w))))"
    by (auto simp: listRecords_def split: sum.split prod.split dest!: List_effect)
  show "same_audit (tables_of V w) (tables_of V (snd (snd (getRecord E ident s w))))"
    by (auto simp: getRecord_def split: prod.split dest!: Get_quiet)
  have "same_audit (tables_of V w) (tables_of V w')" if "UpdateReview E i u s w = (x, s', w')" for i u x s' w'
    using UpdateReview_effect [OF that] by (auto simp: same_audit_review)
  then show "same_audit (tables_of V w) (tables_of V (snd (snd (updateRecord E r ident s w))))"
    by (auto simp: updateRecord_def Let_def split: option.split prod.split)
qed

end

context admin_db
begin

text \<open>Where a request ends: in the session operations, or behind the guard in a handler of records.\<close>

lemma handleAdmin_effect:
  assumes "handleAdmin E lib cfg r s w = (resp, s', w')"
  shows "same_audit (tables_of V w) (tables_of V w')
    \<or> (\<exists>s1 w1 ident. same_audit (tables_of V w) (tables_of V w1) \<and>
         (w' = snd (snd (listRecords E lib r s1 w1)) \<or> w' = snd (snd (getRecord E ident s1 w1))
          \<or> w' = snd (snd (updateRecord E r ident s1 w1))))"
proof -
  obtain x s1 w1 where a: "authenticateAdmin E lib cfg r s w = (x, s1, w1)" by (metis prod.collapse)
  have w1: "same_audit (tables_of V w) (tables_of V w1)" using auth_ok_same [OF authenticateAdmin_ok [OF a]] .
  have l: "same_audit (tables_of V w) (tables_of V (snd (snd (loginAdmin E cfg r s w))))"
    "same_audit (tables_of V w) (tables_of V (snd (snd (logoutAdmin E lib r s w))))"
    using loginAdmin_ok [of cfg r s w "fst (loginAdmin E cfg r s w)" "fst (snd (loginAdmin E cfg r s w))"]
      logoutAdmin_ok [of lib r s w "fst (logoutAdmin E lib r s w)" "fst (snd (logoutAdmin E lib r s w))"] auth_ok_same
    by (metis prod.collapse)+
  have "w' = w \<or> w' = w1 \<or> w' = snd (snd (loginAdmin E cfg r s w)) \<or> w' = snd (snd (logoutAdmin E lib r s w))
      \<or> w' = snd (snd (listRecords E lib r s1 w1))
      \<or> (\<exists>ident. w' = snd (snd (getRecord E ident s1 w1)) \<or> w' = snd (snd (updateRecord E r ident s1 w1)))"
    using assms unfolding handleAdmin_def handleAdminAPI_def requireAdminPage_def requireAdminAPI_def serveLogin_def a Let_def
    by (auto split: if_splits sum.splits prod.splits bool.splits) (metis snd_conv)+
  then show ?thesis using w1 l by (elim disjE exE) auto
qed

end

section \<open>Logging in\<close>

text \<open>What a successful login has done, taken apart.\<close>

lemma loginAdmin_success:
  assumes "loginAdmin E cfg r s w = (resp, s', w')" and "resp_status resp = 200"
  shows "\<exists>payload token expires s1 w1 w2. decode_strings [''username'', ''password''] (req_Body r) = Some payload
    \<and> AuthenticateAdmin E (payload ''username'') (payload ''password'') s w = (Inr True, s1, w1)
    \<and> CreateAdminSession E (payload ''username'') (AdminSessionTTL cfg) s1 w1 = (Inr (token, expires), s', w2)
    \<and> w' = snd (time_now E w2) \<and> resp_body resp = LoginBody (trim_space (payload ''username'')) expires
    \<and> resp_cookie resp = Some (fst (setAdminSessionCookie E r token expires w2))"
proof -
  have bad: "resp_status (writeJSONError h n m) = n" "resp_status auth_unavailable = 503" for h n m
    by (simp_all add: writeJSONError_def auth_unavailable_def)
  obtain payload where p: "decode_strings [''username'', ''password''] (req_Body r) = Some payload" "s \<noteq> None"
    using assms by (auto simp: loginAdmin_def bad split: option.splits if_splits)
  obtain x s1 w1 where a: "AuthenticateAdmin E (payload ''username'') (payload ''password'') s w = (x, s1, w1)"
    by (metis prod.collapse)
  have x: "x = Inr True" using assms p a by (auto simp: loginAdmin_def bad split: sum.splits bool.splits)
  obtain y s2 w2 where c: "CreateAdminSession E (payload ''username'') (AdminSessionTTL cfg) s1 w1 = (y, s2, w2)"
    by (metis prod.collapse)
  obtain token expires where y: "y = Inr (token, expires)" using assms p a x c by (auto simp: loginAdmin_def bad split: sum.splits)
  obtain n w3 where n: "time_now E w2 = (n, w3)" by fastforce
  show ?thesis
    using assms(1) p a x c y n
    by (intro exI [of _ payload] exI [of _ token] exI [of _ expires]
        exI [of _ s1] exI [of _ w1] exI [of _ w2])
      (auto simp: loginAdmin_def setAdminSessionCookie_def writeJSON_def Let_def)
qed

lemma loginAdmin_200:
  assumes "decode_strings [''username'', ''password''] (req_Body r) = Some payload" and "s \<noteq> None"
    and "AuthenticateAdmin E (payload ''username'') (payload ''password'') s w = (Inr True, s1, w1)"
    and "CreateAdminSession E (payload ''username'') (AdminSessionTTL cfg) s1 w1 = (Inr x, s2, w2)"
  shows "resp_status (fst (loginAdmin E cfg r s w)) = 200"
  using assms by (cases x) (auto simp: loginAdmin_def writeJSON_def split: prod.split)

lemma session_cookie_flags:
  "ck_Value (fst (setAdminSessionCookie E r token t w)) = token"
  "ck_Name (fst (setAdminSessionCookie E r token t w)) = adminSessionCookieName"
  "ck_Path (fst (setAdminSessionCookie E r token t w)) = ''/admin''"
  "ck_HttpOnly (fst (setAdminSessionCookie E r token t w))"
  "ck_SameSite (fst (setAdminSessionCookie E r token t w)) = ''Lax''"
  "ck_Secure (fst (setAdminSessionCookie E r token t w)) = isSecureRequest r"
  "1 \<le> ck_MaxAge (fst (setAdminSessionCookie E r token t w))"
  by (simp_all add: setAdminSessionCookie_def Let_def case_prod_beta)

section \<open>Properties\<close>

text \<open>
  C4. Nothing of the audit is disclosed or changed without a credential: if the administration
  answers a request with records, a list, the console page or the name of a session, or a
  record changes, then the request carries the configured token or the cookie of a stored
  session that has not expired.
\<close>

theorem admin_requires_credential:
  assumes "admin_db E V" and "handleAdmin E lib cfg r s w = (resp, s', w')"
    and "disclosing (resp_body resp) \<or> records (tables_of V w') \<noteq> records (tables_of V w)"
  shows "authorized E V lib cfg r s w"
  using admin_db.handleAdmin_unauthorized [OF assms(1) _ assms(2)] assms(3) by blast

definition admin_get :: request where
  "admin_get = \<lparr>req_Method = ''GET'', req_Path = ''/admin/ui'', req_RawPath = [], req_RawQuery = [], req_ForceQuery = False,
     req_Host = ''gw'', req_ContentLength = -1, req_ClientIP = Some ''10.0.0.9'',
     req_Header = [(''X-Prompt-Audit-Admin-Token'', [''t0ken''])], req_Body = None, req_TLS = True\<rparr>"

definition token_config :: config where
  "token_config = sample_config\<lparr>AdminToken := ''t0ken''\<rparr>"

definition bare_lib :: admin_lib where
  "bare_lib = \<lparr>max_cookies = Some 3000, max_params = Some 10000\<rparr>"

theorem admin_requires_credential_witness:
  "authorized mem_world mem_view bare_lib token_config admin_get ready_store mem_start"
proof -
  let ?h = "handleAdmin mem_world bare_lib token_config admin_get ready_store mem_start"
  have "disclosing (resp_body (fst ?h))" by code_simp
  moreover have "?h = (fst ?h, fst (snd ?h), snd (snd ?h))" by simp
  ultimately show ?thesis using admin_requires_credential [OF mem_admin.admin_db_axioms] by blast
qed

text \<open>
  C17. The administration cannot rewrite what was captured: whatever request it handles, and
  whatever the database does, the captured columns of all rows and the password hashes of the
  existing administrators are the same afterwards. A review changes the review columns only.
\<close>

theorem admin_keeps_captures:
  assumes "audit_db E V" and "admin_db E V" and "handleAdmin E lib cfg r s w = (resp, s', w')"
  shows "captures (tables_of V w') = captures (tables_of V w) 
    \<and> prefix (credentials (tables_of V w)) (credentials (tables_of V w'))"
proof -
  have "same_audit (tables_of V w) (tables_of V w')"
    using admin_db.handleAdmin_effect [OF assms(2,3)] audit_db.record_handlers_keep [OF assms(1)]
    by (elim disjE exE conjE) (auto intro: same_audit_trans)
  then show ?thesis by (simp add: same_audit_def)
qed

theorem admin_keeps_captures_witness:
  "captures (m_tables (snd (snd (handleAdmin mem_world bare_lib token_config admin_get ready_store admin_mem))))
     = captures (m_tables admin_mem)"
  using admin_keeps_captures [OF mem_audit.audit_db_axioms mem_admin.admin_db_axioms, of bare_lib token_config admin_get
    ready_store admin_mem _ "fst (snd (handleAdmin mem_world bare_lib token_config admin_get ready_store admin_mem))"]
  by (metis prod.collapse view_simps(1))

text \<open>
  C18. A login works for the requests that follow: it answers 200 only when the password is that
  of the administrator, with a cookie that scripts cannot read, sent only below \<open>/admin\<close> and,
  for a request over TLS, only over TLS; a request that brings this cookie back before the
  session expires is authenticated as that administrator (or by the token), unless the
  database fails.
\<close>

theorem login_then_authenticated:
  assumes "admin_db E V" and "auth_inv (tables_of V w)"
    and "loginAdmin E cfg r s w = (resp, s1, w1)" and "resp_status resp = 200"
  shows "\<exists>payload username expires c. decode_strings [''username'', ''password''] (req_Body r) = Some payload
    \<and> resp_body resp = LoginBody username expires \<and> resp_cookie resp = Some c
    \<and> (\<exists>a \<in> set (admins (tables_of V w)). adm_username a = username
         \<and> bcrypt_compare E (adm_password_hash a) (payload ''password''))
    \<and> ck_HttpOnly c \<and> ck_Path c = ''/admin'' \<and> ck_SameSite c = ''Lax'' \<and> (req_TLS r \<longrightarrow> ck_Secure c)
    \<and> (\<forall>r2 res s2 w2. request_cookie (max_cookies lib) (req_Header r2) (ck_Name c) = Some (ck_Value c)
         \<longrightarrow> db_now V w1 < timestamp V expires \<longrightarrow> authenticateAdmin E lib cfg r2 s1 w1 = (Inr res, s2, w2)
         \<longrightarrow> res = (username, True) \<or> res = (''token'', True))"
proof -
  obtain payload username token expires t0 v1 v2 where d: "decode_strings [''username'', ''password''] (req_Body r) = Some payload"
    and l: "AuthenticateAdmin E username (payload ''password'') s w = (Inr True, t0, v1)"
    "CreateAdminSession E username (AdminSessionTTL cfg) t0 v1 = (Inr (token, expires), s1, v2)" "w1 = snd (time_now E v2)"
    "resp_body resp = LoginBody (trim_space username) expires"
    "resp_cookie resp = Some (fst (setAdminSessionCookie E r token expires v2))"
    using loginAdmin_success [OF assms(3,4)] by (elim exE conjE) (simp add: that)
  let ?c = "fst (setAdminSessionCookie E r token expires v2)"
  have t: "tables_of V w1 = tables_of V v2"
    using l(3) services.time_now_quiet [OF admin_db.axioms(1) [OF assms(1)]] by simp
  have i: "auth_inv (tables_of V v1)"
    using admin_db.AuthenticateAdmin_ok [OF assms(1) l(1)] assms(2) by (simp add: auth_ok_def)
  have "ensureSchema E s1 w1 = (None, s1, w1)" using admin_db.CreateAdminSession_stores [OF assms(1) l(2)] by blast
  then have s1: "s1 \<noteq> None" by (cases s1) (simp_all add: ensureSchema_def)
  have accepted: "res = (trim_space username, True) \<or> res = (''token'', True)"
    if "request_cookie (max_cookies lib) (req_Header r2) (ck_Name ?c) = Some (ck_Value ?c)" "db_now V w1 < timestamp V expires"
      "authenticateAdmin E lib cfg r2 s1 w1 = (Inr res, s2, w2)" for r2 res s2 w2
  proof (cases "ValidateAdminSession E token s1 w1 = (Inr res, s2, w2)")
    case True
    from admin_db.session_accepted [OF assms(1) i l(2) t True that(2)] show ?thesis by simp
  next
    case False
    then show ?thesis using that(1,3) s1 by (auto simp: authenticateAdmin_def session_cookie_flags split: if_splits)
  qed
  have "\<exists>a \<in> set (admins (tables_of V w)). adm_username a = trim_space username
      \<and> bcrypt_compare E (adm_password_hash a) (payload ''password'')"
    using admin_db.login_password [OF assms(1) l(1)] by blast
  moreover have "req_TLS r \<Longrightarrow> isSecureRequest r" by (simp add: isSecureRequest_def)
  ultimately show ?thesis using d l(4,5) accepted
    by (intro exI [of _ payload] exI [of _ "trim_space username"] exI [of _ expires] exI [of _ ?c]) (auto simp: session_cookie_flags)
qed

definition login_post :: request where
  "login_post = \<lparr>req_Method = ''POST'', req_Path = ''/admin/login'', req_RawPath = [], req_RawQuery = [], req_ForceQuery = False,
     req_Host = ''gw'', req_ContentLength = -1, req_ClientIP = Some ''10.0.0.9'', req_Header = [],
     req_Body = Some (bytes_reader (quoted ''{~username~:~admin~,~password~:~correct horse~}'')), req_TLS = True\<rparr>"

lemma login_post_payload:
  "\<exists>payload. decode_strings [''username'', ''password''] (req_Body login_post) = Some payload
     \<and> payload ''username'' = ''admin'' \<and> payload ''password'' = ''correct horse''"
proof -
  let ?d = "decode_strings [''username'', ''password''] (req_Body login_post)"
  have "map_option (\<lambda>f. (f ''username'', f ''password'')) ?d = Some (''admin'', ''correct horse'')" by code_simp
  then show ?thesis by auto
qed

lemma authenticated_mem:
  "AuthenticateAdmin mem_world ''admin'' ''correct horse'' ready_store admin_mem =
     (Inr True, ready_store, admin_mem\<lparr>m_tables := (m_tables admin_mem)\<lparr>admins :=
        [\<lparr>adm_username = ''admin'', adm_password_hash = ''$2a$12$'' @ hex_encode ''correct horse'', adm_last_login_at = Some 0\<rparr>]\<rparr>\<rparr>)"
  by (simp add: AuthenticateAdmin_def ready admin_trim mem_world_def ask_def exec_def next_fault_def select_password_def
      touch_login_def admin_mem_def mem_start_def empty_tables_def Let_def)

lemma session_created_mem:
  assumes "''admin'' \<in> adm_username ` set (admins (m_tables m))" and "sessions (m_tables m) = []" and "m_faults m = []"
  shows "\<exists>x w. CreateAdminSession mem_world ''admin'' ttl ready_store m = (Inr x, ready_store, w)"
  using assms by (simp add: CreateAdminSession_def ready admin_trim numeral_3_eq_3 generateSessionToken_def mem_world_def
      exec_def next_fault_def insert_session_def Let_def)

theorem login_then_authenticated_witness:
  "\<exists>c. resp_cookie (fst (loginAdmin mem_world sample_config login_post ready_store admin_mem)) = Some c
     \<and> ck_HttpOnly c \<and> ck_Secure c"
proof -
  let ?l = "loginAdmin mem_world sample_config login_post ready_store admin_mem"
  obtain payload where p: "decode_strings [''username'', ''password''] (req_Body login_post) = Some payload"
    "payload ''username'' = ''admin''" "payload ''password'' = ''correct horse''" using login_post_payload by blast
  let ?m = "snd (snd (AuthenticateAdmin mem_world ''admin'' ''correct horse'' ready_store admin_mem))"
  have "''admin'' \<in> adm_username ` set (admins (m_tables ?m))" "sessions (m_tables ?m) = []" "m_faults ?m = []"
    unfolding authenticated_mem by (simp_all add: admin_mem_def mem_start_def empty_tables_def)
  from session_created_mem [OF this, of "AdminSessionTTL sample_config"]
  obtain x w where "CreateAdminSession mem_world ''admin'' (AdminSessionTTL sample_config) ready_store ?m = (Inr x, ready_store, w)"
    by (elim exE) (rule that)
  moreover have "AuthenticateAdmin mem_world ''admin'' ''correct horse'' ready_store admin_mem = (Inr True, ready_store, ?m)"
    unfolding authenticated_mem by simp
  moreover have "ready_store \<noteq> None" by (simp add: ready_store_def)
  ultimately have "resp_status (fst ?l) = 200"
    using loginAdmin_200 [OF p(1)] p by metis
  moreover have "?l = (fst ?l, fst (snd ?l), snd (snd ?l))" by simp
  moreover have "auth_inv (tables_of mem_view admin_mem)" using admin_mem_inv by simp
  moreover have "req_TLS login_post" by (simp add: login_post_def)
  ultimately show ?thesis
    using login_then_authenticated [OF mem_admin.admin_db_axioms, of admin_mem sample_config login_post ready_store
      "fst ?l" "fst (snd ?l)" "snd (snd ?l)" bare_lib] by blast
qed

text \<open>
  C19. A logout ends the session: a POST to \<open>/admin/logout\<close> is answered with 200 and a cookie that
  deletes the one of the browser, and if the session could be deleted, no later request with that
  cookie is authenticated, unless it brings the administration token or a session has been
  stored for the same token again.
\<close>

theorem logout_ends_session:
  assumes "admin_db E V" and "req_Method r = ''POST''" and "trim_suffix (req_Path r) ''/'' = ''/admin/logout''"
    and "request_cookie (max_cookies lib) (req_Header r) adminSessionCookieName = Some token" and "s \<noteq> None"
    and "handleAdmin E lib cfg r s w = (resp, s1, w1)"
  shows "resp_status resp = 200
    \<and> (\<exists>c. resp_cookie resp = Some c \<and> ck_Name c = adminSessionCookieName \<and> ck_Path c = ''/admin'' \<and> ck_Value c = [] \<and> ck_MaxAge c < 0)
    \<and> (fst (DeleteAdminSession E token s w) = None \<longrightarrow>
        (\<forall>r2 s2 w2 u. request_cookie (max_cookies lib) (req_Header r2) adminSessionCookieName = Some token
           \<longrightarrow> \<not> (AdminToken cfg \<noteq> [] \<and> bearerToken (req_Header r2) = AdminToken cfg)
           \<longrightarrow> (hashSessionToken (trim_space token) \<in> ses_token_hash ` set (sessions (tables_of V w2))
                \<longrightarrow> hashSessionToken (trim_space token) \<in> ses_token_hash ` set (sessions (tables_of V w1)))
           \<longrightarrow> fst (authenticateAdmin E lib cfg r2 s2 w2) \<noteq> Inr (u, True)))"
proof -
  obtain x s3 w3 where d: "DeleteAdminSession E token s w = (x, s3, w3)" by (metis prod.collapse)
  have l: "resp = (writeJSON [] 200 LogoutBody)\<lparr>resp_cookie := Some (clearAdminSessionCookie r)\<rparr>" "w1 = w3"
    using assms(2-6) d by (auto simp: handleAdmin_def logoutAdmin_def)
  have "fst (authenticateAdmin E lib cfg r2 s2 w2) \<noteq> Inr (u, True)"
    if x: "x = None" and c: "request_cookie (max_cookies lib) (req_Header r2) adminSessionCookieName = Some token"
      "\<not> (AdminToken cfg \<noteq> [] \<and> bearerToken (req_Header r2) = AdminToken cfg)"
      "hashSessionToken (trim_space token) \<in> ses_token_hash ` set (sessions (tables_of V w2))
        \<longrightarrow> hashSessionToken (trim_space token) \<in> ses_token_hash ` set (sessions (tables_of V w1))" for r2 s2 w2 u
  proof
    assume "fst (authenticateAdmin E lib cfg r2 s2 w2) = Inr (u, True)"
    then obtain s4 w4 where a: "authenticateAdmin E lib cfg r2 s2 w2 = (Inr (u, True), s4, w4)" by (metis prod.collapse)
    then have "hashSessionToken (trim_space token) \<in> ses_token_hash ` set (sessions (tables_of V w2))"
      using admin_db.authenticateAdmin_authorized [OF assms(1) a] c(1,2) unfolding authorized_def by force
    moreover have "ValidateAdminSession E token s2 w2 = (Inr (u, True), s4, w4)"
      using a c(1,2) by (auto simp: authenticateAdmin_def split: if_splits)
    then have "trim_space token \<noteq> []" by (auto simp: ValidateAdminSession_def split: option.splits prod.splits if_splits)
    ultimately show False
      using admin_db.DeleteAdminSession_removes [OF assms(1) d [unfolded x]] c(3) l(2) by blast
  qed
  with l d show ?thesis by (simp add: writeJSON_def clearAdminSessionCookie_def)
qed

text \<open>A logout with the session that the witness of the round trip has made.\<close>

definition session_token :: string where
  "session_token = base64_raw_url (replicate 32 (char_of (Suc 0)))"

definition logout_post :: request where
  "logout_post = login_post\<lparr>req_Path := ''/admin/logout'',
     req_Header := [(''Cookie'', [adminSessionCookieName @ ''='' @ session_token])]\<rparr>"

definition session_mem :: mem where
  "session_mem = snd (snd session_made)"

lemma logout_post_facts:
  "req_Method logout_post = ''POST''" "trim_suffix (req_Path logout_post) ''/'' = ''/admin/logout''"
  "request_cookie (max_cookies bare_lib) (req_Header logout_post) adminSessionCookieName = Some session_token"
  "trim_space session_token = session_token" "session_token \<noteq> []" "bearerToken (req_Header logout_post) = []"
  by code_simp+

lemma session_mem_row:
  "sessions (m_tables session_mem) =
     [\<lparr>ses_token_hash = hashSessionToken session_token, ses_username = ''admin'', ses_expires_at = 1000000, ses_last_seen_at = 1\<rparr>]"
  "m_faults session_mem = []" "m_clock session_mem = 1"
  by (simp_all add: session_mem_def session_made_row session_token_def admin_mem_def mem_start_def)

lemma session_mem_accepts:
  "fst (authenticateAdmin mem_world bare_lib cfg logout_post ready_store session_mem) = Inr (''admin'', True)"
proof -
  have "ready_store \<noteq> None" by (simp add: ready_store_def)
  then show ?thesis
    by (auto simp: authenticateAdmin_def logout_post_facts ValidateAdminSession_def ready Let_def mem_world_def
        ask_def next_fault_def select_session_def session_mem_row)
qed

theorem logout_ends_session_witness:
  "fst (authenticateAdmin mem_world bare_lib sample_config logout_post ready_store session_mem) = Inr (''admin'', True)
   \<and> (\<forall>u. fst (authenticateAdmin mem_world bare_lib sample_config logout_post ready_store
        (snd (snd (handleAdmin mem_world bare_lib sample_config logout_post ready_store session_mem)))) \<noteq> Inr (u, True))"
proof -
  let ?h = "handleAdmin mem_world bare_lib sample_config logout_post ready_store session_mem"
  have "fst (DeleteAdminSession mem_world session_token ready_store session_mem) = None"
    by (simp add: DeleteAdminSession_def ready logout_post_facts Let_def mem_world_def exec_def next_fault_def
        delete_session_def session_mem_row)
  moreover have "?h = (fst ?h, fst (snd ?h), snd (snd ?h))" by simp
  moreover have "ready_store \<noteq> None" by (simp add: ready_store_def)
  moreover have "\<not> (AdminToken sample_config \<noteq> [] \<and> bearerToken (req_Header logout_post) = AdminToken sample_config)"
    by (auto simp: logout_post_facts)
  ultimately show ?thesis
    using logout_ends_session [OF mem_admin.admin_db_axioms logout_post_facts(1-3)] logout_post_facts(3) session_mem_accepts
    by (metis (no_types, lifting))
qed

text \<open>
  The error of the delete is ignored: if the database fails at that moment, the logout is answered
  with 200 all the same, and the token stays valid.
\<close>

theorem logout_ignores_failure:
  "let (resp, s1, w1) = handleAdmin mem_world bare_lib sample_config logout_post ready_store (session_mem\<lparr>m_faults := [FailsBefore]\<rparr>)
   in resp_status resp = 200 \<and> fst (authenticateAdmin mem_world bare_lib sample_config logout_post s1 w1) = Inr (''admin'', True)"
proof -
  have s: "ready_store \<noteq> None" by (simp add: ready_store_def)
  have "DeleteAdminSession mem_world session_token ready_store (session_mem\<lparr>m_faults := [FailsBefore]\<rparr>) = (Some lost, ready_store, session_mem)"
    by (simp add: DeleteAdminSession_def ready logout_post_facts Let_def mem_world_def exec_def next_fault_def
        session_mem_row flip: session_mem_row(2))
  then have "snd (handleAdmin mem_world bare_lib sample_config logout_post ready_store (session_mem\<lparr>m_faults := [FailsBefore]\<rparr>))
      = (ready_store, session_mem)"
    "resp_status (fst (handleAdmin mem_world bare_lib sample_config logout_post ready_store (session_mem\<lparr>m_faults := [FailsBefore]\<rparr>))) = 200"
    using s by (auto simp: handleAdmin_def logoutAdmin_def logout_post_facts writeJSON_def)
  then show ?thesis using session_mem_accepts by (simp add: case_prod_beta)
qed

text \<open>
  Redirects to the login page stay on this host: whatever the request URI, the location is
  the local login page with a next parameter that decodes to a local path, so neither another
  host nor a header can be smuggled in.
\<close>

theorem login_redirect_local:
  "\<exists>target. header_get (resp_header (redirectToLogin uri)) ''Location'' = ''/admin/login?next='' @ query_escape target
     \<and> prefix ''/'' target \<and> \<not> prefix ''//'' target \<and> (prefix ''/'' uri \<and> \<not> prefix ''//'' uri \<longrightarrow> target = uri)
     \<and> list_all query_safe (query_escape target) \<and> query_unescape (query_escape target) = Some target"
proof -
  have "canonical_key ''Location'' \<noteq> canonical_key ''Content-Type''" by code_simp
  then show ?thesis
    by (intro exI [of _ "if \<not> prefix ''/'' uri \<or> prefix ''//'' uri then ''/admin/ui'' else uri"])
      (simp add: redirectToLogin_def redirect_def header_get_set query_escape_safe query_unescape_escape Let_def)
qed

theorem login_redirect_local_witness:
  "header_get (resp_header (redirectToLogin ''/admin/ui?x=1'')) ''Location'' = ''/admin/login?next='' @ query_escape ''/admin/ui?x=1''"
  using login_redirect_local [of "''/admin/ui?x=1''"] by auto

text \<open>The path a server hands to a page handler: it starts with a single slash, raw and decoded.\<close>

definition page_request :: "request \<Rightarrow> bool" where
  "page_request r \<longleftrightarrow> prefix ''/'' (req_Path r) \<and> \<not> prefix ''//'' (req_Path r)
     \<and> (req_RawPath r = [] \<or> prefix ''/'' (req_RawPath r))"

lemma request_uri_local:
  assumes "page_request r"
  shows "prefix ''/'' (request_uri r) \<and> \<not> prefix ''//'' (request_uri r)"
proof -
  let ?p = "escaped_path (req_Path r) (req_RawPath r)"
  have "prefix ''/'' ?p \<and> \<not> prefix ''//'' ?p"
  proof (cases "?p = req_RawPath r \<and> req_RawPath r \<noteq> []")
    case True
    then have u: "unescape (req_RawPath r) = Some (req_Path r)" using unescape_escaped_path by metis
    have "prefix ''/'' (req_RawPath r)" using assms True by (simp add: page_request_def)
    moreover have "\<not> prefix ''//'' (req_RawPath r)"
    proof
      assume "prefix ''//'' (req_RawPath r)"
      then obtain t where "req_RawPath r = ''//'' @ t" by (auto simp: prefix_def)
      with u have "prefix ''//'' (req_Path r)" by (auto simp: prefix_def dest: sym)
      with assms show False by (simp add: page_request_def)
    qed
    ultimately show ?thesis using True by simp
  next
    case False
    moreover have "req_Path r \<noteq> ''*''" using assms by (auto simp: page_request_def)
    ultimately have "?p = escape EncodePath (req_Path r)" using escaped_path_cases [of "req_RawPath r" "req_Path r"] by blast
    then show ?thesis using escape_local assms by (simp add: page_request_def)
  qed
  then show ?thesis by (cases ?p rule: remdups_adj.cases) (auto simp: request_uri_def Let_def)
qed

text \<open>
  After the login the browser is sent back to the page it asked for: the redirect of a page
  request names the login page, and its query, parsed, has the request URI as the parameter \<open>next\<close>.
\<close>

theorem login_redirect_returns:
  assumes "page_request r"
  shows "\<exists>query. header_get (resp_header (redirectToLogin (request_uri r))) ''Location'' = ''/admin/login?'' @ query
    \<and> query_get None query ''next'' = request_uri r"
proof -
  have "canonical_key ''Location'' \<noteq> canonical_key ''Content-Type''" by code_simp
  then have "header_get (resp_header (redirectToLogin (request_uri r))) ''Location'' =
      ''/admin/login?'' @ ''next='' @ query_escape (request_uri r)"
    using request_uri_local [OF assms] by (simp add: redirectToLogin_def redirect_def header_get_set)
  moreover have "query_escape ''next'' = ''next''" by code_simp
  then have "query_get None (''next='' @ query_escape (request_uri r)) ''next'' = request_uri r"
    using parse_encode_form [of "[(''next'', request_uri r)]" None]
    by (simp add: query_get_def encode_form_def encode_field_def field_values_def exceeds_def)
  ultimately show ?thesis by blast
qed

theorem login_redirect_returns_witness:
  "\<exists>query. header_get (resp_header (redirectToLogin (request_uri (admin_get\<lparr>req_RawQuery := ''page=2''\<rparr>)))) ''Location''
     = ''/admin/login?'' @ query \<and> query_get None query ''next'' = ''/admin/ui?page=2''"
proof -
  have "page_request (admin_get\<lparr>req_RawQuery := ''page=2''\<rparr>)" by code_simp
  moreover have "request_uri (admin_get\<lparr>req_RawQuery := ''page=2''\<rparr>) = ''/admin/ui?page=2''" by code_simp
  ultimately show ?thesis using login_redirect_returns [of "admin_get\<lparr>req_RawQuery := ''page=2''\<rparr>"] by simp
qed

text \<open>The instants of years 0 to 9999, in nanoseconds, and 25 hours on each side for the offset.\<close>

definition within_years :: "int \<Rightarrow> bool" where
  "within_years t \<longleftrightarrow> - 62167309200 * 1000000000 \<le> t \<and> t < 253402390800 * 1000000000"

text \<open>
  C37. A list request is validated before the database is asked: an accepted filter has a limit
  from 1 to 200, no negative offset, at most 256 bytes of query, a known review status in lower
  case or none, a positive user id or none, and times between the years 0 and 9999, up to a zone
  offset, which the database can represent; any other request is answered with 400, and neither
  the store nor the world has been touched.
\<close>

theorem list_request_validated:
  "case parse_filter lib r of
     Inl message \<Rightarrow> listRecords E lib r s w = (writeJSONError [] 400 message, s, w)
   | Inr f \<Rightarrow> 1 \<le> flt_Limit f \<and> flt_Limit f \<le> 200 \<and> 0 \<le> flt_Offset f \<and> length (flt_Query f) \<le> 256
       \<and> (flt_ReviewStatus f = [] \<or> flt_ReviewStatus f \<in> set review_statuses)
       \<and> (\<forall>u. flt_UserID f = Some u \<longrightarrow> 0 < u)
       \<and> (\<forall>t. flt_From f = Some t \<or> flt_To f = Some t \<longrightarrow> within_years t)"
proof (cases "parse_filter lib r")
  case (Inl message)
  then show ?thesis by (simp add: listRecords_def)
next
  case (Inr f)
  have "1 \<le> parsePositiveInt v 25" "0 \<le> parseNonNegativeInt v 0" for v
    by (auto simp: parsePositiveInt_def parseNonNegativeInt_def split: option.split)
  moreover have "within_years t" if "parseTimeQuery v = Some (Some t)" for v t
    using that parse_rfc3339_range by (fastforce simp: parseTimeQuery_def within_years_def Let_def split: if_splits option.splits)
  ultimately show ?thesis using Inr
    by (auto simp: parse_filter_def Let_def split: if_splits sum.splits option.splits)
qed

theorem list_request_validated_witness:
  "\<exists>f. parse_filter bare_lib admin_get = Inr f \<and> 1 \<le> flt_Limit f \<and> flt_Limit f \<le> 200"
proof -
  have "isl (parse_filter bare_lib admin_get) \<longleftrightarrow> False" by code_simp
  then obtain f where "parse_filter bare_lib admin_get = Inr f" by (cases "parse_filter bare_lib admin_get") auto
  with list_request_validated [where lib = bare_lib and r = admin_get] show ?thesis by simp
qed

end
