(* ===== verification/Sidecar.thy ===== *)
theory Sidecar
  imports Proxy Auth
begin

text \<open>
  \<open>main.go\<close>: putting the sidecar together, the bootstrap of the administrator, retention, and
  the order of the shutdown. The goroutines it starts are functions of their own; the listeners
  are kept as what they are asked to listen on.
\<close>

section \<open>Start\<close>

datatype listener = PlainListener string | TLSListener string string string

text \<open>The parts that run once everything is set up; the bootstrap has its three arguments.\<close>

record sidecar =
  sc_cfg :: config
  sc_store :: "store option"
  sc_bootstrap :: "string \<times> string \<times> string"
  sc_resolver :: "resolver option"
  sc_queue :: record_queue
  sc_proxy :: proxy
  sc_listeners :: "listener list"

text \<open>The calls of \<open>log.Fatalf\<close>, with what they report; a negative queue size panics.\<close>

datatype fatal =
    FatalConfig string
  | FatalStore
  | FatalPassword go_error
  | FatalHash go_error
  | FatalResolver
  | FatalQueue
  | FatalProxy string

text \<open>What \<open>sql.Open\<close>, the embedded schema and the identity database answer.\<close>

record databases =
  audit_open_ok :: bool
  schema_read_ok :: bool
  identity_open_ok :: bool
  identity_answer :: rows_answer
  identity_fallback :: rows_answer

definition bootstrap_password :: "'w world \<Rightarrow> config \<Rightarrow> 'w \<Rightarrow> (go_error + string) \<times> 'w" where
  "bootstrap_password E cfg w =
     (if AdminPassword cfg = [] then generateAdminPassword E w else (Inr (AdminPassword cfg), w))"

definition listeners_of :: "config \<Rightarrow> listener list" where
  "listeners_of cfg =
     (if HTTPListenAddr cfg \<noteq> [] then [PlainListener (HTTPListenAddr cfg)] else [])
     @ (if HTTPSListenAddr cfg \<noteq> [] then [TLSListener (HTTPSListenAddr cfg) (TLSCertFile cfg) (TLSKeyFile cfg)] else [])"

definition assemble ::
    "config \<Rightarrow> databases \<Rightarrow> store option \<Rightarrow> string \<Rightarrow> string \<Rightarrow> fatal + sidecar" where
  "assemble cfg db s password passwordHash =
     (case NewIdentityResolver cfg (identity_open_ok db) (identity_answer db) (identity_fallback db) of
        None \<Rightarrow> Inl FatalResolver
      | Some r \<Rightarrow>
          (case NewRecordQueue (QueueSize cfg) of
             Panic \<Rightarrow> Inl FatalQueue
           | Return q \<Rightarrow>
               (case NewProxyServer cfg (Some r) (Some q) of
                  Inl e \<Rightarrow> Inl (FatalProxy e)
                | Inr p \<Rightarrow>
                    Inr \<lparr>sc_cfg = cfg, sc_store = s, sc_bootstrap = (AdminUsername cfg, password, passwordHash),
                         sc_resolver = Some r, sc_queue = q, sc_proxy = p, sc_listeners = listeners_of cfg\<rparr>)))"

definition main_start ::
    "'w world \<Rightarrow> url_parser \<Rightarrow> environment \<Rightarrow> databases \<Rightarrow> 'w \<Rightarrow> (fatal + sidecar) \<times> 'w" where
  "main_start E url_parse env db w =
     (case LoadConfig url_parse env of
        Inl e \<Rightarrow> (Inl (FatalConfig e), w)
      | Inr cfg \<Rightarrow>
          (case OpenStore E (audit_open_ok db) (schema_read_ok db) w of
             (None, w1) \<Rightarrow> (Inl FatalStore, w1)
           | (Some st, w1) \<Rightarrow>
               (case bootstrap_password E cfg w1 of
                  (Inl e, w2) \<Rightarrow> (Inl (FatalPassword e), w2)
                | (Inr password, w2) \<Rightarrow>
                    (case hashAdminPassword E password w2 of
                       (Inl e, w3) \<Rightarrow> (Inl (FatalHash e), w3)
                     | (Inr passwordHash, w3) \<Rightarrow> (assemble cfg db (Some st) password passwordHash, w3)))))"

section \<open>The administrator\<close>

text \<open>
  \<open>runAdminBootstrap\<close>: attempts until one succeeds or the context is done. The result is the
  credentials it logs, if it logs them, and the state; a run that never ends is \<open>None\<close>.
\<close>

partial_function (option) runAdminBootstrap ::
    "'w world \<Rightarrow> string \<Rightarrow> string \<Rightarrow> string \<Rightarrow> store option \<Rightarrow> 'w
     \<Rightarrow> ((string \<times> string) option \<times> store option \<times> 'w) option" where
  "runAdminBootstrap E username password passwordHash s w =
     (case EnsureAdminHash E username passwordHash s w of
        (Inr created, s1, w1) \<Rightarrow> Some (if created then Some (username, password) else None, s1, w1)
      | (Inl e, s1, w1) \<Rightarrow>
          (case wait_done E (seconds 10) w1 of (ended, w2) \<Rightarrow>
             if ended then Some (None, s1, w2) else runAdminBootstrap E username password passwordHash s1 w2))"

declare runAdminBootstrap.simps [code]

section \<open>Retention\<close>

definition cleanup :: "'w world \<Rightarrow> int \<Rightarrow> store option \<Rightarrow> 'w \<Rightarrow> store option \<times> 'w" where
  "cleanup E retentionDays s w =
     (let (s1, w1) = (if 0 < retentionDays then snd (DeleteExpired E retentionDays s w) else (s, w))
      in snd (DeleteExpiredAdminSessions E s1 w1))"

text \<open>One cleanup at the start and one at each of the ticks before the context is done.\<close>

fun retention_ticks :: "'w world \<Rightarrow> int \<Rightarrow> nat \<Rightarrow> store option \<times> 'w \<Rightarrow> store option \<times> 'w" where
  "retention_ticks E retentionDays 0 st = st"
| "retention_ticks E retentionDays (Suc n) (s, w) = retention_ticks E retentionDays n (cleanup E retentionDays s w)"

definition runRetention :: "'w world \<Rightarrow> int \<Rightarrow> nat \<Rightarrow> store option \<Rightarrow> 'w \<Rightarrow> store option \<times> 'w" where
  "runRetention E retentionDays ticks s w = retention_ticks E retentionDays ticks (cleanup E retentionDays s w)"

section \<open>Shutdown\<close>

text \<open>
  After the servers have stopped: the queue is closed, the worker takes what is left in it, and
  the store is closed. The deadline \<open>shutdownCtx\<close> is the call of \<open>stopWorker\<close>: from then on the
  contexts of the worker answer that they are done, so that it leaves. That the main goroutine
  does not wait for the worker any longer then is a step of \<open>Lifecycle\<close>.
\<close>

definition shutdown ::
    "'w world \<Rightarrow> config \<Rightarrow> resolver option \<Rightarrow> record_queue \<Rightarrow> store option \<Rightarrow> 'w \<Rightarrow> record_queue \<times> store option \<times> 'w" where
  "shutdown E cfg r q s w =
     (let q1 = Close_queue q;
          (left, s1, w1) = Run E r cfg (items q1) s w
      in (q1\<lparr>items := left\<rparr>, s1, snd (Close E s1 w1)))"

end
