(* ===== verification/Lifecycle.thy ===== *)
theory Lifecycle
  imports Sidecar
begin

text \<open>
  The running process of \<open>main.go\<close>: its servers with their listener goroutines and requests, the
  worker of the queue, and the main goroutine that waits for a signal or a failed listener and
  then shuts everything down. Each step is one action of one goroutine, of the clients or of the
  environment; all interleavings are allowed. The queue is the atomic one of \<open>Queue\<close>, which
  \<open>Queue_Steps\<close> shows to be refined by the code.
\<close>

section \<open>State\<close>

text \<open>What \<open>newServer\<close> builds; the handler is the proxy of the process.\<close>

record http_server =
  srv_Addr :: string
  srv_ReadHeaderTimeout :: int
  srv_IdleTimeout :: int

definition newServer :: "string \<Rightarrow> http_server" where
  "newServer addr = \<lparr>srv_Addr = addr, srv_ReadHeaderTimeout = seconds 10, srv_IdleTimeout = seconds 120\<rparr>"

text \<open>
  Where a listener goroutine is: in \<open>ListenAndServe\<close>, about to send the error of a listener that
  failed, or at its end.
\<close>

datatype listener_point = Listening | Reporting string | Ended

text \<open>A server: \<open>srv_closing\<close> once \<open>Shutdown\<close> was called, \<open>srv_active\<close> the requests being handled.\<close>

record server =
  srv_http :: http_server
  srv_listener :: listener
  srv_point :: listener_point
  srv_closing :: bool
  srv_active :: nat

fun listen_addr :: "listener \<Rightarrow> string" where
  "listen_addr (PlainListener addr) = addr"
| "listen_addr (TLSListener addr cert key) = addr"

definition server_of :: "listener \<Rightarrow> server" where
  "server_of l = \<lparr>srv_http = newServer (listen_addr l), srv_listener = l, srv_point = Listening,
     srv_closing = False, srv_active = 0\<rparr>"

fun listener_error :: "listener \<Rightarrow> string \<Rightarrow> string" where
  "listener_error (PlainListener addr) e = ''HTTP listener '' @ addr @ '': '' @ e"
| "listener_error (TLSListener addr cert key) e = ''HTTPS listener '' @ addr @ '': '' @ e"

text \<open>The main goroutine: at the first \<open>select\<close>, in the loop over the servers, at the second \<open>select\<close>, returned.\<close>

datatype main_point = Waiting | Stopping nat | Draining | Finished

text \<open>The worker: at the receive, at the check of its context with a record, or returned.\<close>

datatype worker_point = Receiving | Checking capture_record | WorkerDone

text \<open>
  \<open>serverErrors\<close> is the channel with two slots, \<open>ps_signalled\<close> says that the root context is done,
  \<open>ps_deadline\<close> that the shutdown context is, \<open>ps_stopped\<close> that the context of the worker is.
  Hijacked connections are the WebSocket sessions, for which \<open>Shutdown\<close> does not wait. The last
  four fields only record what has happened: the records the queue accepted, those handed to
  \<open>persist\<close>, the number offered after the queue was closed, and the sessions ever begun.
\<close>

record process =
  ps_servers :: "server list"
  serverErrors :: "string list"
  ps_signalled :: bool
  ps_main :: main_point
  serveErr :: "string option"
  ps_deadline :: bool
  ps_stopped :: bool
  ps_worker :: worker_point
  ps_queue :: record_queue
  ps_hijacked :: nat
  ps_accepted :: "capture_record list"
  ps_persisted :: "capture_record list"
  ps_late :: nat
  ps_sessions :: nat

definition process_start :: "listener list \<Rightarrow> nat \<Rightarrow> process" where
  "process_start ls n =
     \<lparr>ps_servers = map server_of ls, serverErrors = [], ps_signalled = False, ps_main = Waiting, serveErr = None,
      ps_deadline = False, ps_stopped = False, ps_worker = Receiving,
      ps_queue = \<lparr>items = [], capacity = n, dropped = 0, closed = False\<rparr>, ps_hijacked = 0,
      ps_accepted = [], ps_persisted = [], ps_late = 0, ps_sessions = 0\<rparr>"

definition set_server :: "nat \<Rightarrow> server \<Rightarrow> process \<Rightarrow> process" where
  "set_server i srv s = s\<lparr>ps_servers := (ps_servers s)[i := srv]\<rparr>"

section \<open>Steps\<close>

text \<open>A handler or a WebSocket session offers a record to the queue.\<close>

definition offer :: "capture_record \<Rightarrow> process \<Rightarrow> process" where
  "offer r s =
     (case Enqueue r (ps_queue s) of (ok, q) \<Rightarrow>
        s\<lparr>ps_queue := q, ps_accepted := ps_accepted s @ (if ok then [r] else []),
          ps_late := ps_late s + (if closed (ps_queue s) then 1 else 0)\<rparr>)"

text \<open>The goroutines of the listeners.\<close>

inductive listener_step :: "process \<Rightarrow> process \<Rightarrow> bool" where
  listen_fails: "i < length (ps_servers s) \<Longrightarrow> srv = ps_servers s ! i \<Longrightarrow> srv_point srv = Listening \<Longrightarrow>
    listener_step s (set_server i (srv\<lparr>srv_point := Reporting (listener_error (srv_listener srv) e)\<rparr>) s)"
| server_closed: "i < length (ps_servers s) \<Longrightarrow> srv = ps_servers s ! i \<Longrightarrow> srv_point srv = Listening \<Longrightarrow>
    srv_closing srv \<Longrightarrow> listener_step s (set_server i (srv\<lparr>srv_point := Ended\<rparr>) s)"
| report: "i < length (ps_servers s) \<Longrightarrow> srv = ps_servers s ! i \<Longrightarrow> srv_point srv = Reporting e \<Longrightarrow>
    length (serverErrors s) < 2 \<Longrightarrow>
    listener_step s (set_server i (srv\<lparr>srv_point := Ended\<rparr>) (s\<lparr>serverErrors := serverErrors s @ [e]\<rparr>))"

text \<open>The requests: a server that is shutting down begins no more of them.\<close>

inductive request_step :: "process \<Rightarrow> process \<Rightarrow> bool" where
  begin_request: "i < length (ps_servers s) \<Longrightarrow> srv = ps_servers s ! i \<Longrightarrow> \<not> srv_closing srv \<Longrightarrow>
    request_step s (set_server i (srv\<lparr>srv_active := srv_active srv + 1\<rparr>) s)"
| end_request: "i < length (ps_servers s) \<Longrightarrow> srv = ps_servers s ! i \<Longrightarrow> 0 < srv_active srv \<Longrightarrow>
    request_step s (set_server i (srv\<lparr>srv_active := srv_active srv - 1\<rparr>) s)"
| hijack: "i < length (ps_servers s) \<Longrightarrow> srv = ps_servers s ! i \<Longrightarrow> 0 < srv_active srv \<Longrightarrow>
    request_step s (set_server i (srv\<lparr>srv_active := srv_active srv - 1\<rparr>)
      (s\<lparr>ps_hijacked := ps_hijacked s + 1, ps_sessions := ps_sessions s + 1\<rparr>))"
| end_session: "0 < ps_hijacked s \<Longrightarrow> request_step s (s\<lparr>ps_hijacked := ps_hijacked s - 1\<rparr>)"
| capture: "(\<exists>srv \<in> set (ps_servers s). 0 < srv_active srv) \<or> 0 < ps_hijacked s \<Longrightarrow>
    request_step s (offer r s)"

text \<open>The worker, \<open>RecordQueue.Run\<close>: it leaves when the channel is closed and empty, or its context is done.\<close>

inductive worker_step :: "process \<Rightarrow> process \<Rightarrow> bool" where
  take_record: "ps_worker s = Receiving \<Longrightarrow> items (ps_queue s) = r # rest \<Longrightarrow>
    worker_step s (s\<lparr>ps_worker := Checking r, ps_queue := (ps_queue s)\<lparr>items := rest\<rparr>\<rparr>)"
| worker_ends: "ps_worker s = Receiving \<Longrightarrow> items (ps_queue s) = [] \<Longrightarrow> closed (ps_queue s) \<Longrightarrow>
    worker_step s (s\<lparr>ps_worker := WorkerDone\<rparr>)"
| persist_record: "ps_worker s = Checking r \<Longrightarrow> \<not> ps_stopped s \<Longrightarrow>
    worker_step s (s\<lparr>ps_worker := Receiving, ps_persisted := ps_persisted s @ [r]\<rparr>)"
| give_up: "ps_worker s = Checking r \<Longrightarrow> ps_stopped s \<Longrightarrow> worker_step s (s\<lparr>ps_worker := WorkerDone\<rparr>)"

text \<open>
  The main goroutine. \<open>Shutdown\<close> of a server returns when no request is left or the shutdown
  context is done.
\<close>

inductive main_step :: "process \<Rightarrow> process \<Rightarrow> bool" where
  see_signal: "ps_main s = Waiting \<Longrightarrow> ps_signalled s \<Longrightarrow> main_step s (s\<lparr>ps_main := Stopping 0\<rparr>)"
| see_error: "ps_main s = Waiting \<Longrightarrow> serverErrors s = e # es \<Longrightarrow>
    main_step s (s\<lparr>serverErrors := es, serveErr := Some e, ps_signalled := True, ps_main := Stopping 0\<rparr>)"
| shutdown_begins: "ps_main s = Stopping i \<Longrightarrow> i < length (ps_servers s) \<Longrightarrow> srv = ps_servers s ! i \<Longrightarrow>
    \<not> srv_closing srv \<Longrightarrow> main_step s (set_server i (srv\<lparr>srv_closing := True\<rparr>) s)"
| shutdown_returns: "ps_main s = Stopping i \<Longrightarrow> i < length (ps_servers s) \<Longrightarrow> srv = ps_servers s ! i \<Longrightarrow>
    srv_closing srv \<Longrightarrow> srv_active srv = 0 \<or> ps_deadline s \<Longrightarrow> main_step s (s\<lparr>ps_main := Stopping (i + 1)\<rparr>)"
| close_queue: "ps_main s = Stopping (length (ps_servers s)) \<Longrightarrow>
    main_step s (s\<lparr>ps_queue := Close_queue (ps_queue s), ps_main := Draining\<rparr>)"
| worker_done: "ps_main s = Draining \<Longrightarrow> ps_worker s = WorkerDone \<Longrightarrow>
    main_step s (s\<lparr>ps_stopped := True, ps_main := Finished\<rparr>)"
| out_of_time: "ps_main s = Draining \<Longrightarrow> ps_deadline s \<Longrightarrow>
    main_step s (s\<lparr>ps_stopped := True, ps_main := Finished\<rparr>)"

text \<open>A signal arrives; the time for the shutdown runs out once the shutdown has begun.\<close>

inductive outside_step :: "process \<Rightarrow> process \<Rightarrow> bool" where
  signal: "outside_step s (s\<lparr>ps_signalled := True\<rparr>)"
| deadline: "ps_main s \<noteq> Waiting \<Longrightarrow> outside_step s (s\<lparr>ps_deadline := True\<rparr>)"

text \<open>The process ends when its main goroutine returns.\<close>

inductive process_step :: "process \<Rightarrow> process \<Rightarrow> bool" where
  by_listener: "ps_main s \<noteq> Finished \<Longrightarrow> listener_step s s' \<Longrightarrow> process_step s s'"
| by_request: "ps_main s \<noteq> Finished \<Longrightarrow> request_step s s' \<Longrightarrow> process_step s s'"
| by_worker: "ps_main s \<noteq> Finished \<Longrightarrow> worker_step s s' \<Longrightarrow> process_step s s'"
| by_main: "main_step s s' \<Longrightarrow> process_step s s'"
| by_outside: "ps_main s \<noteq> Finished \<Longrightarrow> outside_step s s' \<Longrightarrow> process_step s s'"

inductive process_reachable :: "listener list \<Rightarrow> nat \<Rightarrow> process \<Rightarrow> bool" for ls n where
  process_init: "process_reachable ls n (process_start ls n)"
| process_next: "process_reachable ls n s \<Longrightarrow> process_step s s' \<Longrightarrow> process_reachable ls n s'"


end
