(* ===== verification/Queue_Steps.thy ===== *)
theory Queue_Steps
  imports Queue
begin

text \<open>
  The queue under concurrency: goroutines that run \<open>Enqueue\<close> and \<open>Close\<close> step by step on the
  read-write lock, the closed flag, the drop counter and the channel, and the worker that
  receives. A send on a closed channel and a second close of it panic.
\<close>

section \<open>States and steps\<close>

text \<open>Where a goroutine is: the names say what it does next.\<close>

datatype thread =
    Idle
  | WantRLock capture_record
  | CheckClosed capture_record
  | Select capture_record
  | AddDropped
  | RUnlock bool
  | WantLock
  | CheckFlag
  | CloseChannel
  | Unlock

text \<open>
  The shared state. \<open>accepted\<close> and \<open>received\<close> record what was sent into the channel and what
  the worker took out of it.
\<close>

record qstate =
  q_items :: "capture_record list"
  q_capacity :: nat
  q_dropped :: "64 word"
  q_closed :: bool
  q_chan_closed :: bool
  q_readers :: "nat set"
  q_writer :: "nat option"
  q_threads :: "nat \<Rightarrow> thread"
  q_panicked :: bool
  q_accepted :: "capture_record list"
  q_received :: "capture_record list"

definition q_start :: "nat \<Rightarrow> qstate" where
  "q_start n = \<lparr>q_items = [], q_capacity = n, q_dropped = 0, q_closed = False, q_chan_closed = False,
     q_readers = {}, q_writer = None, q_threads = (\<lambda>_. Idle), q_panicked = False,
     q_accepted = [], q_received = []\<rparr>"

definition goto :: "nat \<Rightarrow> thread \<Rightarrow> qstate \<Rightarrow> qstate" where
  "goto i t s = s\<lparr>q_threads := (q_threads s)(i := t)\<rparr>"

definition q_send :: "nat \<Rightarrow> capture_record \<Rightarrow> qstate \<Rightarrow> qstate" where
  "q_send i r s =
     (if q_chan_closed s then s\<lparr>q_panicked := True\<rparr>
      else if length (q_items s) < q_capacity s
           then goto i (RUnlock True) (s\<lparr>q_items := q_items s @ [r], q_accepted := q_accepted s @ [r]\<rparr>)
      else goto i AddDropped s)"

definition q_close :: "nat \<Rightarrow> qstate \<Rightarrow> qstate" where
  "q_close i s =
     (if q_chan_closed s then s\<lparr>q_panicked := True\<rparr>
      else goto i Unlock (s\<lparr>q_chan_closed := True\<rparr>))"

inductive q_step :: "qstate \<Rightarrow> qstate \<Rightarrow> bool" where
  call_enqueue: "q_threads s i = Idle \<Longrightarrow> q_step s (goto i (WantRLock r) s)"
| rlock: "q_threads s i = WantRLock r \<Longrightarrow> q_writer s = None \<Longrightarrow>
    q_step s (goto i (CheckClosed r) (s\<lparr>q_readers := insert i (q_readers s)\<rparr>))"
| see_closed: "q_threads s i = CheckClosed r \<Longrightarrow> q_closed s \<Longrightarrow> q_step s (goto i AddDropped s)"
| see_open: "q_threads s i = CheckClosed r \<Longrightarrow> \<not> q_closed s \<Longrightarrow> q_step s (goto i (Select r) s)"
| send: "q_threads s i = Select r \<Longrightarrow> q_step s (q_send i r s)"
| count: "q_threads s i = AddDropped \<Longrightarrow>
    q_step s (goto i (RUnlock False) (s\<lparr>q_dropped := q_dropped s + 1\<rparr>))"
| runlock: "q_threads s i = RUnlock b \<Longrightarrow> q_step s (goto i Idle (s\<lparr>q_readers := q_readers s - {i}\<rparr>))"
| call_close: "q_threads s i = Idle \<Longrightarrow> q_step s (goto i WantLock s)"
| lock: "q_threads s i = WantLock \<Longrightarrow> q_writer s = None \<Longrightarrow> q_readers s = {} \<Longrightarrow>
    q_step s (goto i CheckFlag (s\<lparr>q_writer := Some i\<rparr>))"
| already_closed: "q_threads s i = CheckFlag \<Longrightarrow> q_closed s \<Longrightarrow> q_step s (goto i Unlock s)"
| set_closed: "q_threads s i = CheckFlag \<Longrightarrow> \<not> q_closed s \<Longrightarrow>
    q_step s (goto i CloseChannel (s\<lparr>q_closed := True\<rparr>))"
| close_channel: "q_threads s i = CloseChannel \<Longrightarrow> q_step s (q_close i s)"
| unlock: "q_threads s i = Unlock \<Longrightarrow> q_step s (goto i Idle (s\<lparr>q_writer := None\<rparr>))"
| receive: "q_items s = r # rest \<Longrightarrow>
    q_step s (s\<lparr>q_items := rest, q_received := q_received s @ [r]\<rparr>)"

inductive q_reachable :: "nat \<Rightarrow> qstate \<Rightarrow> bool" for n where
  q_init: "q_reachable n (q_start n)"
| q_next: "q_reachable n s \<Longrightarrow> q_step s s' \<Longrightarrow> q_reachable n s'"

section \<open>The invariant\<close>

fun reads :: "thread \<Rightarrow> bool" where
  "reads (CheckClosed r) = True"
| "reads (Select r) = True"
| "reads AddDropped = True"
| "reads (RUnlock b) = True"
| "reads _ = False"

fun writes :: "thread \<Rightarrow> bool" where
  "writes CheckFlag = True"
| "writes CloseChannel = True"
| "writes Unlock = True"
| "writes _ = False"

text \<open>
  The lock is held by whom the program counters say; a goroutine about to send has seen the
  queue open and nobody can have closed it since; a goroutine about to close the channel is the
  first to do so.
\<close>

definition lock_inv :: "qstate \<Rightarrow> bool" where
  "lock_inv s \<longleftrightarrow>
     (\<forall>i. i \<in> q_readers s \<longleftrightarrow> reads (q_threads s i))
     \<and> (\<forall>i. q_writer s = Some i \<longleftrightarrow> writes (q_threads s i))
     \<and> (q_writer s \<noteq> None \<longrightarrow> q_readers s = {})"

definition flag_inv :: "qstate \<Rightarrow> bool" where
  "flag_inv s \<longleftrightarrow>
     (q_chan_closed s \<longrightarrow> q_closed s)
     \<and> (\<forall>i r. q_threads s i = Select r \<longrightarrow> \<not> q_closed s)
     \<and> (\<forall>i. q_threads s i = CloseChannel \<longrightarrow> \<not> q_chan_closed s \<and> q_closed s)"

definition data_inv :: "nat \<Rightarrow> qstate \<Rightarrow> bool" where
  "data_inv n s \<longleftrightarrow>
     \<not> q_panicked s \<and> q_capacity s = n \<and> length (q_items s) \<le> n
     \<and> q_accepted s = q_received s @ q_items s \<and> finite {i. q_threads s i = AddDropped}"

definition q_inv :: "nat \<Rightarrow> qstate \<Rightarrow> bool" where
  "q_inv n s \<longleftrightarrow> lock_inv s \<and> flag_inv s \<and> data_inv n s"

lemmas step_defs = goto_def q_send_def q_close_def

lemma writer_unique: "lock_inv s \<Longrightarrow> writes (q_threads s i) \<Longrightarrow> writes (q_threads s j) \<Longrightarrow> i = j"
  by (metis lock_inv_def option.inject)

lemma no_reader_with_writer: "lock_inv s \<Longrightarrow> writes (q_threads s i) \<Longrightarrow> \<not> reads (q_threads s j)"
  by (metis empty_iff lock_inv_def option.distinct(1))

lemma lock_inv_step: "q_step s s' \<Longrightarrow> lock_inv s \<Longrightarrow> lock_inv s'"
proof (induction rule: q_step.induct)
  case (unlock s i)
  have "j = i" if "writes (q_threads s j)" for j
    using writer_unique [OF unlock.prems, of i j] unlock.hyps that by simp
  with unlock show ?case by (auto simp: lock_inv_def step_defs)
qed (auto simp: lock_inv_def step_defs)

lemma flag_inv_step:
  assumes "q_step s s'" and "lock_inv s" and "flag_inv s"
  shows "flag_inv s'"
  using assms
proof (induction rule: q_step.induct)
  case (set_closed s i)
  have "\<not> reads (q_threads s j)" for j
    using no_reader_with_writer [OF set_closed.prems(1), of i] set_closed.hyps by simp
  then have "q_threads s j \<noteq> Select r" for j r by (metis reads.simps(2))
  with set_closed show ?case by (auto simp: flag_inv_def step_defs)
next
  case (close_channel s i)
  have "q_threads s j \<noteq> CloseChannel" if "j \<noteq> i" for j
    using writer_unique [OF close_channel.prems(1), of i j] close_channel.hyps that by auto
  with close_channel show ?case by (auto simp: flag_inv_def step_defs)
qed (auto simp: flag_inv_def step_defs)

lemma finite_goto: "finite {j. q_threads s j = AddDropped} \<Longrightarrow> finite {j. ((q_threads s)(i := t)) j = AddDropped}"
  by (rule finite_subset [of _ "insert i {j. q_threads s j = AddDropped}"]) auto

lemma data_inv_step:
  assumes "q_step s s'" and "flag_inv s" and "data_inv n s"
  shows "data_inv n s'"
  using assms
  by (induction rule: q_step.induct)
    (auto simp: data_inv_def flag_inv_def step_defs finite_goto simp del: fun_upd_apply)

lemma q_inv_reachable: "q_reachable n s \<Longrightarrow> q_inv n s"
proof (induction rule: q_reachable.induct)
  case q_init
  show ?case by (simp add: q_inv_def lock_inv_def flag_inv_def data_inv_def q_start_def)
next
  case (q_next s s')
  then show ?case
    unfolding q_inv_def using lock_inv_step flag_inv_step data_inv_step by blast
qed

section \<open>Refinement of the atomic queue\<close>

text \<open>
  The atomic queue a state stands for. A goroutine that has decided to drop counts as having
  dropped, although it adds to the counter a little later.
\<close>

definition undecided :: "qstate \<Rightarrow> nat" where
  "undecided s = card {i. q_threads s i = AddDropped}"

definition q_abs :: "qstate \<Rightarrow> record_queue" where
  "q_abs s = \<lparr>items = q_items s, capacity = q_capacity s,
     dropped = q_dropped s + of_nat (undecided s), closed = q_closed s\<rparr>"

text \<open>What one step may do to the atomic queue.\<close>

inductive atomic_step :: "record_queue \<Rightarrow> record_queue \<Rightarrow> bool" where
  stutter: "atomic_step q q"
| enqueue: "Enqueue r q = (b, q') \<Longrightarrow> atomic_step q q'"
| close: "atomic_step q (Close_queue q)"
| deliver: "items q = r # rest \<Longrightarrow> atomic_step q (q\<lparr>items := rest\<rparr>)"

lemma undecided_same:
  "q_threads s i \<noteq> AddDropped \<Longrightarrow> t \<noteq> AddDropped \<Longrightarrow>
     {j. ((q_threads s)(i := t)) j = AddDropped} = {j. q_threads s j = AddDropped}"
  by auto

lemma undecided_more:
  assumes "finite {j. q_threads s j = AddDropped}" and "q_threads s i \<noteq> AddDropped"
  shows "card {j. ((q_threads s)(i := AddDropped)) j = AddDropped} = Suc (card {j. q_threads s j = AddDropped})"
proof -
  have "{j. ((q_threads s)(i := AddDropped)) j = AddDropped} = insert i {j. q_threads s j = AddDropped}" by auto
  with assms show ?thesis by simp
qed

lemma undecided_less:
  assumes "finite {j. q_threads s j = AddDropped}" and "q_threads s i = AddDropped" and "t \<noteq> AddDropped"
  shows "Suc (card {j. ((q_threads s)(i := t)) j = AddDropped}) = card {j. q_threads s j = AddDropped}"
proof -
  have "{j. ((q_threads s)(i := t)) j = AddDropped} = {j. q_threads s j = AddDropped} - {i}" using assms(3) by auto
  with card_Suc_Diff1 [OF assms(1), of i] assms(2) show ?thesis by simp
qed

lemmas undecided_simps = undecided_def undecided_same undecided_more

lemma q_step_refines:
  assumes "q_step s s'" and "q_inv n s"
  shows "atomic_step (q_abs s) (q_abs s')"
  using assms
proof (induction rule: q_step.induct)
  case (see_closed s i r)
  have "Enqueue r (q_abs s) = (False, q_abs (goto i AddDropped s))"
    using see_closed
    by (simp add: Enqueue_def q_abs_def step_defs undecided_simps q_inv_def data_inv_def del: fun_upd_apply)
  then show ?case by (rule atomic_step.enqueue)
next
  case (send s i r)
  then have "\<not> q_chan_closed s" "\<not> q_closed s" by (auto simp: q_inv_def flag_inv_def)
  then have "Enqueue r (q_abs s) = (length (q_items s) < q_capacity s, q_abs (q_send i r s))"
    using send
    by (simp add: Enqueue_def q_abs_def step_defs undecided_simps q_inv_def data_inv_def del: fun_upd_apply)
  then show ?case by (rule atomic_step.enqueue)
next
  case (count s i)
  have "q_abs (goto i (RUnlock False) (s\<lparr>q_dropped := q_dropped s + 1\<rparr>)) = q_abs s"
    using count undecided_less [of s i "RUnlock False"]
    by (simp add: q_abs_def step_defs undecided_def q_inv_def data_inv_def del: fun_upd_apply)
      (metis add.commute add.left_commute of_nat_Suc)
  then show ?case by (simp add: atomic_step.stutter)
next
  case (set_closed s i)
  have "q_abs (goto i CloseChannel (s\<lparr>q_closed := True\<rparr>)) = Close_queue (q_abs s)"
    using set_closed by (simp add: q_abs_def step_defs undecided_simps Close_queue_def del: fun_upd_apply)
  then show ?case by (simp add: atomic_step.close)
next
  case (close_channel s i)
  then have "\<not> q_chan_closed s" by (auto simp: q_inv_def flag_inv_def)
  then have "q_abs (q_close i s) = q_abs s"
    using close_channel by (simp add: q_abs_def step_defs undecided_simps del: fun_upd_apply)
  then show ?case by (simp add: atomic_step.stutter)
next
  case (receive s r rest)
  then have "q_abs (s\<lparr>q_items := rest, q_received := q_received s @ [r]\<rparr>) = (q_abs s)\<lparr>items := rest\<rparr>" "items (q_abs s) = r # rest"
    by (simp_all add: q_abs_def undecided_def)
  then show ?case using atomic_step.deliver by metis
qed (simp_all add: q_abs_def step_defs undecided_simps atomic_step.stutter del: fun_upd_apply)

end
