(* ===== verification/Queue_Props.thy ===== *)
theory Queue_Props
  imports Queue_Steps Store_Props
begin

text \<open>
  Properties of the queue and of the worker: no panic and no loss under concurrency, the atomic
  queue as its specification, and what persisting a record can do to the tables.
\<close>

section \<open>What the worker writes\<close>

text \<open>The tables gain exactly the row of this record, under a new id.\<close>

definition adds_row :: "'w view \<Rightarrow> capture_record \<Rightarrow> tables \<Rightarrow> tables \<Rightarrow> bool" where
  "adds_row V rec T T' \<longleftrightarrow> \<not> schema_refuses (insert_args rec) \<and>
     (\<exists>stored. sql_uuid V (cr_ID rec) = Some (col_id stored) \<and> col_id stored \<notin> col_id ` set (records T)
        \<and> T' = T\<lparr>records := records T @ [with_defaults stored]\<rparr>
        \<and> col_user_id stored = UserID (cr_Identity rec) \<and> col_message_count stored = int (cr_MessageCount rec)
        \<and> col_prompt_text stored = cr_PromptText rec
        \<and> (fits_schema (insert_args rec) \<longrightarrow> with_defaults stored = stored_row V (col_id stored) (insert_args rec)))"

lemma adds_row_captures:
  assumes "adds_row V rec T T'"
  shows "\<exists>x. captures T' = captures T @ [x] \<and> sql_uuid V (cr_ID rec) = Some (col_id x)"
proof -
  obtain stored where "T' = T\<lparr>records := records T @ [with_defaults stored]\<rparr>"
    "sql_uuid V (cr_ID rec) = Some (col_id stored)"
    using assms unfolding adds_row_def by (elim exE conjE)
  then show ?thesis using captures_append [of T stored] by blast
qed

context audit_db
begin

lemma Insert_adds:
  "Insert E rec s w = (r, s', w') \<Longrightarrow>
     r \<noteq> None \<and> tables_of V w' = tables_of V w \<or> adds_row V rec (tables_of V w) (tables_of V w')"
  unfolding adds_row_def using Insert_effect by blast

lemma adds_row_once: "adds_row V rec T T' \<Longrightarrow> \<not> adds_row V rec T' T''"
  by (auto simp: adds_row_def)

text \<open>However often the insert is retried, and whichever attempt took effect, there is at most one row.\<close>

lemma insert_attempts_adds:
  assumes "insert_attempts E rec n s w = (s', w')"
  shows "tables_of V w' = tables_of V w \<or> adds_row V rec (tables_of V w) (tables_of V w')"
  using assms
proof (induction n arbitrary: s w)
  case (Suc n)
  obtain r s1 w1 where i: "Insert E rec s w = (r, s1, w1)" by (cases "Insert E rec s w")
  note e = Insert_adds [OF i]
  show ?case
  proof (cases "r = None \<or> n = 0")
    case True
    with Suc.prems i e show ?thesis by (auto split: option.splits)
  next
    case False
    then obtain x where r: "r = Some x" by (cases r) auto
    obtain b w2 where d: "wait_done E (int (3 - n) * milliseconds 250) w1 = (b, w2)" by fastforce
    have w2: "tables_of V w2 = tables_of V w1" using quietD(3) [OF d] .
    show ?thesis
    proof (cases b)
      case True
      with Suc.prems i r d False e w2 show ?thesis by auto
    next
      case b: False
      with Suc.prems i r d False have "insert_attempts E rec n s1 w2 = (s', w')" by auto
      from Suc.IH [OF this] w2 e adds_row_once [of rec "tables_of V w" "tables_of V w1"] show ?thesis by auto
    qed
  qed
qed simp

lemma resolve_once_quiet: "resolve_once E r i w = (x, w') \<Longrightarrow> tables_of V w' = tables_of V w"
  by (auto simp: resolve_once_def quietD split: option.splits prod.splits if_splits)

lemma resolve_attempts_effect:
  "resolve_attempts E r n rec w = (x, w') \<Longrightarrow>
     tables_of V w' = tables_of V w \<and> (\<forall>rec'. x = Some rec' \<longrightarrow> (\<exists>i. rec' = rec\<lparr>cr_Identity := i\<rparr>))"
proof (induction n arbitrary: w)
  case 0
  then show ?case by (auto intro: exI [of _ "cr_Identity rec"])
next
  case (Suc n)
  obtain y w1 where o: "resolve_once E r (cr_RequestID rec) w = (y, w1)" by fastforce
  note w1 = resolve_once_quiet [OF o]
  have rec: "\<exists>i. rec = rec\<lparr>cr_Identity := i\<rparr>" by (rule exI [of _ "cr_Identity rec"]) simp
  show ?case
  proof (cases "y = None \<and> n \<noteq> 0")
    case True
    obtain b w2 where d: "wait_done E (milliseconds 200) w1 = (b, w2)" by fastforce
    then show ?thesis
      using Suc.prems Suc.IH [of w2] o True w1 quietD(3) [OF d] by (cases b) auto
  next
    case False
    with Suc.prems o w1 rec show ?thesis by (auto split: option.splits if_splits)
  qed
qed

lemma persist_effect:
  assumes "persist E r cfg rec s w = (s', w')"
  shows "tables_of V w' = tables_of V w
    \<or> (\<exists>i. adds_row V (rec\<lparr>cr_Identity := i\<rparr>) (tables_of V w) (tables_of V w')
         \<and> (Resolved i \<or> AllowUnknownIdentity cfg) \<and> (cr_MessageCount rec \<noteq> 0 \<or> CaptureEmptyPrompts cfg))"
proof -
  define x where "x = (if r \<noteq> None \<and> \<not> Resolved (cr_Identity rec) then resolve_attempts E r 3 rec w else (Some rec, w))"
  obtain y w1 where y: "x = (y, w1)" by (cases x)
  have e: "tables_of V w1 = tables_of V w" "\<And>rec'. y = Some rec' \<Longrightarrow> \<exists>i. rec' = rec\<lparr>cr_Identity := i\<rparr>"
    using y resolve_attempts_effect [of r 3 rec w y w1]
    by (auto simp: x_def split: if_splits intro: exI [of _ "cr_Identity rec"])
  have p: "persist E r cfg rec s w = (case y of None \<Rightarrow> (s, w1) | Some rec1 \<Rightarrow>
      if \<not> Resolved (cr_Identity rec1) \<and> \<not> AllowUnknownIdentity cfg then (s, w1)
      else if cr_MessageCount rec1 = 0 \<and> \<not> CaptureEmptyPrompts cfg then (s, w1)
      else insert_attempts E rec1 3 s w1)"
    unfolding persist_def x_def [symmetric] y by (simp split: option.split)
  show ?thesis
  proof (cases y)
    case None
    with assms p e show ?thesis by simp
  next
    case (Some rec')
    with e obtain i where i: "rec' = rec\<lparr>cr_Identity := i\<rparr>" by blast
    show ?thesis
    proof (cases "(Resolved i \<or> AllowUnknownIdentity cfg) \<and> (cr_MessageCount rec \<noteq> 0 \<or> CaptureEmptyPrompts cfg)")
      case True
      then have "insert_attempts E rec' 3 s w1 = (s', w')"
        using assms p Some i by auto
      from insert_attempts_adds [OF this] e i True show ?thesis by auto
    next
      case False
      with assms p Some i e show ?thesis by (auto split: if_splits)
    qed
  qed
qed

lemma persist_captures:
  assumes "persist E r cfg rec s w = (s', w')" and "canonical_uuid (cr_ID rec)"
  shows "\<exists>xs. captures (tables_of V w') = captures (tables_of V w) @ xs \<and> subseq (map col_id xs) [cr_ID rec]"
proof (cases "tables_of V w' = tables_of V w")
  case False
  then obtain i where "adds_row V (rec\<lparr>cr_Identity := i\<rparr>) (tables_of V w) (tables_of V w')"
    using persist_effect [OF assms(1)] by blast
  from adds_row_captures [OF this] show ?thesis using sql_uuid_id [OF assms(2)] by force
qed simp

lemma Run_captures:
  "Run E r cfg recs s w = (left, s', w') \<Longrightarrow> \<forall>rec \<in> set recs. canonical_uuid (cr_ID rec) \<Longrightarrow>
   \<exists>xs. captures (tables_of V w') = captures (tables_of V w) @ xs \<and> subseq (map col_id xs) (map cr_ID recs)"
proof (induction recs arbitrary: s w)
  case (Cons rec recs)
  obtain b w1 where c: "ctx_err E w = (b, w1)" by fastforce
  have w1: "tables_of V w1 = tables_of V w" using quietD(2) [OF c] .
  show ?case
  proof (cases b)
    case True
    with Cons.prems c w1 show ?thesis by auto
  next
    case False
    obtain s1 w2 where p: "persist E r cfg rec s w1 = (s1, w2)" by (cases "persist E r cfg rec s w1")
    then obtain xs where xs: "captures (tables_of V w2) = captures (tables_of V w) @ xs"
      "subseq (map col_id xs) [cr_ID rec]"
      using persist_captures [OF p] Cons.prems(2) w1 by auto
    have "Run E r cfg recs s1 w2 = (left, s', w')" using Cons.prems(1) c False p by simp
    from Cons.IH [OF this] Cons.prems(2) obtain ys where
      "captures (tables_of V w') = captures (tables_of V w2) @ ys" "subseq (map col_id ys) (map cr_ID recs)" by auto
    with xs list_emb_append_mono [OF xs(2)] show ?thesis
      by (intro exI [of _ "xs @ ys"]) fastforce
  qed
qed simp

text \<open>A record that the table refuses whoever its user is.\<close>

lemma persist_refused:
  assumes "persist E r cfg rec s w = (s', w')" and "\<forall>i. schema_refuses (insert_args (rec\<lparr>cr_Identity := i\<rparr>))"
  shows "tables_of V w' = tables_of V w"
  using persist_effect [OF assms(1)] assms(2) by (auto simp: adds_row_def)

lemma Run_refused:
  "Run E r cfg recs s w = (left, s', w') \<Longrightarrow> \<forall>rec \<in> set recs. \<forall>i. schema_refuses (insert_args (rec\<lparr>cr_Identity := i\<rparr>)) \<Longrightarrow>
   tables_of V w' = tables_of V w"
proof (induction recs arbitrary: s w)
  case (Cons rec recs)
  obtain b w1 where c: "ctx_err E w = (b, w1)" by fastforce
  obtain s1 w2 where p: "persist E r cfg rec s w1 = (s1, w2)" by fastforce
  from Cons.IH [of s1 w2] Cons.prems c p quietD(2) [OF c] persist_refused [OF p] show ?case
    by (auto split: if_splits bool.splits)
qed simp

end

section \<open>Properties\<close>

text \<open>
  C16. Under any interleaving of goroutines that enqueue, close (also more than once) and
  receive, nothing ever sends on the closed channel or closes it twice: the queue never panics.
\<close>

theorem queue_never_panics:
  assumes "q_reachable n s"
  shows "\<not> q_panicked s"
  using q_inv_reachable [OF assms] by (simp add: q_inv_def data_inv_def)

definition closing_state :: qstate where
  "closing_state = goto 0 Unlock ((q_start 2)\<lparr>q_closed := True, q_chan_closed := True, q_writer := Some 0\<rparr>)"

lemma closing_reachable: "q_reachable 2 closing_state"
proof -
  let ?s1 = "goto 0 WantLock (q_start 2)"
  let ?s2 = "goto 0 CheckFlag (?s1\<lparr>q_writer := Some 0\<rparr>)"
  let ?s3 = "goto 0 CloseChannel (?s2\<lparr>q_closed := True\<rparr>)"
  have 1: "q_step (q_start 2) ?s1" by (rule call_close) (simp add: q_start_def)
  have 2: "q_step ?s1 ?s2" by (rule lock) (simp_all add: goto_def q_start_def)
  have 3: "q_step ?s2 ?s3" by (rule set_closed) (simp_all add: goto_def q_start_def)
  have 4: "q_step ?s3 (q_close 0 ?s3)" by (rule close_channel) (simp add: goto_def)
  have "q_close 0 ?s3 = closing_state"
    by (simp add: q_close_def closing_state_def goto_def q_start_def)
  with 4 show ?thesis by (metis 1 2 3 q_init q_next)
qed

theorem queue_never_panics_witness:
  "\<not> q_panicked closing_state \<and> q_chan_closed closing_state"
  using queue_never_panics [OF closing_reachable] by (simp add: closing_state_def goto_def)

text \<open>
  The queue loses nothing it accepted and keeps the order: in every reachable state the
  records accepted so far are those the worker has received followed by those in the channel,
  which never holds more than its capacity.
\<close>

theorem queue_fifo:
  assumes "q_reachable n s"
  shows "q_accepted s = q_received s @ q_items s \<and> length (q_items s) \<le> n"
  using q_inv_reachable [OF assms] by (simp add: q_inv_def data_inv_def)

definition one_sent :: qstate where
  "one_sent = goto 0 (RUnlock True) ((q_start 1)\<lparr>q_readers := {0}, q_items := [sample_capture], q_accepted := [sample_capture]\<rparr>)"

lemma one_sent_reachable: "q_reachable 1 one_sent"
proof -
  let ?r = sample_capture
  let ?s1 = "goto 0 (WantRLock ?r) (q_start 1)"
  let ?s2 = "goto 0 (CheckClosed ?r) (?s1\<lparr>q_readers := insert 0 (q_readers ?s1)\<rparr>)"
  let ?s3 = "goto 0 (Select ?r) ?s2"
  have 1: "q_step (q_start 1) ?s1" by (rule call_enqueue) (simp add: q_start_def)
  have 2: "q_step ?s1 ?s2" by (rule rlock) (simp_all add: goto_def q_start_def)
  have 3: "q_step ?s2 ?s3" by (rule see_open) (simp_all add: goto_def q_start_def)
  have 4: "q_step ?s3 (q_send 0 ?r ?s3)" by (rule send) (simp add: goto_def)
  have "q_send 0 ?r ?s3 = one_sent"
    by (simp add: q_send_def one_sent_def goto_def q_start_def)
  with 4 show ?thesis by (metis 1 2 3 q_init q_next)
qed

theorem queue_fifo_witness:
  "q_accepted one_sent = q_received one_sent @ q_items one_sent \<and> q_items one_sent = [sample_capture]"
  using queue_fifo [OF one_sent_reachable] by (simp add: one_sent_def goto_def)

text \<open>
  C8. The concurrent queue refines the atomic one: seen through the abstraction that counts a
  goroutine as having dropped once it has decided to, every step of any goroutine is no step,
  one whole \<open>Enqueue\<close>, one whole \<open>Close\<close> or one delivery of the atomic queue.
\<close>

theorem queue_refines_atomic:
  assumes "q_reachable n s" and "q_step s s'"
  shows "atomic_step (q_abs s) (q_abs s')"
  using q_step_refines [OF assms(2) q_inv_reachable [OF assms(1)]] .

theorem queue_refines_atomic_witness:
  "atomic_step (q_abs one_sent) (q_abs (one_sent\<lparr>q_items := [], q_received := q_received one_sent @ [sample_capture]\<rparr>))"
  by (rule queue_refines_atomic [OF one_sent_reachable], rule receive) (simp add: one_sent_def goto_def)

text \<open>
  Overload is bounded and accounted for: whatever records are offered to a queue within its
  capacity, it never exceeds it, keeps a subsequence of them in order, and the 64-bit counter of
  dropped records grows by exactly the number not kept.
\<close>

theorem enqueue_accounts:
  assumes "length (items q) \<le> capacity q"
  shows "\<exists>kept. items (fold (\<lambda>r q. snd (Enqueue r q)) rs q) = items q @ kept \<and> subseq kept rs
     \<and> dropped (fold (\<lambda>r q. snd (Enqueue r q)) rs q) + of_nat (length kept) = dropped q + of_nat (length rs)
     \<and> length (items (fold (\<lambda>r q. snd (Enqueue r q)) rs q)) \<le> capacity q"
  using record_q.enqueue_all_accounts [OF assms, of rs] unfolding record_q.enqueue_all_def by blast

definition small_queue :: record_queue where
  "small_queue = \<lparr>items = [], capacity = 1, dropped = 0, closed = False\<rparr>"

theorem enqueue_accounts_witness:
  "\<exists>kept. items (fold (\<lambda>r q. snd (Enqueue r q)) [sample_capture, sample_capture] small_queue) = kept \<and> length kept \<le> 1"
  using enqueue_accounts [of small_queue "[sample_capture, sample_capture]"] by (auto simp: small_queue_def)

text \<open>
  C5. The guards of the worker hold in the data: persisting a record either leaves the tables as
  they were or adds a single row, under the id of the record and with its prompt, and then only
  with a resolved user unless unknown identities are allowed, and only with a message unless
  empty prompts are captured. Retries and inserts that took effect although they reported an
  error never make a second row.
\<close>

theorem persist_guarded_once:
  assumes "audit_db E V" and "persist E r cfg rec s w = (s', w')"
  shows "tables_of V w' = tables_of V w
    \<or> (\<exists>stored. sql_uuid V (cr_ID rec) = Some (col_id stored)
         \<and> tables_of V w' = (tables_of V w)\<lparr>records := records (tables_of V w) @ [with_defaults stored]\<rparr>
         \<and> col_prompt_text stored = cr_PromptText rec
         \<and> (AllowUnknownIdentity cfg \<or> (\<exists>u > 0. col_user_id stored = Some u))
         \<and> (CaptureEmptyPrompts cfg \<or> 0 < col_message_count stored))"
  using audit_db.persist_effect [OF assms]
  by (force simp: adds_row_def Resolved_def split: option.splits)

definition strict_config :: config where
  "strict_config = sample_config\<lparr>AllowUnknownIdentity := False, CaptureEmptyPrompts := False\<rparr>"

definition persisted :: "store option \<times> mem" where
  "persisted = persist mem_world None strict_config sample_capture fresh_store
     (mem_start\<lparr>m_faults := [Works, Works, FailsAfter, FailsBefore]\<rparr>)"

theorem persist_guarded_once_witness:
  "length (records (m_tables (snd persisted))) = 1"
proof -
  have "records (m_tables (snd persisted)) \<noteq> []" by code_simp
  moreover have "m_tables (snd persisted) = m_tables mem_start
      \<or> (\<exists>stored. m_tables (snd persisted) = (m_tables mem_start)\<lparr>records := records (m_tables mem_start) @ [with_defaults stored]\<rparr>)"
    using persist_guarded_once [OF mem_audit.audit_db_axioms, of None strict_config sample_capture fresh_store
      "mem_start\<lparr>m_faults := [Works, Works, FailsAfter, FailsBefore]\<rparr>" "fst persisted" "snd persisted"]
    by (auto simp: persisted_def)
  ultimately show ?thesis by (auto simp: mem_start_def empty_tables_def)
qed

text \<open>
  The worker keeps the order and invents nothing: the rows a run adds to the log carry ids of
  records it was given, in the order of the queue, each at most once, and what was logged before
  stays in front of them.
\<close>

theorem worker_keeps_order:
  assumes "audit_db E V" and "Run E r cfg recs s w = (left, s', w')" and "\<forall>rec \<in> set recs. canonical_uuid (cr_ID rec)"
  shows "\<exists>xs. captures (tables_of V w') = captures (tables_of V w) @ xs \<and> subseq (map col_id xs) (map cr_ID recs)"
  using audit_db.Run_captures [OF assms] .

definition worked :: "capture_record list \<times> store option \<times> mem" where
  "worked = Run mem_world None strict_config [sample_capture, sample_capture\<lparr>cr_ID := mem_uuid 2\<rparr>] fresh_store mem_start"

theorem worker_keeps_order_witness:
  "\<exists>xs. captures (m_tables (snd (snd worked))) = xs \<and> subseq (map col_id xs) [mem_uuid 1, mem_uuid 2]"
proof -
  have "\<forall>rec \<in> set [sample_capture, sample_capture\<lparr>cr_ID := mem_uuid 2\<rparr>]. canonical_uuid (cr_ID rec)"
    by (simp add: sample_capture_def mem_uuid_canonical)
  from worker_keeps_order [OF mem_audit.audit_db_axioms _ this, of None strict_config fresh_store mem_start "fst worked" "fst (snd worked)" "snd (snd worked)"]
  show ?thesis by (simp add: worked_def sample_capture_def mem_start_def empty_tables_def captures_def)
qed

end
