(* ===== verification/Sidecar_Props.thy ===== *)
theory Sidecar_Props
  imports Sidecar Auth_Props Queue_Props
begin

text \<open>
  Properties of the whole process: it starts without its databases, the bootstrap of the
  administrator ends, retention removes and nothing else, and a shutdown loses no record.
\<close>

section \<open>Draining the queue\<close>

text \<open>Records that pass the guards of the worker and fit the table under a new id.\<close>

definition storable :: "tables \<Rightarrow> capture_record \<Rightarrow> bool" where
  "storable T rec \<longleftrightarrow> Resolved (cr_Identity rec) \<and> cr_MessageCount rec \<noteq> 0 \<and> fits_schema (insert_args rec)
     \<and> canonical_uuid (cr_ID rec) \<and> cr_ID rec \<notin> col_id ` set (records T)"

definition row_of :: "'w view \<Rightarrow> capture_record \<Rightarrow> record_row" where
  "row_of V rec = stored_row V (cr_ID rec) (insert_args rec)"

definition store_ready :: "store option \<Rightarrow> bool" where
  "store_ready s \<longleftrightarrow> (\<exists>st. s = Some st \<and> store_db st \<and> schemaReady st)"

definition with_rows :: "tables \<Rightarrow> record_row list \<Rightarrow> tables" where
  "with_rows T rows = T\<lparr>records := records T @ rows\<rparr>"

lemma with_rows_simps [simp]: "records (with_rows T rows) = records T @ rows" "with_rows T [] = T"
  "with_rows (with_rows T xs) ys = with_rows T (xs @ ys)"
  by (simp_all add: with_rows_def)

lemma insert_args_id [simp]: "col_id (insert_args rec) = cr_ID rec"
  by (simp add: insert_args_def)

lemma row_of_id [simp]: "col_id (row_of V rec) = cr_ID rec"
  by (simp add: row_of_def)

lemma Insert_ready: "store_ready s \<Longrightarrow> Insert E rec s w = (case db_insert E (insert_args rec) w of (r, w1) \<Rightarrow> (r, s, w1))"
  by (auto simp: store_ready_def Insert_def ensureSchema_ready)

context live_audit_db
begin

text \<open>One attempt: it adds the row, or uses up a fault and changes nothing.\<close>

lemma insert_storable:
  assumes "storable (tables_of V w) rec" and "db_insert E (insert_args rec) w = (r, w')"
  shows "later L w w' \<and> (tables_of V w' = with_rows (tables_of V w) [row_of V rec]
    \<or> r \<noteq> None \<and> tables_of V w' = tables_of V w \<and> faults_left L w' < faults_left L w)"
proof -
  have f: "fits_schema (insert_args rec)" "sql_uuid V (col_id (insert_args rec)) = Some (cr_ID rec)"
    "cr_ID rec \<notin> col_id ` set (records (tables_of V w))"
    using assms(1) sql_uuid_id by (auto simp: storable_def)
  with insert_law [OF assms(2)] insert_executed [OF assms(2) f] insert_later [OF assms(2)]
  show ?thesis by (auto simp: with_rows_def row_of_def)
qed

lemma insert_present:
  assumes "canonical_uuid (cr_ID rec)" and "cr_ID rec \<in> col_id ` set (records (tables_of V w))"
    and "db_insert E (insert_args rec) w = (r, w')"
  shows "r \<noteq> None \<and> tables_of V w' = tables_of V w \<and> later L w w'"
  using insert_law [OF assms(3)] insert_later [OF assms(3)] sql_uuid_id [OF assms(1)] assms(2) by auto

text \<open>Once the row is there, further attempts change nothing.\<close>

lemma insert_attempts_present:
  "store_ready s \<Longrightarrow> canonical_uuid (cr_ID rec) \<Longrightarrow> cr_ID rec \<in> col_id ` set (records (tables_of V w)) \<Longrightarrow>
   \<exists>w'. insert_attempts E rec n s w = (s, w') \<and> tables_of V w' = tables_of V w \<and> later L w w'"
proof (induction n arbitrary: w)
  case (Suc n)
  obtain r w1 where x: "db_insert E (insert_args rec) w = (r, w1)" by fastforce
  note p = insert_present [OF Suc.prems(2,3) x]
  obtain b w2 where d: "wait_done E (int (3 - n) * milliseconds 250) w1 = (b, w2)" by fastforce
  have l: "later L w1 w2" "tables_of V w2 = tables_of V w" using wait_done_later [OF d] quietD(3) [OF d] p by auto
  obtain w3 where "insert_attempts E rec n s w2 = (s, w3)" "tables_of V w3 = tables_of V w" "later L w2 w3"
    using Suc.IH [of w2] Suc.prems l by auto
  then show ?case using x d p l Insert_ready [OF Suc.prems(1), of E rec w] by (cases b) (auto intro: later_trans split: option.split)
qed simp

lemma insert_attempts_stores:
  "store_ready s \<Longrightarrow> alive L w \<Longrightarrow> storable (tables_of V w) rec \<Longrightarrow> faults_left L w < n \<Longrightarrow>
   \<exists>w'. insert_attempts E rec n s w = (s, w') \<and> tables_of V w' = with_rows (tables_of V w) [row_of V rec] \<and> later L w w'"
proof (induction n arbitrary: w)
  case (Suc n)
  obtain r w1 where x: "db_insert E (insert_args rec) w = (r, w1)" by fastforce
  obtain b w2 where d: "wait_done E (int (3 - n) * milliseconds 250) w1 = (b, w2)" by fastforce
  note i = insert_storable [OF Suc.prems(3) x]
  have b: "\<not> b" "later L w1 w2" "later L w w2" "tables_of V w2 = tables_of V w1"
    using i Suc.prems(2) wait_done_later [OF d] quietD(3) [OF d] by (auto simp: later_def)
  have step: "insert_attempts E rec (Suc n) s w = (if r = None \<or> n = 0 then (s, w1) else insert_attempts E rec n s w2)"
    using x d b(1) Insert_ready [OF Suc.prems(1), of E rec w] by (auto split: option.split)
  show ?case
  proof (cases "tables_of V w1 = with_rows (tables_of V w) [row_of V rec]")
    case True
    then have "cr_ID rec \<in> col_id ` set (records (tables_of V w2))" "canonical_uuid (cr_ID rec)"
      using b(4) Suc.prems(3) by (auto simp: storable_def)
    from insert_attempts_present [OF Suc.prems(1) this(2,1), of n] True i b step show ?thesis
      by (auto intro: later_trans)
  next
    case False
    then have "r \<noteq> None" "tables_of V w1 = tables_of V w" "faults_left L w1 < faults_left L w" using i by auto
    moreover from this have "faults_left L w2 < n" "n \<noteq> 0" using b(2) Suc.prems(4) by (auto simp: later_def)
    ultimately show ?thesis
      using Suc.IH [of w2] Suc.prems b step by (auto simp: later_def)
  qed
qed simp

lemma persist_stores:
  assumes "store_ready s" and "alive L w" and "storable (tables_of V w) rec" and "faults_left L w \<le> 2"
  shows "\<exists>w'. persist E r cfg rec s w = (s, w') \<and> tables_of V w' = with_rows (tables_of V w) [row_of V rec] \<and> later L w w'"
proof -
  have "persist E r cfg rec s w = insert_attempts E rec 3 s w" using assms(3) by (simp add: persist_def storable_def)
  then show ?thesis using insert_attempts_stores [OF assms(1-3), of 3] assms(4) by auto
qed

lemma Run_stores:
  "store_ready s \<Longrightarrow> alive L w \<Longrightarrow> faults_left L w \<le> 2 \<Longrightarrow> \<forall>rec \<in> set recs. storable (tables_of V w) rec \<Longrightarrow>
   distinct (map cr_ID recs) \<Longrightarrow>
   \<exists>w'. Run E r cfg recs s w = ([], s, w') \<and> tables_of V w' = with_rows (tables_of V w) (map (row_of V) recs)"
proof (induction recs arbitrary: w)
  case (Cons rec recs)
  obtain b w1 where c: "ctx_err E w = (b, w1)" by fastforce
  have w1: "\<not> b" "later L w w1" "tables_of V w1 = tables_of V w" using ctx_err_later [OF c] Cons.prems(2) quietD(2) [OF c] by auto
  obtain w2 where p: "persist E r cfg rec s w1 = (s, w2)" "tables_of V w2 = with_rows (tables_of V w) [row_of V rec]" "later L w1 w2"
    using persist_stores [of s w1 rec r cfg] Cons.prems w1 by (auto simp: later_def)
  have "\<forall>x \<in> set recs. storable (tables_of V w2) x"
    using Cons.prems(4,5) p(2) by (auto simp: storable_def dest: sym)
  moreover have "alive L w2" "faults_left L w2 \<le> 2" using Cons.prems(2,3) w1(2) p(3) by (auto simp: later_def)
  ultimately obtain w3 where "Run E r cfg recs s w2 = ([], s, w3)" "tables_of V w3 = with_rows (tables_of V w2) (map (row_of V) recs)"
    using Cons.IH [OF Cons.prems(1), of w2] Cons.prems(5) by auto
  then show ?case using c w1(1) p by simp
qed simp

lemma shutdown_stores:
  assumes "store_ready s" and "alive L w" and "faults_left L w \<le> 2"
    and "\<forall>rec \<in> set (items q). storable (tables_of V w) rec" and "distinct (map cr_ID (items q))"
  shows "\<exists>q' s' w'. shutdown E cfg r q s w = (q', s', w') \<and> closed q' \<and> items q' = []
    \<and> records (tables_of V w') = records (tables_of V w) @ map (row_of V) (items q)"
proof -
  have i: "items (Close_queue q) = items q" "closed (Close_queue q)" by (simp_all add: Close_queue_def)
  obtain w1 where "Run E r cfg (items q) s w = ([], s, w1)" "tables_of V w1 = with_rows (tables_of V w) (map (row_of V) (items q))"
    using Run_stores [OF assms, of r cfg] by (elim exE conjE) (rule that)
  moreover have "tables_of V (snd (Close E s w1)) = tables_of V w1" by (simp add: Close_def split: option.split)
  ultimately show ?thesis using i by (simp add: shutdown_def Let_def)
qed

end

section \<open>Ending the bootstrap\<close>

text \<open>
  A failed attempt uses up a fault, or the store is still backing off; then it is as before, and
  its next try lies ahead of the clock.
\<close>

definition waits :: "'w outlook \<Rightarrow> store \<Rightarrow> 'w \<Rightarrow> bool" where
  "waits L st w \<longleftrightarrow> (\<exists>t. nextSchemaTry st = Some t \<and> clock_of L w < t)"

definition failed_attempt :: "'w outlook \<Rightarrow> store \<Rightarrow> 'w \<Rightarrow> store option \<Rightarrow> 'w \<Rightarrow> bool" where
  "failed_attempt L st w s1 w1 \<longleftrightarrow> later L w w1 \<and> (\<exists>st1. s1 = Some st1 \<and> store_db st1
     \<and> (faults_left L w1 < faults_left L w \<or> st1 = st \<and> waits L st w))"

context live_services
begin

lemma backing_off_later:
  assumes "backing_off E st w = (off, w')"
  shows "later L w w' \<and> (off \<longrightarrow> waits L st w)"
proof (cases "nextSchemaTry st")
  case (Some t)
  obtain n w1 where n: "time_now E w = (n, w1)" by fastforce
  with time_now_later [OF n] assms Some show ?thesis by (auto simp: backing_off_def waits_def)
qed (use assms in \<open>simp add: backing_off_def\<close>)

lemma schema_failed_later:
  assumes "schema_failed E e st w = (r, s', w')" and "store_db st"
  shows "later L w w' \<and> (\<exists>st'. s' = Some st' \<and> store_db st')"
proof -
  obtain n w1 where n: "time_now E w = (n, w1)" by fastforce
  with time_now_later [OF n] assms show ?thesis by (auto simp: schema_failed_def)
qed

lemma ensureSchema_later:
  assumes "ensureSchema E (Some st) w = (r, s1, w1)" and "store_db st"
  shows "later L w w1 \<and> (\<exists>st1. s1 = Some st1 \<and> store_db st1)
    \<and> (r \<noteq> None \<longrightarrow> faults_left L w1 < faults_left L w \<or> s1 = Some st \<and> waits L st w)"
proof (cases "schemaReady st")
  case False
  obtain off w0 where b: "backing_off E st w = (off, w0)" by fastforce
  obtain r1 w2 where p: "db_ping E w0 = (r1, w2)" by fastforce
  obtain r2 w3 where c: "db_schema E w2 = (r2, w3)" by fastforce
  note l = backing_off_later [OF b] ping_later [OF p] schema_later [OF c]
  consider "off" "s1 = Some st" "w1 = w0"
    | e where "r1 = Some e" "schema_failed E e st w2 = (r, s1, w1)"
    | e where "r1 = None" "r2 = Some e" "schema_failed E (Wrapped ''initialize prompt audit schema: '' e) st w3 = (r, s1, w1)"
    | "r = None" "w1 = w3" "\<exists>st1. s1 = Some st1 \<and> store_db st1"
    using assms False b p c by (auto simp: ensureSchema_def split: option.splits bool.splits)
  then show ?thesis
    by cases (use l assms(2) schema_failed_later in \<open>fastforce simp: later_def\<close>)+
qed (use assms in \<open>auto simp: ensureSchema_def\<close>)

end

text \<open>The arguments the loop is started with: a user name and a hash the table takes.\<close>

definition good_account :: "string \<Rightarrow> string \<Rightarrow> bool" where
  "good_account u h \<longleftrightarrow> trim_space u \<noteq> [] \<and> \<not> varchar_refuses 64 (trim_space u) \<and> h \<noteq> [] \<and> pg_text h"

context admin_db
begin

text \<open>After a successful attempt there is the account; it is new when it is said to be.\<close>

lemma attempt_succeeds:
  assumes "EnsureAdminHash E u h s w = (Inr created, s1, w1)"
  shows "trim_space u \<in> adm_username ` set (admins (tables_of V w1))
    \<and> (created \<longrightarrow> trim_space u \<notin> adm_username ` set (admins (tables_of V w))
         \<and> credentials (tables_of V w1) = credentials (tables_of V w) @ [(trim_space u, h)])"
proof -
  obtain q s0 w0 where q: "ensureSchema E s w = (q, s0, w0)" by (metis prod.collapse)
  have n: "q = None" using assms q by (cases q) (auto simp: EnsureAdminHash_def)
  obtain x w2 where x: "db_insert_admin E (trim_space u) h w0 = (x, w2)" by fastforce
  have r: "w2 = w1" "(\<exists>e. x = Inl e \<and> is_no_rows e \<and> \<not> created) \<or> (\<exists>v. x = Inr v)"
    using assms q n x by (auto simp: EnsureAdminHash_def Let_def split: sum.splits if_splits)
  with insert_admin_law [OF x] ensureSchema_quiet [OF q] show ?thesis
    by (elim disjE exE conjE) (simp_all add: credentials_def)
qed

end

text \<open>
  The order in which the loop makes progress: fewer faults to come, or the same number and the
  end of the back-off nearer.
\<close>

definition bootstrap_order :: "'w outlook \<Rightarrow> ((store \<times> 'w) \<times> (store \<times> 'w)) set" where
  "bootstrap_order L = measures
     [\<lambda>(st, w). faults_left L w,
      \<lambda>(st, w). case nextSchemaTry st of None \<Rightarrow> 0 | Some t \<Rightarrow> nat (t - clock_of L w)]"

lemma wf_bootstrap_order: "wf (bootstrap_order L)"
  by (simp add: bootstrap_order_def)

lemma failed_attempt_order:
  assumes "failed_attempt L st w (Some st1) w1" and "later L w1 w2" and "clock_of L w1 < clock_of L w2"
  shows "((st1, w2), (st, w)) \<in> bootstrap_order L"
  using assms by (auto simp: failed_attempt_def bootstrap_order_def later_def waits_def)

context live_admin_db
begin

lemma attempt_fails:
  assumes "EnsureAdminHash E u h (Some st) w = (Inl e, s1, w1)" and "store_db st" and "good_account u h"
  shows "failed_attempt L st w s1 w1"
proof -
  obtain q s0 w0 where q: "ensureSchema E (Some st) w = (q, s0, w0)" by (metis prod.collapse)
  note l = ensureSchema_later [OF q assms(2)]
  show ?thesis
  proof (cases q)
    case None
    have i: "db_insert_admin E (trim_space u) h w0 = (Inl e, w1)" "\<not> is_no_rows e" "s1 = s0"
      using assms(1,3) q None
      by (auto simp: EnsureAdminHash_def good_account_def Let_def split: prod.splits sum.splits if_splits)
    have "faults_left L w1 < faults_left L w0"
      using insert_admin_executed [OF i(1,2)] assms(3) by (simp add: good_account_def)
    with insert_admin_later [OF i(1)] l i(3) show ?thesis
      by (auto simp: failed_attempt_def later_def)
  next
    case (Some x)
    then have "s1 = s0" "w1 = w0" using assms(1) q by (auto simp: EnsureAdminHash_def)
    with l Some assms(2) show ?thesis by (auto simp: failed_attempt_def)
  qed
qed

lemma bootstrap_ends:
  "store_db st \<Longrightarrow> good_account u h \<Longrightarrow>
   \<exists>ann s' w'. runAdminBootstrap E u p h (Some st) w = Some (ann, s', w')
     \<and> (alive L w \<longrightarrow> trim_space u \<in> adm_username ` set (admins (tables_of V w')))"
proof (induction "(st, w)" arbitrary: st w rule: wf_induct_rule [OF wf_bootstrap_order [of L]])
  case (1 st w)
  obtain x s1 w1 where x: "EnsureAdminHash E u h (Some st) w = (x, s1, w1)" by (metis prod.collapse)
  show ?case
  proof (cases x)
    case (Inr created)
    with x attempt_succeeds [of u h "Some st" w created s1 w1] show ?thesis
      by (simp add: runAdminBootstrap.simps)
  next
    case (Inl e)
    note f = attempt_fails [OF x [unfolded Inl] 1(2,3)]
    then obtain st1 where st1: "s1 = Some st1" "store_db st1" by (auto simp: failed_attempt_def)
    obtain b w2 where d: "wait_done E (seconds 10) w1 = (b, w2)" by fastforce
    then have w2: "later L w1 w2" "alive L w1 \<longrightarrow> \<not> b" "\<not> b \<longrightarrow> clock_of L w1 < clock_of L w2"
      using wait_done_later [OF d] by auto
    show ?thesis
    proof (cases b)
      case True
      with w2 f x Inl d show ?thesis by (auto simp: runAdminBootstrap.simps failed_attempt_def later_def)
    next
      case False
      have "((st1, w2), (st, w)) \<in> bootstrap_order L"
        using failed_attempt_order [OF f [unfolded st1(1)] w2(1)] w2(3) False by blast
      from 1(1) [OF this st1(2) 1(3)] obtain ann s' w' where
        "runAdminBootstrap E u p h (Some st1) w2 = Some (ann, s', w')"
        "alive L w2 \<longrightarrow> trim_space u \<in> adm_username ` set (admins (tables_of V w'))" by auto
      moreover have "alive L w \<longrightarrow> alive L w2" using f w2(1) by (auto simp: failed_attempt_def later_def)
      ultimately show ?thesis using x Inl d False st1 by (auto simp: runAdminBootstrap.simps [of E u p h "Some st" w])
    qed
  qed
qed

end

text \<open>What a finished bootstrap may have done, and when it logs the credentials.\<close>

definition bootstrap_ok :: "'w view \<Rightarrow> string \<Rightarrow> string \<Rightarrow> string \<Rightarrow> 'w \<Rightarrow> (string \<times> string) option \<Rightarrow> 'w \<Rightarrow> bool" where
  "bootstrap_ok V u p h w ann w' \<longleftrightarrow> auth_ok (tables_of V w) (tables_of V w')
     \<and> (ann \<noteq> None \<longrightarrow> ann = Some (u, p) \<and> trim_space u \<notin> adm_username ` set (admins (tables_of V w))
          \<and> credentials (tables_of V w') = credentials (tables_of V w) @ [(trim_space u, h)])"

lemma usernames_credentials: "adm_username ` set (admins T) = fst ` set (credentials T)"
  by (simp add: credentials_def image_image)

context admin_db
begin

lemma attempt_fails_cases:
  assumes "EnsureAdminHash E u h s w = (Inl e, s1, w1)"
  shows "credentials (tables_of V w1) = credentials (tables_of V w) \<or> trim_space u \<in> adm_username ` set (admins (tables_of V w1))"
proof -
  obtain q s0 w0 where q: "ensureSchema E s w = (q, s0, w0)" by (metis prod.collapse)
  obtain x w2 where x: "db_insert_admin E (trim_space u) h w0 = (x, w2)" by fastforce
  have "w1 = w0 \<or> w1 = w2"
    using assms q x by (auto simp: EnsureAdminHash_def Let_def split: option.splits sum.splits if_splits)
  with insert_admin_law [OF x] ensureSchema_quiet [OF q] show ?thesis by (elim disjE conjE) simp_all
qed

lemma bootstrap_step:
  assumes "EnsureAdminHash E u h s w = (Inl e, s1, w1)" and "wait_done E d w1 = (b, w2)"
    and "bootstrap_ok V u p h w2 ann w'"
  shows "bootstrap_ok V u p h w ann w'"
proof -
  have t: "tables_of V w2 = tables_of V w1" using quietD(3) [OF assms(2)] .
  have "auth_ok (tables_of V w) (tables_of V w')"
    using EnsureAdminHash_ok [OF assms(1)] assms(3) t by (auto simp: bootstrap_ok_def intro: auth_ok_trans)
  then show ?thesis
    using attempt_fails_cases [OF assms(1)] assms(3) t by (auto simp: bootstrap_ok_def usernames_credentials)
qed

lemma bootstrap_done:
  "EnsureAdminHash E u h s w = (Inr created, s1, w1) \<Longrightarrow> bootstrap_ok V u p h w (if created then Some (u, p) else None) w1"
  "EnsureAdminHash E u h s w = (Inl e, s1, w1) \<Longrightarrow> wait_done E d w1 = (b, w2) \<Longrightarrow> bootstrap_ok V u p h w None w2"
proof -
  show "EnsureAdminHash E u h s w = (Inr created, s1, w1) \<Longrightarrow> bootstrap_ok V u p h w (if created then Some (u, p) else None) w1"
    using attempt_succeeds [of u h s w created s1 w1] EnsureAdminHash_ok [of u h s w "Inr created" s1 w1]
    by (auto simp: bootstrap_ok_def)
  show "EnsureAdminHash E u h s w = (Inl e, s1, w1) \<Longrightarrow> wait_done E d w1 = (b, w2) \<Longrightarrow> bootstrap_ok V u p h w None w2"
    using EnsureAdminHash_ok [of u h s w "Inl e" s1 w1] quietD(3) [of d w1 b w2] by (simp add: bootstrap_ok_def)
qed

end

lemma bootstrap_result:
  assumes "runAdminBootstrap E u p h s w = Some y" and "admin_db E V"
  shows "bootstrap_ok V u p h w (fst y) (snd (snd y))"
proof (rule runAdminBootstrap.raw_induct [where P = "\<lambda>E u p h s w y. admin_db E V \<longrightarrow> bootstrap_ok V u p h w (fst y) (snd (snd y))",
      OF _ assms(1), THEN mp, OF _ assms(2)], rule impI)
  fix boot :: "'a world \<Rightarrow> string \<Rightarrow> string \<Rightarrow> string \<Rightarrow> store option \<Rightarrow> 'a
     \<Rightarrow> ((string \<times> string) option \<times> store option \<times> 'a) option"
    and E u p h s w y
  assume IH: "\<And>E u p h s w y. boot E u p h s w = Some y \<Longrightarrow> admin_db E V \<longrightarrow> bootstrap_ok V u p h w (fst y) (snd (snd y))"
    and run: "(case EnsureAdminHash E u h s w of
        (Inl e, s1, w1) \<Rightarrow> (case wait_done E (seconds 10) w1 of (ended, w2) \<Rightarrow>
          if ended then Some (None, s1, w2) else boot E u p h s1 w2)
      | (Inr created, s1, w1) \<Rightarrow> Some (if created then Some (u, p) else None, s1, w1)) = Some y"
    and db: "admin_db E V"
  obtain x s1 w1 where x: "EnsureAdminHash E u h s w = (x, s1, w1)" by (metis prod.collapse)
  obtain b w2 where d: "wait_done E (seconds 10) w1 = (b, w2)" by fastforce
  show "bootstrap_ok V u p h w (fst y) (snd (snd y))"
  proof (cases x)
    case (Inr created)
    with run x have "y = (if created then Some (u, p) else None, s1, w1)" by simp
    with admin_db.bootstrap_done(1) [OF db x [unfolded Inr]] show ?thesis by simp
  next
    case (Inl e)
    show ?thesis
    proof (cases b)
      case True
      with run x Inl d have "y = (None, s1, w2)" by simp
      with admin_db.bootstrap_done(2) [OF db x [unfolded Inl] d] show ?thesis by simp
    next
      case False
      with run x Inl d have "boot E u p h s1 w2 = Some y" by simp
      from admin_db.bootstrap_step [OF db x [unfolded Inl] d mp [OF IH [OF this] db]] show ?thesis .
    qed
  qed
qed

section \<open>Retention\<close>

definition only_removes :: "tables \<Rightarrow> tables \<Rightarrow> bool" where
  "only_removes T T' \<longleftrightarrow> subseq (records T') (records T) \<and> subseq (sessions T') (sessions T) \<and> admins T' = admins T"

lemma only_removes_refl [simp]: "only_removes T T"
  by (simp add: only_removes_def)

lemma only_removes_trans: "only_removes T T1 \<Longrightarrow> only_removes T1 T2 \<Longrightarrow> only_removes T T2"
  by (auto simp: only_removes_def intro: subseq_order.trans)

lemma expire_effect:
  assumes "admin_db E V" and "DeleteExpiredAdminSessions E s w = (r, s', w')"
  shows "only_removes (tables_of V w) (tables_of V w') \<and> records (tables_of V w') = records (tables_of V w)"
proof -
  obtain q s0 w0 where q: "ensureSchema E s w = (q, s0, w0)" by (metis prod.collapse)
  have t: "tables_of V w0 = tables_of V w"
    using services.ensureSchema_quiet [OF admin_db.axioms(1) [OF assms(1)] q] .
  show ?thesis
  proof (cases q)
    case None
    then have "db_expire_sessions E w0 = (r, w')"
      using assms(2) q by (auto simp: DeleteExpiredAdminSessions_def split: prod.splits)
    from admin_db.expire_sessions_law [OF assms(1) this] t show ?thesis by (auto simp: only_removes_def)
  next
    case (Some e)
    with assms(2) q t show ?thesis by (auto simp: DeleteExpiredAdminSessions_def)
  qed
qed

lemma cleanup_effect:
  assumes "audit_db E V" and "admin_db E V" and "cleanup E days s w = (s', w')"
  shows "only_removes (tables_of V w) (tables_of V w') \<and> (days \<le> 0 \<longrightarrow> records (tables_of V w') = records (tables_of V w))"
proof -
  obtain s1 w1 where d: "(if 0 < days then snd (DeleteExpired E days s w) else (s, w)) = (s1, w1)" by fastforce
  have w1: "only_removes (tables_of V w) (tables_of V w1) \<and> (days \<le> 0 \<longrightarrow> tables_of V w1 = tables_of V w)"
  proof (cases "0 < days")
    case True
    with d obtain r where "DeleteExpired E days s w = (r, s1, w1)" by (metis prod.collapse)
    from audit_db.DeleteExpired_effect [OF assms(1) this] True show ?thesis by (auto simp: only_removes_def)
  qed (use d in simp)
  obtain r where "DeleteExpiredAdminSessions E s1 w1 = (r, s', w')"
    using assms(3) d by (auto simp: cleanup_def Let_def split: prod.splits) (metis prod.collapse)
  from expire_effect [OF assms(2) this] w1 show ?thesis by (auto intro: only_removes_trans)
qed

lemma retention_ticks_effect:
  assumes "audit_db E V" and "admin_db E V"
  shows "retention_ticks E days n (s, w) = (s', w') \<Longrightarrow>
    only_removes (tables_of V w) (tables_of V w') \<and> (days \<le> 0 \<longrightarrow> records (tables_of V w') = records (tables_of V w))"
proof (induction n arbitrary: s w)
  case (Suc n)
  obtain s1 w1 where c: "cleanup E days s w = (s1, w1)" by fastforce
  from cleanup_effect [OF assms c] Suc.IH [of s1 w1] Suc.prems c show ?case by (auto intro: only_removes_trans)
qed simp

section \<open>Starting\<close>

lemma OpenStore_Some: "\<exists>st w'. OpenStore E True True w = (Some st, w')"
proof -
  obtain r s' w' where e: "ensureSchema E (Some new_store) w = (r, s', w')" by (metis prod.collapse)
  have "s' \<noteq> None"
    using e by (auto simp: ensureSchema_def schema_failed_def Let_def split: prod.splits option.splits bool.splits if_splits)
  with e show ?thesis by (auto simp: OpenStore_def)
qed

lemma resolver_exists:
  "open_ok \<or> blank (IdentityDatabaseURL cfg) \<Longrightarrow> \<exists>r. NewIdentityResolver cfg open_ok a f = Some r"
  using Refresh_Some by (auto simp: NewIdentityResolver_def Let_def)

lemma loaded_basics:
  assumes "LoadConfig url_parse env = Inr cfg"
  shows "1 \<le> QueueSize cfg \<and> HTTPListenAddr cfg \<noteq> [] \<and> (\<exists>u. UpstreamURL cfg = Some u \<and> url_Host u \<noteq> [])"
proof -
  obtain u where c: "cfg = (read_config env)\<lparr>UpstreamURL := Some u\<rparr>" "config_error (read_config env) = None" "http_url u"
    using LoadConfig_InrD [OF assms] by auto
  then show ?thesis
    using read_config_listen [of env] by (auto simp: config_errors http_url_def split: if_splits)
qed

section \<open>Properties\<close>

text \<open>What start-up ends in, whatever the databases answer: a process, or the end of it by the random source or bcrypt.\<close>

lemma main_start_cases:
  assumes "LoadConfig url_parse env = Inr cfg" and "audit_open_ok db" and "schema_read_ok db" and "identity_open_ok db"
  shows "case fst (main_start E url_parse env db w) of
      Inl f \<Rightarrow> (\<exists>e. f = FatalPassword e \<or> f = FatalHash e)
    | Inr sc \<Rightarrow> sc_store sc \<noteq> None \<and> sc_resolver sc \<noteq> None
        \<and> sc_queue sc = \<lparr>items = [], capacity = nat (QueueSize cfg), dropped = 0, closed = False\<rparr> \<and> 1 \<le> capacity (sc_queue sc)
        \<and> p_cfg (sc_proxy sc) = cfg \<and> p_resolver (sc_proxy sc) = sc_resolver sc \<and> sc_listeners sc \<noteq> []"
proof -
  note c = loaded_basics [OF assms(1)]
  obtain st w1 where o: "OpenStore E True True w = (Some st, w1)" using OpenStore_Some [of E w] by (elim exE) (rule that)
  obtain r where r: "NewIdentityResolver cfg True (identity_answer db) (identity_fallback db) = Some r"
    using resolver_exists by blast
  obtain x w2 where x: "bootstrap_password E cfg w1 = (x, w2)" by fastforce
  have good: "\<exists>p. assemble cfg db (Some st) pw h = Inr p \<and> sc_store p = Some st \<and> sc_resolver p = Some r
      \<and> sc_queue p = \<lparr>items = [], capacity = nat (QueueSize cfg), dropped = 0, closed = False\<rparr>
      \<and> p_cfg (sc_proxy p) = cfg \<and> p_resolver (sc_proxy p) = Some r \<and> sc_listeners p \<noteq> []" for pw h
    using c r assms(4) by (auto simp: assemble_def NewRecordQueue_def NewProxyServer_def listeners_of_def)
  show ?thesis
  proof (cases x)
    case (Inl e)
    with o x assms show ?thesis by (simp add: main_start_def)
  next
    case (Inr pw)
    obtain y w3 where y: "hashAdminPassword E pw w2 = (y, w3)" by fastforce
    show ?thesis
    proof (cases y)
      case (Inl e)
      with o x y \<open>x = Inr pw\<close> assms show ?thesis by (simp add: main_start_def)
    next
      case h: (Inr h)
      obtain p where "assemble cfg db (Some st) pw h = Inr p" "sc_store p = Some st" "sc_resolver p = Some r"
        "sc_queue p = \<lparr>items = [], capacity = nat (QueueSize cfg), dropped = 0, closed = False\<rparr>"
        "p_cfg (sc_proxy p) = cfg" "p_resolver (sc_proxy p) = Some r" "sc_listeners p \<noteq> []"
        using good [of pw h] by (elim exE conjE) (rule that)
      moreover have "1 \<le> nat (QueueSize cfg)" using c by linarith
      ultimately show ?thesis using o x y Inr h assms by (simp add: main_start_def)
    qed
  qed
qed

lemma hashAdminPassword_works:
  "pw \<noteq> [] \<Longrightarrow> \<not> isl (fst (bcrypt_generate E pw adminPasswordCost w)) \<Longrightarrow> \<exists>h w'. hashAdminPassword E pw w = (Inr h, w')"
  by (cases "bcrypt_generate E pw adminPasswordCost w"; cases "fst (bcrypt_generate E pw adminPasswordCost w)")
    (auto simp: hashAdminPassword_def)

lemma bootstrap_password_works:
  assumes "services E V" and "\<not> isl (fst (rand_read E 24 w))" and "length (AdminPassword cfg) \<le> 72"
  shows "\<exists>pw w'. bootstrap_password E cfg w = (Inr pw, w') \<and> pw \<noteq> [] \<and> length pw \<le> 72"
proof (cases "AdminPassword cfg = []")
  case True
  obtain bytes v where b: "rand_read E 24 w = (Inr bytes, v)"
    using assms(2) by (cases "rand_read E 24 w"; cases "fst (rand_read E 24 w)") auto
  then have "length bytes = 24" using services.rand_read_length [OF assms(1), of 24 w bytes] by simp
  then have "length (base64_raw_url bytes) = 32" by (simp add: length_base64)
  then have "base64_raw_url bytes \<noteq> [] \<and> length (base64_raw_url bytes) \<le> 72" by auto
  with True b show ?thesis by (simp add: bootstrap_password_def generateAdminPassword_def)
qed (use assms(3) in \<open>simp add: bootstrap_password_def\<close>)

text \<open>
  C27. The sidecar starts without its databases: with an accepted configuration whose administrator
  password, if one is set, has at most 72 bytes, start-up ends in a running process whatever the
  databases answer. The process has a store, a resolver, an open empty queue of the configured
  size, a proxy with this configuration and a listener. \<open>sql.Open\<close> accepts both addresses, the embedded
  schema is read, the random source works, and bcrypt takes passwords of up to 72 bytes.
\<close>

theorem starts_without_databases:
  assumes "services E V" and "LoadConfig url_parse env = Inr cfg" and "length (AdminPassword cfg) \<le> 72"
    and "audit_open_ok db" and "schema_read_ok db" and "identity_open_ok db"
    and "\<forall>n v. \<not> isl (fst (rand_read E n v))"
    and "\<forall>pw c v. pw \<noteq> [] \<and> length pw \<le> 72 \<longrightarrow> \<not> isl (fst (bcrypt_generate E pw c v))"
  shows "\<exists>sc w'. main_start E url_parse env db w = (Inr sc, w')
    \<and> sc_store sc \<noteq> None \<and> sc_resolver sc \<noteq> None
    \<and> sc_queue sc = \<lparr>items = [], capacity = nat (QueueSize cfg), dropped = 0, closed = False\<rparr> \<and> 1 \<le> capacity (sc_queue sc)
    \<and> p_cfg (sc_proxy sc) = cfg \<and> p_resolver (sc_proxy sc) = sc_resolver sc \<and> sc_listeners sc \<noteq> []"
proof -
  obtain st w1 where o: "OpenStore E True True w = (Some st, w1)" using OpenStore_Some [of E w] by (elim exE) (rule that)
  obtain pw w2 where pw: "bootstrap_password E cfg w1 = (Inr pw, w2)" "pw \<noteq> []" "length pw \<le> 72"
    using bootstrap_password_works [OF assms(1) _ assms(3)] assms(7) by blast
  have "\<not> isl (fst (bcrypt_generate E pw adminPasswordCost w2))" using assms(8) pw(2,3) by simp
  from hashAdminPassword_works [OF pw(2) this] obtain h w3 where "hashAdminPassword E pw w2 = (Inr h, w3)"
    by (elim exE) (rule that)
  then have m: "main_start E url_parse env db w = (assemble cfg db (Some st) pw h, w3)"
    using o pw assms(2,4,5) by (simp add: main_start_def)
  note c = main_start_cases [OF assms(2,4-6), of E w, unfolded m fst_conv]
  show ?thesis
  proof (cases "assemble cfg db (Some st) pw h")
    case (Inl f)
    then obtain e where "f = FatalPassword e \<or> f = FatalHash e" using c by auto
    with Inl have False by (auto simp: assemble_def split: option.splits outcome.splits sum.splits)
    then show ?thesis ..
  next
    case (Inr sc)
    with c m show ?thesis by auto
  qed
qed

definition databases_down :: databases where
  "databases_down = \<lparr>audit_open_ok = True, schema_read_ok = True, identity_open_ok = True,
     identity_answer = QueryError, identity_fallback = QueryError\<rparr>"

text \<open>
  A longer password is accepted by \<open>LoadConfig\<close>, which has only a lower bound, but bcrypt refuses it,
  and the process ends at start-up.
\<close>

theorem long_password_fatal:
  assumes "LoadConfig url_parse env = Inr cfg" and "72 < length (AdminPassword cfg)"
    and "\<forall>pw c v. 72 < length pw \<longrightarrow> isl (fst (bcrypt_generate E pw c v))" and "audit_open_ok db" and "schema_read_ok db"
  shows "\<exists>e. fst (main_start E url_parse env db w) = Inl (FatalHash e)"
proof -
  obtain st w1 where o: "OpenStore E True True w = (Some st, w1)" using OpenStore_Some [of E w] by (elim exE) (rule that)
  have p: "bootstrap_password E cfg w1 = (Inr (AdminPassword cfg), w1)" "AdminPassword cfg \<noteq> []"
    using assms(2) by (auto simp: bootstrap_password_def)
  obtain e w2 where "bcrypt_generate E (AdminPassword cfg) adminPasswordCost w1 = (Inl e, w2)"
    using assms(2,3) by (metis isl_def prod.collapse)
  then have "hashAdminPassword E (AdminPassword cfg) w1 = (Inl (Wrapped ''hash admin password: '' e), w2)"
    using p(2) by (simp add: hashAdminPassword_def)
  with o p assms(1,4,5) show ?thesis by (simp add: main_start_def)
qed

definition long_password_env :: environment where
  "long_password_env = sample_env(''PROMPT_AUDIT_ADMIN_PASSWORD'' := replicate 73 (CHR ''p''))"

theorem long_password_fatal_witness:
  "\<exists>e. fst (main_start mem_world sample_parser long_password_env databases_down mem_start) = Inl (FatalHash e)"
proof -
  let ?c = "(read_config long_password_env)\<lparr>UpstreamURL := Some sample_url\<rparr>"
  have "LoadConfig sample_parser long_password_env = Inr ?c" "72 < length (AdminPassword ?c)" by code_simp+
  then show ?thesis
    using long_password_fatal [of sample_parser long_password_env ?c mem_world databases_down mem_start]
    by (simp add: databases_down_def mem_world_def)
qed

theorem starts_without_databases_witness:
  "\<exists>sc w'. main_start mem_world sample_parser sample_env databases_down (mem_start\<lparr>m_faults := replicate 9 FailsBefore\<rparr>) = (Inr sc, w')
     \<and> 1 \<le> capacity (sc_queue sc)"
proof -
  have "length (AdminPassword sample_config) \<le> 72" by code_simp
  then show ?thesis
    using starts_without_databases [OF mem_services.services_axioms sample_loads, of databases_down "mem_start\<lparr>m_faults := replicate 9 FailsBefore\<rparr>"]
    by (auto simp: databases_down_def mem_world_def)
qed

text \<open>
  C26. The bootstrap of the administrator ends: for a user name and hash that fit the table, in
  every world with finitely many database faults to come in which a wait takes its time, through
  outages of the schema and its back-off, the loop stops, and unless the context is cancelled the
  account exists.
\<close>

theorem bootstrap_terminates:
  assumes "live_admin_db E V L" and "store_db st" and "good_account u h"
  shows "\<exists>ann s' w'. runAdminBootstrap E u p h (Some st) w = Some (ann, s', w')
     \<and> (alive L w \<longrightarrow> trim_space u \<in> adm_username ` set (admins (tables_of V w')))"
  using live_admin_db.bootstrap_ends [OF assms] .

definition flaky :: mem where
  "flaky = mem_start\<lparr>m_faults := [FailsBefore, Works, FailsAfter, Works, Works, FailsBefore]\<rparr>"

theorem bootstrap_terminates_witness:
  "\<exists>ann s' m'. runAdminBootstrap mem_world ''admin'' ''pw'' ''hash'' fresh_store flaky = Some (ann, s', m')
     \<and> ''admin'' \<in> adm_username ` set (admins (m_tables m'))"
proof -
  have "good_account ''admin'' ''hash''" by code_simp
  moreover have "store_db new_store" by code_simp
  ultimately show ?thesis
    using bootstrap_terminates [OF mem_live_admin.live_admin_db_axioms, of new_store "''admin''" "''hash''" "''pw''" flaky]
    by (auto simp: admin_trim flaky_def mem_start_def)
qed

text \<open>
  C35. The bootstrap logs the initial credentials only when it has just created the account with
  them: the user name was not there before, and the hash of this password is its hash now. It
  touches no audit record and replaces no existing credential, however often it retries.
\<close>

theorem bootstrap_announces_created:
  assumes "admin_db E V" and "runAdminBootstrap E u p h s w = Some (ann, s', w')"
  shows "prefix (credentials (tables_of V w)) (credentials (tables_of V w'))
    \<and> records (tables_of V w') = records (tables_of V w)
    \<and> (ann \<noteq> None \<longrightarrow> ann = Some (u, p) \<and> trim_space u \<notin> adm_username ` set (admins (tables_of V w))
         \<and> credentials (tables_of V w') = credentials (tables_of V w) @ [(trim_space u, h)])"
  using bootstrap_result [OF assms(2,1)] by (auto simp: bootstrap_ok_def auth_ok_def)

definition booted :: "((string \<times> string) option \<times> store option \<times> mem) option" where
  "booted = runAdminBootstrap mem_world ''admin'' ''pw'' ''hash'' fresh_store mem_start"

theorem bootstrap_announces_created_witness:
  "credentials (m_tables (snd (snd (the booted)))) = credentials (m_tables mem_start) @ [(''admin'', ''hash'')]"
proof -
  have "map_option fst booted = Some (Some (''admin'', ''pw''))" by code_simp
  then obtain s' w' where b: "booted = Some (Some (''admin'', ''pw''), s', w')" by auto
  from bootstrap_announces_created [OF mem_admin.admin_db_axioms this [unfolded booted_def]]
  show ?thesis unfolding b by (simp add: admin_trim)
qed

definition lost_ack :: mem where
  "lost_ack = mem_start\<lparr>m_faults := [Works, Works, FailsAfter]\<rparr>"

text \<open>
  A lost acknowledgement loses the initial password: if the first insert of the account is
  executed but reported as failed, the bootstrap ends with the account in place and never logs
  its credentials, so a generated password is known to nobody.
\<close>

theorem bootstrap_lost_acknowledgement:
  "map_option (\<lambda>(ann, s, m). (ann, map adm_username (admins (m_tables m))))
     (runAdminBootstrap mem_world ''admin'' ''generated'' ''hash'' fresh_store lost_ack) = Some (None, [''admin''])"
  by code_simp

text \<open>
  C36. Retention only removes: through any number of cleanups, with any faults, the records and
  sessions left are some of those before, in their order and unchanged, the administrators stay,
  and without a positive number of days no record is removed.
\<close>

theorem retention_only_removes:
  assumes "audit_db E V" and "admin_db E V" and "runRetention E days ticks s w = (s', w')"
  shows "subseq (records (tables_of V w')) (records (tables_of V w)) \<and> subseq (sessions (tables_of V w')) (sessions (tables_of V w))
    \<and> admins (tables_of V w') = admins (tables_of V w)
    \<and> (days \<le> 0 \<longrightarrow> records (tables_of V w') = records (tables_of V w))"
proof -
  obtain s1 w1 where c: "cleanup E days s w = (s1, w1)" by fastforce
  have "only_removes (tables_of V w) (tables_of V w') \<and> (days \<le> 0 \<longrightarrow> records (tables_of V w') = records (tables_of V w))"
    using cleanup_effect [OF assms(1,2) c] retention_ticks_effect [OF assms(1,2), of days ticks s1 w1 s' w'] assms(3) c
    by (auto simp: runRetention_def intro: only_removes_trans)
  then show ?thesis by (simp add: only_removes_def)
qed

theorem retention_only_removes_witness:
  "records (m_tables (snd (runRetention mem_world 0 3 ready_store admin_mem))) = records (m_tables admin_mem)"
  using retention_only_removes [OF mem_audit.audit_db_axioms mem_admin.admin_db_axioms, of 0 3 ready_store admin_mem]
  by (metis order_refl prod.collapse view_simps(1))

text \<open>
  C12. A graceful shutdown loses nothing: when the queue is closed, the worker stores every record
  still in it that passes its guards and fits the table, once, in the order they were accepted,
  through up to two transient faults; the queue is empty then and accepts nothing more. The store
  has its schema, and the deadline does not pass.
\<close>

theorem shutdown_drains:
  assumes "live_audit_db E V L" and "store_ready s" and "alive L w" and "faults_left L w \<le> 2"
    and "\<forall>rec \<in> set (items q). storable (tables_of V w) rec" and "distinct (map cr_ID (items q))"
  shows "\<exists>q' s' w'. shutdown E cfg r q s w = (q', s', w') \<and> closed q' \<and> items q' = []
    \<and> records (tables_of V w') = records (tables_of V w) @ map (row_of V) (items q)"
  using live_audit_db.shutdown_stores [OF assms] .

definition last_queue :: record_queue where
  "last_queue = \<lparr>items = [sample_capture], capacity = 8, dropped = 0, closed = False\<rparr>"

theorem shutdown_drains_witness:
  "\<exists>q' s' m'. shutdown mem_world sample_config None last_queue ready_store (mem_start\<lparr>m_faults := [FailsBefore, FailsAfter]\<rparr>)
      = (q', s', m') \<and> length (records (m_tables m')) = 1"
proof -
  have "storable (m_tables (mem_start\<lparr>m_faults := [FailsBefore, FailsAfter]\<rparr>)) sample_capture"
    using sample_fits sample_canonical by (simp add: storable_def mem_start_def empty_tables_def sample_capture_def Resolved_def)
  moreover have "store_ready ready_store" by (simp add: store_ready_def ready_store_def new_store_def)
  ultimately show ?thesis
    using shutdown_drains [OF mem_live_audit.live_audit_db_axioms, of ready_store "mem_start\<lparr>m_faults := [FailsBefore, FailsAfter]\<rparr>" last_queue sample_config None]
    by (auto simp: last_queue_def mem_start_def empty_tables_def)
qed

end
