(* ===== verification/Lifecycle_Props.thy ===== *)
theory Lifecycle_Props
  imports Lifecycle Sidecar_Props
begin

text \<open>
  Properties of the running process: no listener goroutine blocks on reporting its error, the
  queue is closed only after all servers have stopped, a shutdown within its time hands every
  accepted record to the store, and a shutdown always ends.
\<close>

section \<open>Lists\<close>

lemma length_filter_update:
  "i < length xs \<Longrightarrow> length (filter P (xs[i := x])) + (if P (xs ! i) then 1 else 0) =
     length (filter P xs) + (if P x then 1 else 0)"
proof (induction xs arbitrary: i)
  case (Cons y ys)
  then show ?case by (cases i) auto
qed simp

section \<open>Invariants of the process\<close>

text \<open>What holds at the start and is kept by every kind of step holds in all reachable states.\<close>

locale process_invariant =
  fixes inv :: "process \<Rightarrow> bool" and ls :: "listener list" and n :: nat
  assumes at_start: "inv (process_start ls n)"
    and by_listeners: "listener_step s s' \<Longrightarrow> ps_main s \<noteq> Finished \<Longrightarrow> inv s \<Longrightarrow> inv s'"
    and by_requests: "request_step s s' \<Longrightarrow> ps_main s \<noteq> Finished \<Longrightarrow> inv s \<Longrightarrow> inv s'"
    and by_workers: "worker_step s s' \<Longrightarrow> ps_main s \<noteq> Finished \<Longrightarrow> inv s \<Longrightarrow> inv s'"
    and by_mains: "main_step s s' \<Longrightarrow> inv s \<Longrightarrow> inv s'"
    and by_outsides: "outside_step s s' \<Longrightarrow> ps_main s \<noteq> Finished \<Longrightarrow> inv s \<Longrightarrow> inv s'"
begin

lemma kept: "process_step s s' \<Longrightarrow> inv s \<Longrightarrow> inv s'"
  by (erule process_step.cases) (blast intro: by_listeners by_requests by_workers by_mains by_outsides)+

lemma reachable: "process_reachable ls n s \<Longrightarrow> inv s"
  by (induction rule: process_reachable.induct) (blast intro: at_start kept)+

end

section \<open>Reports of the listeners\<close>

definition unfinished :: "process \<Rightarrow> nat" where
  "unfinished s = length (filter (\<lambda>srv. srv_point srv \<noteq> Ended) (ps_servers s))"

text \<open>Every listener reports at most once.\<close>

definition reports_inv :: "listener list \<Rightarrow> process \<Rightarrow> bool" where
  "reports_inv ls s \<longleftrightarrow>
     length (ps_servers s) = length ls \<and> length (serverErrors s) + unfinished s \<le> length ls"

lemma unfinished_set_server:
  assumes "i < length (ps_servers s)"
  shows "unfinished (set_server i srv s) + (if srv_point (ps_servers s ! i) \<noteq> Ended then 1 else 0) =
    unfinished s + (if srv_point srv \<noteq> Ended then 1 else 0)"
  using length_filter_update [OF assms, of "\<lambda>srv. srv_point srv \<noteq> Ended" srv] by (simp add: unfinished_def set_server_def)

lemma set_server_frame [simp]:
  "length (ps_servers (set_server i srv s)) = length (ps_servers s)" "serverErrors (set_server i srv s) = serverErrors s"
  "ps_main (set_server i srv s) = ps_main s" "ps_deadline (set_server i srv s) = ps_deadline s"
  "ps_stopped (set_server i srv s) = ps_stopped s" "ps_worker (set_server i srv s) = ps_worker s"
  "ps_queue (set_server i srv s) = ps_queue s" "ps_hijacked (set_server i srv s) = ps_hijacked s"
  "ps_accepted (set_server i srv s) = ps_accepted s" "ps_persisted (set_server i srv s) = ps_persisted s"
  "ps_late (set_server i srv s) = ps_late s" "ps_sessions (set_server i srv s) = ps_sessions s"
  "ps_signalled (set_server i srv s) = ps_signalled s" "serveErr (set_server i srv s) = serveErr s"
  by (simp_all add: set_server_def)

lemma unfinished_frame [simp]:
  "unfinished (serverErrors_update f s) = unfinished s" "unfinished (ps_queue_update g s) = unfinished s"
  "unfinished (ps_main_update h s) = unfinished s" "unfinished (ps_worker_update k s) = unfinished s"
  "unfinished (ps_hijacked_update l s) = unfinished s" "unfinished (ps_sessions_update l s) = unfinished s"
  "unfinished (ps_stopped_update m s) = unfinished s" "unfinished (ps_deadline_update m s) = unfinished s"
  "unfinished (ps_signalled_update m s) = unfinished s" "unfinished (serveErr_update n s) = unfinished s"
  "unfinished (ps_persisted_update p s) = unfinished s" "unfinished (ps_accepted_update p s) = unfinished s"
  "unfinished (ps_late_update l s) = unfinished s"
  by (simp_all add: unfinished_def)

lemma offer_frame [simp]:
  "ps_servers (offer r s) = ps_servers s" "serverErrors (offer r s) = serverErrors s" "ps_main (offer r s) = ps_main s"
  "ps_deadline (offer r s) = ps_deadline s" "ps_stopped (offer r s) = ps_stopped s" "ps_worker (offer r s) = ps_worker s"
  "ps_hijacked (offer r s) = ps_hijacked s" "ps_persisted (offer r s) = ps_persisted s" "ps_sessions (offer r s) = ps_sessions s"
  "unfinished (offer r s) = unfinished s"
  by (simp_all add: offer_def unfinished_def split: prod.split)

lemma reports_listener: "listener_step s s' \<Longrightarrow> reports_inv ls s \<Longrightarrow> reports_inv ls s'"
proof (induction rule: listener_step.induct)
  case (listen_fails i s srv e)
  then show ?case using unfinished_set_server [OF listen_fails(1), of "srv\<lparr>srv_point := Reporting (listener_error (srv_listener srv) e)\<rparr>"]
    by (simp add: reports_inv_def)
next
  case (server_closed i s srv)
  then show ?case using unfinished_set_server [OF server_closed(1), of "srv\<lparr>srv_point := Ended\<rparr>"] by (simp add: reports_inv_def)
next
  case (report i s srv e)
  then show ?case
    using unfinished_set_server [of i "s\<lparr>serverErrors := serverErrors s @ [e]\<rparr>" "srv\<lparr>srv_point := Ended\<rparr>"]
    by (simp add: reports_inv_def)
qed

lemma reports_same_points:
  assumes "i < length (ps_servers s)" and "srv_point srv = srv_point (ps_servers s ! i)"
  shows "unfinished (set_server i srv s) = unfinished s"
  using unfinished_set_server [OF assms(1), of srv] assms(2) by simp

lemma reports_request: "request_step s s' \<Longrightarrow> reports_inv ls s \<Longrightarrow> reports_inv ls s'"
  by (induction rule: request_step.induct) (simp_all add: reports_inv_def reports_same_points)

lemma reports_main: "main_step s s' \<Longrightarrow> reports_inv ls s \<Longrightarrow> reports_inv ls s'"
  by (induction rule: main_step.induct) (simp_all add: reports_inv_def reports_same_points)

lemma reports_worker: "worker_step s s' \<Longrightarrow> reports_inv ls s \<Longrightarrow> reports_inv ls s'"
  by (induction rule: worker_step.induct) (simp_all add: reports_inv_def)

lemma reports_outside: "outside_step s s' \<Longrightarrow> reports_inv ls s \<Longrightarrow> reports_inv ls s'"
  by (induction rule: outside_step.induct) (simp_all add: reports_inv_def)

interpretation reports: process_invariant "reports_inv ls" ls n for ls n
proof unfold_locales
  have "filter (\<lambda>srv. srv_point srv \<noteq> Ended) (map server_of ls) = map server_of ls"
    by (simp add: filter_id_conv server_of_def)
  then show "reports_inv ls (process_start ls n)" by (simp add: reports_inv_def process_start_def unfinished_def)
qed (blast intro: reports_listener reports_request reports_worker reports_main reports_outside)+

section \<open>The order of the shutdown\<close>

text \<open>The servers whose \<open>Shutdown\<close> has returned.\<close>

definition passed :: "process \<Rightarrow> nat" where
  "passed s = (case ps_main s of Waiting \<Rightarrow> 0 | Stopping i \<Rightarrow> i | Draining \<Rightarrow> length (ps_servers s) | Finished \<Rightarrow> length (ps_servers s))"

definition quiet_server :: "bool \<Rightarrow> server \<Rightarrow> bool" where
  "quiet_server late srv \<longleftrightarrow> srv_closing srv \<and> (late \<or> srv_active srv = 0)"

text \<open>The queue is closed only when every server has stopped or the time is over.\<close>

definition order_inv :: "process \<Rightarrow> bool" where
  "order_inv s \<longleftrightarrow>
     passed s \<le> length (ps_servers s) \<and> (\<forall>j < passed s. quiet_server (ps_deadline s) (ps_servers s ! j))
     \<and> (closed (ps_queue s) \<longleftrightarrow> ps_main s = Draining \<or> ps_main s = Finished)
     \<and> (ps_stopped s \<longleftrightarrow> ps_main s = Finished)
     \<and> ps_hijacked s \<le> ps_sessions s
     \<and> (0 < ps_late s \<longrightarrow> ps_deadline s \<or> 0 < ps_sessions s)"

lemma passed_set_server [simp]: "passed (set_server i srv s) = passed s"
  by (simp add: passed_def split: main_point.split)

lemma quiet_after_update:
  assumes "\<forall>j < k. quiet_server late (ps_servers s ! j)"
    and "i < k \<Longrightarrow> quiet_server late (ps_servers s ! i) \<Longrightarrow> quiet_server late srv"
  shows "\<forall>j < k. quiet_server late (ps_servers (set_server i srv s) ! j)"
proof (intro allI impI)
  fix j assume "j < k"
  with assms show "quiet_server late (ps_servers (set_server i srv s) ! j)"
    by (cases "j = i"; cases "i < length (ps_servers s)") (auto simp: set_server_def list_update_beyond not_less)
qed

lemma order_set_server:
  assumes "order_inv s" and "quiet_server (ps_deadline s) (ps_servers s ! i) \<Longrightarrow> quiet_server (ps_deadline s) srv"
  shows "order_inv (set_server i srv s)"
  using assms quiet_after_update [of "passed s" "ps_deadline s" s i srv] by (simp add: order_inv_def)

lemma order_listener: "listener_step s s' \<Longrightarrow> order_inv s \<Longrightarrow> order_inv s'"
proof (induction rule: listener_step.induct)
  case (report i s srv e)
  then have "order_inv (s\<lparr>serverErrors := serverErrors s @ [e]\<rparr>)" by (simp add: order_inv_def passed_def cong: main_point.case_cong)
  then show ?case by (rule order_set_server) (simp add: report quiet_server_def)
qed (auto intro!: order_set_server simp: quiet_server_def)

lemma Enqueue_closed: "closed (snd (Enqueue r q)) = closed q"
  by (simp add: Enqueue_def)

lemma offer_closed [simp]: "closed (ps_queue (offer r s)) = closed (ps_queue s)"
  using Enqueue_closed [of r "ps_queue s"] by (cases "Enqueue r (ps_queue s)") (simp add: offer_def)

lemma passed_offer [simp]: "passed (offer r s) = passed s"
  by (simp add: passed_def cong: main_point.case_cong)

lemma order_request: "request_step s s' \<Longrightarrow> order_inv s \<Longrightarrow> order_inv s'"
proof (induction rule: request_step.induct)
  case (hijack i s srv)
  then have "order_inv (s\<lparr>ps_hijacked := ps_hijacked s + 1, ps_sessions := ps_sessions s + 1\<rparr>)"
    by (simp add: order_inv_def passed_def cong: main_point.case_cong)
  then show ?case by (rule order_set_server) (use hijack in \<open>simp add: quiet_server_def\<close>)
next
  case (capture s r)
  have "ps_deadline s \<or> 0 < ps_sessions s" if "closed (ps_queue s)"
  proof (cases "0 < ps_hijacked s")
    case False
    with capture.hyps obtain j where "j < length (ps_servers s)" "0 < srv_active (ps_servers s ! j)"
      by (auto simp: in_set_conv_nth)
    moreover have "passed s = length (ps_servers s)" using capture.prems that by (auto simp: order_inv_def passed_def)
    ultimately show ?thesis using capture.prems by (auto simp: order_inv_def quiet_server_def)
  qed (use capture.prems in \<open>simp add: order_inv_def\<close>)
  then show ?case using capture.prems
    by (auto simp: order_inv_def) (auto simp: offer_def split: prod.splits if_splits)
qed (auto intro!: order_set_server simp: quiet_server_def, auto simp: order_inv_def passed_def cong: main_point.case_cong)

lemma order_worker: "worker_step s s' \<Longrightarrow> order_inv s \<Longrightarrow> order_inv s'"
  by (induction rule: worker_step.induct) (simp_all add: order_inv_def passed_def cong: main_point.case_cong)

lemma order_main: "main_step s s' \<Longrightarrow> order_inv s \<Longrightarrow> order_inv s'"
proof (induction rule: main_step.induct)
  case (shutdown_begins s i srv)
  then show ?case by (auto intro!: order_set_server simp: quiet_server_def)
next
  case (shutdown_returns s i srv)
  then show ?case by (auto simp: order_inv_def passed_def quiet_server_def less_Suc_eq)
qed (auto simp: order_inv_def passed_def Close_queue_def)

lemma order_outside: "outside_step s s' \<Longrightarrow> order_inv s \<Longrightarrow> order_inv s'"
  by (induction rule: outside_step.induct) (auto simp: order_inv_def passed_def quiet_server_def cong: main_point.case_cong)

interpretation order: process_invariant order_inv ls n for ls n
proof unfold_locales
  show "order_inv (process_start ls n)" by (simp add: order_inv_def process_start_def passed_def)
qed (blast intro: order_listener order_request order_worker order_main order_outside)+

section \<open>No accepted record is forgotten\<close>

fun in_hand :: "worker_point \<Rightarrow> capture_record list" where
  "in_hand (Checking r) = [r]"
| "in_hand _ = []"

definition worker_inv :: "process \<Rightarrow> bool" where
  "worker_inv s \<longleftrightarrow>
     ps_accepted s = ps_persisted s @ in_hand (ps_worker s) @ items (ps_queue s)
     \<and> (ps_worker s = WorkerDone \<longrightarrow> items (ps_queue s) = [] \<and> closed (ps_queue s))
     \<and> (ps_stopped s \<longrightarrow> ps_main s = Finished)
     \<and> (ps_main s = Finished \<longrightarrow> ps_worker s = WorkerDone \<or> ps_deadline s)"

lemma worker_listener: "listener_step s s' \<Longrightarrow> worker_inv s \<Longrightarrow> worker_inv s'"
  by (induction rule: listener_step.induct) (simp_all add: worker_inv_def)

lemma worker_request: "request_step s s' \<Longrightarrow> worker_inv s \<Longrightarrow> worker_inv s'"
  by (induction rule: request_step.induct) (auto simp: worker_inv_def offer_def Enqueue_def)

lemma worker_worker: "worker_step s s' \<Longrightarrow> ps_main s \<noteq> Finished \<Longrightarrow> worker_inv s \<Longrightarrow> worker_inv s'"
  by (induction rule: worker_step.induct) (auto simp: worker_inv_def)

lemma worker_main: "main_step s s' \<Longrightarrow> worker_inv s \<Longrightarrow> worker_inv s'"
  by (induction rule: main_step.induct) (auto simp: worker_inv_def Close_queue_def)

lemma worker_outside: "outside_step s s' \<Longrightarrow> worker_inv s \<Longrightarrow> worker_inv s'"
  by (induction rule: outside_step.induct) (auto simp: worker_inv_def)

interpretation worker: process_invariant worker_inv ls n for ls n
proof unfold_locales
  show "worker_inv (process_start ls n)" by (simp add: worker_inv_def process_start_def)
qed (blast intro: worker_listener worker_request worker_worker worker_main worker_outside)+

section \<open>The end of a shutdown\<close>

text \<open>How many steps the main goroutine has left at most.\<close>

definition main_left :: "process \<Rightarrow> nat" where
  "main_left s =
     (case ps_main s of
        Waiting \<Rightarrow> 2 * length (ps_servers s) + 3
      | Stopping i \<Rightarrow> 2 * (length (ps_servers s) - i) + 2
          - (if i < length (ps_servers s) \<and> srv_closing (ps_servers s ! i) then 1 else 0)
      | Draining \<Rightarrow> 1
      | Finished \<Rightarrow> 0)"

lemma main_left_set_server:
  assumes "i < length (ps_servers s)" and "srv_closing (ps_servers s ! i) \<Longrightarrow> srv_closing srv"
  shows "main_left (set_server i srv s) \<le> main_left s"
  using assms by (auto simp: main_left_def set_server_def nth_list_update split: main_point.split)

lemma main_left_frame [simp]:
  "main_left (serverErrors_update f s) = main_left s" "main_left (ps_queue_update g s) = main_left s"
  "main_left (ps_worker_update k s) = main_left s" "main_left (ps_hijacked_update l s) = main_left s"
  "main_left (ps_sessions_update l s) = main_left s" "main_left (ps_deadline_update m s) = main_left s"
  "main_left (ps_signalled_update m s) = main_left s" "main_left (ps_persisted_update p s) = main_left s"
  "main_left (offer r s) = main_left s"
  by (simp_all add: main_left_def cong: main_point.case_cong)

lemma main_left_listener: "listener_step s s' \<Longrightarrow> main_left s' \<le> main_left s"
proof (induction rule: listener_step.induct)
  case (report i s srv e)
  then show ?case using main_left_set_server [of i "s\<lparr>serverErrors := serverErrors s @ [e]\<rparr>" "srv\<lparr>srv_point := Ended\<rparr>"] by simp
qed (auto intro!: main_left_set_server)

lemma main_left_request: "request_step s s' \<Longrightarrow> main_left s' \<le> main_left s"
proof (induction rule: request_step.induct)
  case (hijack i s srv)
  then show ?case
    using main_left_set_server [of i "s\<lparr>ps_hijacked := ps_hijacked s + 1, ps_sessions := ps_sessions s + 1\<rparr>"
        "srv\<lparr>srv_active := srv_active srv - 1\<rparr>"] by simp
qed (auto intro!: main_left_set_server)

lemma main_left_worker: "worker_step s s' \<Longrightarrow> main_left s' \<le> main_left s"
  by (induction rule: worker_step.induct) simp_all

lemma main_left_outside: "outside_step s s' \<Longrightarrow> main_left s' \<le> main_left s"
  by (induction rule: outside_step.induct) simp_all

lemma main_left_main: "main_step s s' \<Longrightarrow> main_left s' < main_left s"
  by (induction rule: main_step.induct) (auto simp: main_left_def set_server_def)

lemma main_left_step: "process_step s s' \<Longrightarrow> main_left s' \<le> main_left s"
  by (erule process_step.cases)
    (auto dest: main_left_listener main_left_request main_left_worker main_left_outside main_left_main)

text \<open>Once the time is over nothing holds the main goroutine up.\<close>

lemma main_can_step:
  assumes "order_inv s" and "ps_main s \<noteq> Finished" and "ps_main s = Waiting \<Longrightarrow> ps_signalled s \<or> serverErrors s \<noteq> []"
    and "ps_main s \<noteq> Waiting \<Longrightarrow> ps_deadline s"
  shows "\<exists>s'. main_step s s'"
proof (cases "ps_main s")
  case Waiting
  then show ?thesis using assms(3) see_signal [of s] see_error [of s] by (cases "serverErrors s") auto
next
  case (Stopping i)
  have d: "ps_deadline s" using assms(4) Stopping by simp
  have "i \<le> length (ps_servers s)" using assms(1) Stopping by (simp add: order_inv_def passed_def)
  then consider "i = length (ps_servers s)" | "i < length (ps_servers s)" "srv_closing (ps_servers s ! i)"
    | "i < length (ps_servers s)" "\<not> srv_closing (ps_servers s ! i)" by linarith
  then show ?thesis
    by cases (use Stopping d close_queue [of s] shutdown_returns [of s i] shutdown_begins [of s i] in blast)+
next
  case Draining
  then show ?thesis using assms(4) out_of_time [of s] by auto
qed (use assms(2) in simp)

section \<open>Properties\<close>

text \<open>
  C13. A shutdown that ends in time loses no accepted record: when the main goroutine has returned
  and the shutdown context had not expired, every record the queue ever accepted was handed to
  \<open>persist\<close>, in order and once, the queue is closed and empty, and no server has a request left. If
  there was no WebSocket session, no record was offered after the queue was closed either; the
  servers do not wait for sessions, which may still offer records then.
\<close>

theorem graceful_shutdown_complete:
  assumes "process_reachable (listeners_of cfg) n s" and "ps_main s = Finished" and "\<not> ps_deadline s"
  shows "ps_persisted s = ps_accepted s \<and> items (ps_queue s) = [] \<and> closed (ps_queue s)
    \<and> (\<forall>srv \<in> set (ps_servers s). srv_closing srv \<and> srv_active srv = 0)
    \<and> (ps_sessions s = 0 \<longrightarrow> ps_late s = 0)"
proof -
  have w: "worker_inv s" and o: "order_inv s"
    using worker.reachable [OF assms(1)] order.reachable [OF assms(1)] .
  then have "ps_worker s = WorkerDone" using assms(2,3) by (simp add: worker_inv_def)
  moreover have "passed s = length (ps_servers s)" using assms(2) by (simp add: passed_def)
  ultimately show ?thesis
    using w o assms(3) by (auto simp: worker_inv_def order_inv_def quiet_server_def in_set_conv_nth)
qed

text \<open>One request that is captured, then a signal and a shutdown within its time.\<close>

definition served_once :: process where
  "served_once = (process_start (listeners_of sample_config) 8)\<lparr>ps_accepted := [sample_capture], ps_persisted := [sample_capture]\<rparr>"

definition stopped_process :: process where
  "stopped_process = served_once\<lparr>ps_servers := [(server_of (PlainListener '':8090''))\<lparr>srv_closing := True\<rparr>],
     ps_signalled := True, ps_main := Finished, ps_stopped := True, ps_worker := WorkerDone,
     ps_queue := \<lparr>items = [], capacity = 8, dropped = 0, closed = True\<rparr>\<rparr>"

lemma sample_listeners: "listeners_of sample_config = [PlainListener '':8090'']"
  by code_simp

lemma served_once_reachable: "process_reachable (listeners_of sample_config) 8 served_once"
proof -
  let ?s0 = "process_start (listeners_of sample_config) 8"
  let ?s1 = "set_server 0 ((ps_servers ?s0 ! 0)\<lparr>srv_active := srv_active (ps_servers ?s0 ! 0) + 1\<rparr>) ?s0"
  let ?s2 = "offer sample_capture ?s1"
  let ?s3 = "?s2\<lparr>ps_worker := Checking sample_capture, ps_queue := (ps_queue ?s2)\<lparr>items := []\<rparr>\<rparr>"
  let ?s4 = "?s3\<lparr>ps_worker := Receiving, ps_persisted := ps_persisted ?s3 @ [sample_capture]\<rparr>"
  let ?srv4 = "ps_servers ?s4 ! 0"
  let ?s5 = "set_server 0 (?srv4\<lparr>srv_active := srv_active ?srv4 - 1\<rparr>) ?s4"
  note defs = process_start_def sample_listeners set_server_def offer_def Enqueue_def server_of_def
  have 1: "process_step ?s0 ?s1" by (rule by_request, simp add: defs, rule begin_request [OF _ refl]) (simp_all add: defs)
  have 2: "process_step ?s1 ?s2" by (rule by_request, simp add: defs, rule capture) (simp add: defs)
  have 3: "process_step ?s2 ?s3" by (rule by_worker, simp add: defs, rule take_record) (simp_all add: defs)
  have 4: "process_step ?s3 ?s4" by (rule by_worker, simp add: defs, rule persist_record) (simp_all add: defs)
  have 5: "process_step ?s4 ?s5" by (rule by_request, simp add: defs, rule end_request [OF _ refl]) (simp_all add: defs)
  have "?s5 = served_once" by (simp add: defs served_once_def)
  with process_next [OF process_next [OF process_next [OF process_next [OF process_next [OF process_init 1] 2] 3] 4] 5] show ?thesis by simp
qed

lemma stopped_process_reachable: "process_reachable (listeners_of sample_config) 8 stopped_process"
proof -
  let ?s1 = "served_once\<lparr>ps_signalled := True\<rparr>"
  let ?s2 = "?s1\<lparr>ps_main := Stopping 0\<rparr>"
  let ?s3 = "set_server 0 ((ps_servers ?s2 ! 0)\<lparr>srv_closing := True\<rparr>) ?s2"
  let ?s4 = "?s3\<lparr>ps_main := Stopping (0 + 1)\<rparr>"
  let ?s5 = "?s4\<lparr>ps_queue := Close_queue (ps_queue ?s4), ps_main := Draining\<rparr>"
  let ?s6 = "?s5\<lparr>ps_worker := WorkerDone\<rparr>"
  let ?s7 = "?s6\<lparr>ps_stopped := True, ps_main := Finished\<rparr>"
  note defs = served_once_def process_start_def sample_listeners set_server_def server_of_def Close_queue_def
  have 1: "process_step served_once ?s1" by (rule by_outside, simp add: defs, rule signal)
  have 2: "process_step ?s1 ?s2" by (rule by_main, rule see_signal) (simp_all add: defs)
  have 3: "process_step ?s2 ?s3" by (rule by_main, rule shutdown_begins [OF _ _ refl]) (simp_all add: defs)
  have 4: "process_step ?s3 ?s4" by (rule by_main, rule shutdown_returns [OF _ _ refl]) (simp_all add: defs)
  have 5: "process_step ?s4 ?s5" by (rule by_main, rule close_queue) (simp add: defs)
  have 6: "process_step ?s5 ?s6" by (rule by_worker, simp add: defs, rule worker_ends) (simp_all add: defs)
  have 7: "process_step ?s6 ?s7" by (rule by_main, rule worker_done) (simp_all add: defs)
  have "?s7 = stopped_process" by (simp add: defs stopped_process_def)
  moreover have "process_reachable (listeners_of sample_config) 8 ?s4"
    using process_next [OF process_next [OF process_next [OF process_next [OF served_once_reachable 1] 2] 3] 4] .
  ultimately show ?thesis using process_next [OF process_next [OF process_next [OF _ 5] 6] 7] by simp
qed

theorem graceful_shutdown_complete_witness:
  "ps_persisted stopped_process = [sample_capture] \<and> ps_late stopped_process = 0"
  using graceful_shutdown_complete [OF stopped_process_reachable]
  by (simp add: stopped_process_def served_once_def process_start_def)

text \<open>
  C25. A shutdown always ends: the main goroutine has at most two steps for each server and three
  more, no other goroutine, request or event gives it more, and once a signal or a listener
  error has arrived, and later the shutdown time is over, its next step is never blocked, not
  even by requests or records that never end. A listener that fails is never blocked on reporting it.
\<close>

theorem shutdown_ends:
  assumes "process_reachable (listeners_of cfg) n s"
  shows "main_left s \<le> 2 * length (listeners_of cfg) + 3
    \<and> (\<forall>s'. process_step s s' \<longrightarrow> main_left s' \<le> main_left s)
    \<and> (\<forall>s'. main_step s s' \<longrightarrow> main_left s' < main_left s)
    \<and> (ps_main s \<noteq> Finished \<and> (if ps_main s = Waiting then ps_signalled s \<or> serverErrors s \<noteq> [] else ps_deadline s)
         \<longrightarrow> (\<exists>s'. main_step s s'))
    \<and> (\<forall>i e. i < length (ps_servers s) \<and> srv_point (ps_servers s ! i) = Reporting e
         \<longrightarrow> (\<exists>s'. listener_step s s' \<and> serverErrors s' = serverErrors s @ [e]))"
proof (intro conjI allI impI)
  have r: "reports_inv (listeners_of cfg) s" using reports.reachable [OF assms] .
  then have n: "length (ps_servers s) = length (listeners_of cfg)" by (simp add: reports_inv_def)
  then show "main_left s \<le> 2 * length (listeners_of cfg) + 3"
    by (auto simp: main_left_def split: main_point.split)
  fix i e assume e: "i < length (ps_servers s) \<and> srv_point (ps_servers s ! i) = Reporting e"
  then have "0 < unfinished s" using nth_mem [of i "ps_servers s"]
    by (auto simp: unfinished_def filter_empty_conv intro!: bexI [of _ "ps_servers s ! i"])
  moreover have "length (listeners_of cfg) \<le> 2" by (simp add: listeners_of_def)
  ultimately have "length (serverErrors s) < 2" using r by (simp add: reports_inv_def)
  then have "listener_step s (set_server i ((ps_servers s ! i)\<lparr>srv_point := Ended\<rparr>) (s\<lparr>serverErrors := serverErrors s @ [e]\<rparr>))"
    using e by (intro report) auto
  then show "\<exists>s'. listener_step s s' \<and> serverErrors s' = serverErrors s @ [e]"
    by (intro exI conjI, assumption) simp
qed (use main_left_step main_left_main main_can_step [OF order.reachable [OF assms]] in \<open>auto split: if_splits\<close>)

theorem shutdown_ends_witness: "main_left served_once \<le> 5"
proof -
  have "main_left served_once \<le> 2 * length (listeners_of sample_config) + 3"
    using shutdown_ends [OF served_once_reachable] by (rule conjunct1)
  then show ?thesis by (simp add: sample_listeners)
qed

end
