(* ===== verification/Form_Props.thy ===== *)
theory Form_Props
  imports Audit_Props
begin

text \<open>
  The audit copy of forms: the fields of an url-encoded form that are recorded, and the parts of
  a multipart form that can reach the audit copy at all.
\<close>

section \<open>Texts of forms\<close>

lemma texts_add_values [adds_texts]: "texts (add_values e k vs) = texts e @ nonblank vs"
  by (induction e k vs rule: add_values.induct) (simp_all add: adds_texts)

lemma texts_add_form_fields [adds_texts]:
  "texts (add_form_fields e vals ks) = texts e @ nonblank (concat (map vals ks))"
  by (induction e vals ks rule: add_form_fields.induct) (simp_all add: adds_texts)

definition form_media :: "string \<Rightarrow> bool" where
  "form_media ct \<longleftrightarrow> fst (parse_media_type ct) = ''application/x-www-form-urlencoded''"

section \<open>Parts of multipart forms\<close>

text \<open>A part whose content may be recorded: a prompt field that is not a file.\<close>

definition prompt_part :: "header \<Rightarrow> bool" where
  "prompt_part h \<longleftrightarrow> isPromptField (to_lower (trim_space (FormName h))) \<and> FileName h = []"

text \<open>What the audit may see of a multipart body: its prompt parts, and where it breaks off.\<close>

fun visible_part :: "next_part \<Rightarrow> bool" where
  "visible_part (Part h content) = prompt_part h"
| "visible_part PartError = True"

lemma multipart_loop_visible: "multipart_loop e (filter visible_part ps) = multipart_loop e ps"
  by (induction e ps rule: multipart_loop.induct) (auto simp: prompt_part_def Let_def split: prod.split)

section \<open>Properties\<close>

text \<open>
  C15. An url-encoded form is recorded exactly: of the fields a client sends, the values of the
  five prompt fields that are not blank, field by field in the order of the code and each in the
  order of the form, and nothing of any other field; the stored prompt is their concatenation,
  cut to the configured size.
\<close>

theorem form_texts_exact:
  assumes "form_media ct" and "kvs \<noteq> []" and "\<not> exceeds (max_form_params lib) (length kvs)"
  shows "map Text (Messages (ExtractRequest lib path ct (encode_form kvs) m))
           = nonblank (concat (map (field_values kvs) promptFieldNames))
       \<and> PromptText (ExtractRequest lib path ct (encode_form kvs) m)
           = truncateUTF8 (join (nonblank (concat (map (field_values kvs) promptFieldNames))) paragraph_break) m"
proof -
  have "encode_form kvs \<noteq> []"
    using assms(2) by (cases kvs rule: remdups_adj.cases) (auto simp: encode_form_def encode_field_def)
  then have x: "ExtractRequest lib path ct (encode_form kvs) m =
      finalize (extractFormValues lib (new_extraction path) (encode_form kvs)) m"
    using assms by (simp add: ExtractRequest_def extract_body_def form_media_def)
  have "extractFormValues lib (new_extraction path) (encode_form kvs) =
      set_partial (add_form_fields (new_extraction path) (field_values kvs) promptFieldNames)"
    using assms by (simp add: extractFormValues_def parse_encode_form)
  then have t: "texts (extractFormValues lib (new_extraction path) (encode_form kvs)) =
      nonblank (concat (map (field_values kvs) promptFieldNames))"
    by (simp add: adds_texts) (simp add: new_extraction_def)
  then show ?thesis
    using form_body.run_prompt [of "new_extraction path" lib "encode_form kvs" m] by (simp add: x)
qed

definition sample_form :: "(string \<times> string) list" where
  "sample_form = [(''text'', ''b & c''), (''system'', ''secret''), (''prompt'', ''hi''), (''text'', '' '')]"

theorem form_texts_exact_witness:
  "map Text (Messages (ExtractRequest form_limits ''/v1/x'' ''application/x-www-form-urlencoded'' (encode_form sample_form) 1024))
     = [''hi'', ''b & c'']"
proof -
  have "form_media ''application/x-www-form-urlencoded''" by code_simp
  moreover have "sample_form \<noteq> []" "\<not> exceeds (max_form_params form_limits) (length sample_form)" by code_simp+
  moreover have "nonblank (concat (map (field_values sample_form) promptFieldNames)) = [''hi'', ''b & c'']" by code_simp
  ultimately show ?thesis
    using form_texts_exact [of "''application/x-www-form-urlencoded''" sample_form form_limits "''/v1/x''" 1024] by simp
qed

text \<open>
  C14. Uploaded files never influence the audit copy: two non-empty multipart bodies that deliver
  the same prompt fields in the same order, up to the same read error if there is one, give the
  same audit copy, whatever files and other fields, and however many, stand between them.
\<close>

theorem multipart_noninterference:
  assumes "parse_media_type ct = (''multipart/form-data'', params, err)" and "params ''boundary'' = Some b"
    and "filter visible_part (multipart_parts lib b body) = filter visible_part (multipart_parts lib b body')"
    and "body \<noteq> []" and "body' \<noteq> []"
  shows "ExtractRequest lib path ct body m = ExtractRequest lib path ct body' m"
proof -
  have "multipart_loop e (multipart_parts lib b body) = multipart_loop e (multipart_parts lib b body')" for e
    using multipart_loop_visible assms(3) by metis
  with assms show ?thesis by (simp add: ExtractRequest_def extract_body_def extractMultipart_def Let_def)
qed

definition disposition_header :: "string \<Rightarrow> header" where
  "disposition_header v = [(''Content-Disposition'', [v])]"

text \<open>A reader that delivers every byte of the body as an uploaded file, followed by a prompt.\<close>

definition upload_lib :: wire_lib where
  "upload_lib = form_limits\<lparr>multipart_parts := (\<lambda>b body.
     map (\<lambda>c. Part (disposition_header ''form-data; name=prompt; filename=a.txt'') (bytes_reader [c])) body
     @ [Part (disposition_header ''form-data; name=prompt'') (bytes_reader ''hi'')])\<rparr>"

theorem multipart_noninterference_witness:
  "ExtractRequest upload_lib ''/v1/x'' ''multipart/form-data; boundary=sep'' ''secret'' 1024
     = ExtractRequest upload_lib ''/v1/x'' ''multipart/form-data; boundary=sep'' ''other'' 1024
   \<and> map Text (Messages (ExtractRequest upload_lib ''/v1/x'' ''multipart/form-data; boundary=sep'' ''other'' 1024)) = [''hi'']"
proof
  have up: "\<not> prompt_part (disposition_header ''form-data; name=prompt; filename=a.txt'')" by code_simp
  obtain mt params err where m: "parse_media_type ''multipart/form-data; boundary=sep'' = (mt, params, err)"
    by (cases "parse_media_type ''multipart/form-data; boundary=sep''")
  have "fst (parse_media_type ''multipart/form-data; boundary=sep'') = ''multipart/form-data''"
    "fst (snd (parse_media_type ''multipart/form-data; boundary=sep'')) ''boundary'' = Some ''sep''" by code_simp+
  with m have "parse_media_type ''multipart/form-data; boundary=sep'' = (''multipart/form-data'', params, err)"
    "params ''boundary'' = Some ''sep''" by simp_all
  then show "ExtractRequest upload_lib ''/v1/x'' ''multipart/form-data; boundary=sep'' ''secret'' 1024
     = ExtractRequest upload_lib ''/v1/x'' ''multipart/form-data; boundary=sep'' ''other'' 1024"
    by (rule multipart_noninterference) (simp_all add: upload_lib_def up)
  have "map Text (Messages (extract_body upload_lib (new_extraction ''/v1/x'') ''multipart/form-data; boundary=sep'' ''other'')) = [''hi'']"
    by code_simp
  then show "map Text (Messages (ExtractRequest upload_lib ''/v1/x'' ''multipart/form-data; boundary=sep'' ''other'' 1024)) = [''hi'']"
    by (simp add: ExtractRequest_def)
qed

end
