(* ===== verification/Spec2Isabelle.thy ===== *)
theory Spec2Isabelle
  imports Proxy_Props Admin_Props Lifecycle_Props Form_Props
begin

text \<open>
  Verification of the prompt-audit sidecar (\<open>src/*.go\<close>): a gateway in front of an LLM API that
  forwards every request unchanged and keeps an audit copy of the prompts users send.

  \<^bold>\<open>The program.\<close> \<open>main.go\<close> loads the configuration (\<open>config.go\<close>), opens the audit store
  (\<open>store.go\<close>) and the directory of API keys (\<open>identity.go\<close>), starts the worker of a bounded
  queue (\<open>queue.go\<close>) and serves HTTP. \<open>proxy.go\<close> dispatches a request: health checks and the
  administration (\<open>admin.go\<close>, \<open>auth.go\<close>) are answered by the sidecar, WebSocket requests are
  relayed (\<open>websocket.go\<close>), all others go to the upstream. On the way the body of a chosen
  request, or a text frame, is given to the extractor (\<open>extractor.go\<close>, \<open>model.go\<close>), and the
  record made of it is offered to the queue. The worker resolves the user and inserts the record
  into Postgres; administrators list and review records.

  \<^bold>\<open>The theories.\<close>
  \<^item> \<open>Prelude\<close>: outcomes of calls that may panic, shared lemmas and collections of rules.
  \<^item> \<open>Unicode_Case\<close>, \<open>Go_Text\<close>, \<open>Utf8_Facts\<close>, \<open>Go_Crypto\<close>, \<open>Go_Io\<close>, \<open>Go_Http\<close>, \<open>Go_Query\<close>, \<open>Go_Url\<close>,
    \<open>Go_Proxy\<close>, \<open>Go_Mime\<close>, \<open>Go_Time\<close>, \<open>Json\<close>, \<open>Json_Facts\<close>: what the program uses of the Go library, as
    executable functions on bytes (UTF-8 and case mapping, SHA-256 and HMAC, readers with errors,
    headers, query strings and cookies, printing of URLs, the rewriting of requests by the reverse
    proxy, media types, durations and RFC 3339 times, JSON decoding) and facts on them.
  \<^item> \<open>Model\<close> (\<open>model.go\<close>), \<open>Extractor\<close> (\<open>extractor.go\<close>): one definition for each Go function, the
    mutated extraction passed as a value. \<open>Extractor_Invariant\<close>, \<open>Extractor_Spec\<close>, \<open>Redaction\<close> and
    \<open>Audit_Copy\<close> hold the invariant of extractions, the specification of the user texts of a
    request, what may be left out of it, and the lemmas; \<open>Audit_Props\<close> and \<open>Form_Props\<close> the
    properties.
  \<^item> \<open>Config\<close> (\<open>config.go\<close>) and \<open>Identity\<close> (\<open>identity.go\<close>) with their properties.
  \<^item> \<open>World\<close>: everything outside the process (database, clock, contexts, random numbers, UUIDs,
    bcrypt) as a record of calls over an abstract state, one for each SQL statement the code
    sends, and the locales \<open>services\<close>, \<open>audit_db\<close> and \<open>admin_db\<close> with the laws the code relies on. What
    the code is to reach rests on three more, \<open>live_services\<close>, \<open>live_audit_db\<close> and \<open>live_admin_db\<close>: finitely
    many faults to come, waits that take their time, and contexts that are not cancelled while they
    are alive. \<open>Table_World\<close> interprets all of them by in-memory tables under arbitrary faults: a
    statement may work, fail, or be executed and still report an error. That instance shows that
    the laws can hold, and the witnesses run in it; the properties are stated of any world with the
    laws, and speak of the instance only where they show that a failure is possible.
  \<^item> \<open>Store\<close> (\<open>store.go\<close>), \<open>Store_Facts\<close>, \<open>Store_Props\<close>; \<open>Auth\<close> (\<open>auth.go\<close>), \<open>Auth_Props\<close>: the state
    is the store record and the world, passed explicitly; an error is a value of \<open>go_error\<close>.
  \<^item> \<open>Queue\<close> (\<open>queue.go\<close>): the queue as atomic operations, with the locale \<open>bounded_queue\<close>, and the
    worker. \<open>Queue_Steps\<close> has the same queue as steps of goroutines on the lock, the flag, the
    counter and the channel; \<open>Queue_Props\<close> relates the two.
  \<^item> \<open>Capture\<close> and \<open>Proxy\<close> (\<open>proxy.go\<close>), \<open>Websocket\<close> (\<open>websocket.go\<close>), \<open>Response\<close> and \<open>Admin\<close>
    (\<open>admin.go\<close>), \<open>Sidecar\<close> (\<open>main.go\<close>: start, bootstrap, retention, shutdown), with
    \<open>Proxy_Props\<close>, \<open>Admin_Props\<close> and \<open>Sidecar_Props\<close>. \<open>Websocket_Steps\<close> has the end of a WebSocket session
    as steps of its two goroutines and the closing of the connections, which \<open>Websocket\<close> refines to
    the frames that were read and written.
  \<^item> \<open>Lifecycle\<close> (\<open>main.go\<close>): the running process as steps of its listener goroutines, the
    requests, the worker and the main goroutine; \<open>Lifecycle_Props\<close> with the locale
    \<open>process_invariant\<close> and its instances.
  \<^item> This theory: the path of a prompt through all of them, and how a prompt misses the log.

  \<^bold>\<open>What is shown.\<close>
  \<^item> The audit copy: it does not depend on content it must not hold, its texts are those of the
    specification in order, the prompt is the longest valid UTF-8 prefix within the limit, excluded
    roles are counted, every extraction is well formed. Of a form exactly the prompt fields are
    recorded, and uploaded files never influence the copy.
  \<^item> The request path: a request reaches the upstream unchanged but for the correlation ids,
    exactly the audited requests are captured, neither the store nor the tables are touched, and
    frames are relayed in order.
  \<^item> The queue: no panic, no loss and first-in-first-out under every interleaving, refinement of
    the atomic queue, exact accounting of dropped records; the worker writes a record at most once
    and only past its guards; a shutdown drains the queue.
  \<^item> The store: the invariant of the tables under every sequence of operations and faults, an
    append-only log, round trips of records, pages and reviews, query texts without values, the
    back-off and recovery of the schema.
  \<^item> The administration: nothing is disclosed or changed without a credential, captured columns
    cannot be rewritten, login and logout, bounded queries.
  \<^item> The process: it starts without its databases, the bootstrap of the administrator ends and
    logs credentials only for an account it created, retention only removes, settings are read as
    they are written. Under every interleaving a shutdown within its time hands all accepted
    records to \<open>persist\<close>, and a shutdown always ends.
  \<^item> Behaviour that the documentation does not promise: a panic of \<open>modelFromPath\<close> that keeps a
    request from the upstream, prompts the table refuses for ever, Gemini contents of other roles,
    the overflow of the capture limit, a lost initial password, a password too long for bcrypt, a
    logout whose delete fails, the encoding of a path that a WebSocket request loses, and a request
    id that a client can keep from the upstream.

  \<^bold>\<open>Bounds and fuel.\<close> The JSON parser takes fuel \<open>2 * length + 2\<close>, which \<open>Json_Facts\<close> proves to be
  enough, and has Go's depth limit of 10000. Attempts are counted as in the code (three lookups,
  three inserts, three session tokens). \<open>runAdminBootstrap\<close> may run for ever and is a partial
  function; it is shown to end when the faults to come are finite. Loops over
  ticks (identity refresh, retention) take the number of ticks as an argument. The drop counter
  is a 64-bit word, \<open>maxBytes+1\<close> is 64-bit arithmetic, and durations are parsed with the 64-bit
  sums and the rounding to 53 bits of the library.

  \<^bold>\<open>Not modelled.\<close> TCP and TLS; the inside of \<open>http.Server\<close>, of the HTTP transport, of the
  WebSocket library and of the Postgres driver (their results are parameters or steps); deadlines
  of contexts other than as the result of the call they bound; log output other than the initial
  credentials; the JSON bytes of responses (a response holds the value it encodes); the HTML pages
  under \<open>src/web\<close>; the column \<open>created_at\<close>. \<open>url.Parse\<close> of the upstream address, the splitting of a
  multipart body into parts and the limits of the runtime on parameters and cookies are arguments
  for which the theorems hold whatever they are.
\<close>

section \<open>From a request to its row\<close>

text \<open>The row of a record keeps what the record says.\<close>

lemma row_of_columns:
  "col_prompt_text (row_of V rec) = cr_PromptText rec" "col_request_id (row_of V rec) = cr_RequestID rec"
  "col_client_request_id (row_of V rec) = cr_ClientRequestID rec" "col_user_id (row_of V rec) = UserID (cr_Identity rec)"
  "col_username_snapshot (row_of V rec) = Username (cr_Identity rec)" "col_email_snapshot (row_of V rec) = Email (cr_Identity rec)"
  "col_api_key_id (row_of V rec) = APIKeyID (cr_Identity rec)" "col_endpoint (row_of V rec) = cr_Endpoint rec"
  "col_prompt_sha256 (row_of V rec) = cr_PromptSHA256 rec"
  "col_review_status (row_of V rec) = ''pending''" "col_message_count (row_of V rec) = int (cr_MessageCount rec)"
  by (simp_all add: row_of_def stored_row_def insert_args_def with_defaults_def insert_row.defs)

text \<open>Whether a record fits the table does not depend on its time and its ids, as long as they are safe.\<close>

lemma fits_with_ids:
  assumes "fits_schema (insert_args (record_of p r x y i0 t0 e))" and "safe_id a" and "safe_id b"
  shows "fits_schema (insert_args (record_of p (with_correlation a b r) a b ident t e))"
  using assms safe_id_varchar [OF assms(2)] safe_id_varchar [OF assms(3)]
  by (simp add: fits_schema_def insert_args_def record_of_def capture_of_def api_keys_unaffected)

text \<open>The records a queue has, and the one that is offered to it, under ids that are not used yet.\<close>

definition fresh_ids :: "'w world \<Rightarrow> 'w view \<Rightarrow> record_queue \<Rightarrow> 'w \<Rightarrow> bool" where
  "fresh_ids E V q w \<longleftrightarrow> (\<forall>v. fst (new_uuid E v) \<notin> col_id ` set (records (tables_of V w)) \<union> cr_ID ` set (items q))"

lemma drained_after_offer:
  assumes "live_audit_db E V L" and "store_ready s" and "alive L w" and "faults_left L w \<le> 2"
    and "\<forall>x \<in> set (items q). storable (tables_of V w) x" and "distinct (map cr_ID (items q))"
    and "length (items q) < capacity q" and "\<not> closed q" and "storable (tables_of V w) rec" and "cr_ID rec \<notin> cr_ID ` set (items q)"
  shows "\<exists>q' s' w'. shutdown E cfg res (snd (Enqueue rec q)) s w = (q', s', w') \<and> items q' = []
    \<and> records (tables_of V w') = records (tables_of V w) @ map (row_of V) (items q) @ [row_of V rec]"
proof -
  have "items (snd (Enqueue rec q)) = items q @ [rec]" using assms(7,8) by (simp add: Enqueue_def)
  then show ?thesis
    using live_audit_db.shutdown_stores [OF assms(1-4), of "snd (Enqueue rec q)" cfg res] assms(5,6,9,10) by auto
qed

text \<open>
  C2. A prompt that is sent through the gateway ends up in the audit log. An audited request with at
  least one message and a known user is forwarded, and if the process then shuts down, its row is
  the last of the log, behind the records that were waiting: with the extracted prompt and its
  hash, the user and the API key, the path, the review pending, and as request id and client
  request id the values of the headers \<open>X-Request-ID\<close> and \<open>X-Client-Request-ID\<close> of the forwarded
  request. The upstream gets this request id too, unless the client has named the header in
  \<open>Connection\<close>. This holds in every world that obeys the laws, for an ASCII path, a limit on captured
  bytes below the largest 64-bit number, a queue that is open and has room, a store whose schema is
  ready, at most two database faults and no deadline until the end, new UUIDs that are not in use,
  and records that fit the table.
\<close>

theorem request_becomes_row:
  assumes "live_audit_db E V L" and "proxied p r" and "ascii (req_Path r)" and "MaxCaptureBytes (p_cfg p) < 2 ^ 63 - 1"
    and "audited lib (p_cfg p) r = Some e" and "Messages e \<noteq> []"
    and "Resolved (Lookup (p_resolver p) (extractAPIKey (req_Header r)))"
    and "length (items q) < capacity q" and "\<not> closed q" and "distinct (map cr_ID (items q))"
    and "\<forall>x \<in> set (items q). storable (tables_of V w) x"
    and "store_ready s" and "alive L w" and "faults_left L w \<le> 2" and "fresh_ids E V q w"
    and "fits_schema (insert_args (record_of p r ''0'' ''0'' [] 0 e))"
  shows "\<exists>r1 resp q1 w1 q2 s2 w2 row. ServeHTTP E lib alib peers p r s q w = Return (Forwarded r1 resp, s, q1, w1)
    \<and> shutdown E (p_cfg p) (p_resolver p) q1 s w1 = (q2, s2, w2) \<and> items q2 = []
    \<and> records (tables_of V w2) = records (tables_of V w) @ map (row_of V) (items q) @ [row]
    \<and> header_values (req_Header r1) ''X-Request-ID'' = [col_request_id row]
    \<and> header_values (req_Header r1) ''X-Client-Request-ID'' = [col_client_request_id row]
    \<and> (\<forall>out. outbound_of (p_target p) r1 = Some out \<and> \<not> rewritten (req_Header r) ''X-Request-ID'' \<longrightarrow>
         header_values (ob_Header out) ''X-Request-ID'' = [col_request_id row])
    \<and> col_prompt_text row = PromptText e \<and> col_prompt_sha256 row = PromptSHA256 e
    \<and> col_message_count row = int (length (Messages e)) \<and> col_endpoint row = req_Path r
    \<and> col_user_id row = UserID (Lookup (p_resolver p) (extractAPIKey (req_Header r)))
    \<and> col_username_snapshot row = Username (Lookup (p_resolver p) (extractAPIKey (req_Header r)))
    \<and> col_api_key_id row = APIKeyID (Lookup (p_resolver p) (extractAPIKey (req_Header r)))
    \<and> col_review_status row = ''pending''"
proof -
  have db: "audit_db E V" "live_services E V L" "services E V"
    using assms(1) by (simp_all add: live_audit_db_def audit_db_def)
  obtain a v1 where a: "correlationID E (header_get (req_Header r) ''X-Request-ID'') w = (a, v1)" by fastforce
  obtain b v2 where b: "correlationID E (header_get (req_Header r) ''X-Client-Request-ID'') v1 = (b, v2)" by fastforce
  let ?r = "with_correlation a b r"
  obtain v u w1 where serve: "ServeHTTP E lib alib peers p r s q w = Return (Forwarded ?r (forward (p_target p) (round_trip peers) ?r), s,
        snd (Enqueue (record_of p ?r a b (fst (new_uuid E v)) (fst (time_now E u)) e) q), w1)"
    using ServeHTTP_proxied [OF assms(2-4) a b, where s = s and q = q and lib = lib and alib = alib and peers = peers] assms(5)
    by (elim exE) (simp add: that)
  let ?rec = "record_of p ?r a b (fst (new_uuid E v)) (fst (time_now E u)) e"
  have d: "describes p r e ?rec" using assms(3) by (rule record_of_describes)
  have n: "\<not> health_path (req_Path r)" "\<not> admin_path (req_Path r)" using assms(2) by (simp_all add: proxied_def)
  have t: "tables_of V w1 = tables_of V w"
    using observation.ServeHTTP_calm [OF services_observation [OF db(3)] n serve]
    by (simp add: observation.calm_def [OF services_observation [OF db(3)]])
  have l: "later L w w1"
    using observation.ServeHTTP_calm [OF live_observation [OF db(2)] n serve]
    by (simp add: observation.calm_def [OF live_observation [OF db(2)]])
  have "safe_id a" "safe_id b" using correlationID_safe_id [OF db(1) a] correlationID_safe_id [OF db(1) b] .
  from fits_with_ids [OF assms(16) this] have "storable (tables_of V w1) ?rec"
    using d assms(6,7,15) audit_db.new_uuid_canonical [OF db(1)] by (simp add: storable_def describes_def t fresh_ids_def)
  then obtain q2 s2 w2 where s2: "shutdown E (p_cfg p) (p_resolver p) (snd (Enqueue ?rec q)) s w1 = (q2, s2, w2)" "items q2 = []"
    "records (tables_of V w2) = records (tables_of V w) @ map (row_of V) (items q) @ [row_of V ?rec]"
    using drained_after_offer [OF assms(1,12), of w1 q ?rec "p_cfg p" "p_resolver p"] assms(8-11,13,14,15) l
    by (auto simp: t later_def fresh_ids_def)
  have "header_values (ob_Header out) ''X-Request-ID'' = [a]"
    if "outbound_of (p_target p) ?r = Some out" "\<not> rewritten (req_Header r) ''X-Request-ID''" for out
    using that outbound_header_keeps [of ?r "''X-Request-ID''"]
    by (auto simp: outbound_of_def rewritten_def with_correlation_tokens with_correlation_ids split: if_splits)
  with serve s2 d show ?thesis
    by (intro exI [of _ ?r] exI [of _ "row_of V ?rec"] exI conjI) (auto simp: row_of_columns describes_def with_correlation_ids)
qed

definition known_user :: identity where
  "known_user = \<lparr>UserID = Some 42, Username = ''ann'', Email = [], APIKeyID = Some 7, APIKeyName = ''ci'', IdentitySource = ''api_key_map''\<rparr>"

definition known_proxy :: proxy where
  "known_proxy = sample_proxy\<lparr>p_resolver := Some \<lparr>has_db = True, secret = ''k'', refresh = 1, entries = (\<lambda>_. Some known_user)\<rparr>\<rparr>"

definition keyed_post :: request where
  "keyed_post = chat_post\<lparr>req_Header := req_Header chat_post @ [(''Authorization'', [''Bearer sk-1''])]\<rparr>"

definition chat_parsed :: extraction where
  "chat_parsed = extractJSONByProtocol ((new_extraction ''/v1/chat/completions'')\<lparr>ModelName := modelFromJSON (JObject (chat_object ''A''))\<rparr>)
     (JObject (chat_object ''A''))"

lemma known_lookup: "Lookup (p_resolver known_proxy) (extractAPIKey (req_Header keyed_post)) = known_user"
proof -
  have "blank (extractAPIKey (req_Header keyed_post)) \<longleftrightarrow> False" by code_simp
  then show ?thesis by (simp add: Lookup_def known_proxy_def)
qed

lemma keyed_post_audited:
  "audited form_limits (p_cfg known_proxy) keyed_post = Some (finalize chat_parsed (MaxPromptBytes sample_config))"
proof -
  have "shouldCapture sample_config keyed_post" "capturable_headers (req_Header keyed_post)" by code_simp+
  moreover have "header_get (req_Header keyed_post) ''Content-Type'' = ''application/json''" by code_simp
  moreover have "req_Body keyed_post = Some (bytes_reader chat_body_a)" "req_Path keyed_post = ''/v1/chat/completions''"
    by (simp_all add: keyed_post_def chat_post_def)
  moreover have "Messages chat_parsed \<noteq> []" using chat_post_extracted by (auto simp: chat_parsed_def)
  ultimately show ?thesis
    using chat_post_chosen
    by (simp add: audited_def bytes_reader_def Let_def ExtractRequest_json [OF json_medias(2) chat_bodies(1)]
        chat_parsed_def known_proxy_def sample_proxy_def)
qed

lemma hex_digit_fits: "d < 16 \<Longrightarrow> safe_rune (byte (hex_digit d))"
  by (auto simp: hex_digit_def safe_rune_def byte_char_of)

lemma hex_encode_safe: "list_all (\<lambda>c. safe_rune (byte c)) (hex_encode s)"
proof (induction s)
  case (Cons c s)
  have "byte c < 256" by (simp add: byte_def)
  then have "byte c div 16 < 16" "byte c mod 16 < 16" by simp_all
  with Cons show ?case by (simp add: hex_encode_def hex_digit_fits)
qed (simp add: hex_encode_def)

lemma sha_column: "varchar 64 (hex_encode (sha256 s)) \<and> length (hex_encode (sha256 s)) = 64"
proof -
  have l: "length (hex_encode (sha256 s)) = 64" by (simp add: length_hex_encode length_sha256)
  then have "safe_id (hex_encode (sha256 s))" using hex_encode_safe [of "sha256 s"] by (auto simp: safe_id_def)
  from safe_id_varchar [OF this] safe_id_runes [OF this] l show ?thesis by (simp add: varchar_def)
qed

lemma chat_columns:
  "varchar 64 (Protocol chat_parsed)" "varchar 255 (ModelName chat_parsed)" "ModelName chat_parsed = []"
  "modelFromPath ''/v1/chat/completions'' = Return []"
  "list_all (\<lambda>m. pg_text (Text m) \<and> pg_text (Source m)) (marshal_messages (Messages chat_parsed))"
  "pg_text (truncateUTF8 (fullPrompt (Messages chat_parsed)) (MaxPromptBytes sample_config))"
  "length (Messages chat_parsed) = 1" "Status chat_parsed = []"
  by code_simp+

lemma keyed_record_fits:
  "fits_schema (insert_args (record_of known_proxy keyed_post ''0'' ''0'' [] 0 (finalize chat_parsed (MaxPromptBytes sample_config))))"
proof -
  have c: "varchar 128 ''0''" "varchar 255 ''ann''" "varchar 255 ''ci''" "varchar 255 []" "varchar 32 ''api_key_map''"
    "pg_text ''/v1/chat/completions''" "varchar 32 ''parsed''" "varchar 32 ''empty''" by code_simp+
  moreover have "req_Path keyed_post = ''/v1/chat/completions''" by (simp add: keyed_post_def chat_post_def)
  ultimately show ?thesis
    using chat_columns sha_column
    by (simp add: fits_schema_def insert_args_def record_of_def capture_of_def with_model_def known_lookup known_user_def)
qed

theorem request_becomes_row_witness:
  "\<exists>r1 resp q1 m1 q2 s2 m2 row. ServeHTTP mem_world form_limits no_admin_lib sample_peers known_proxy keyed_post ready_store
      empty_queue (mem_start\<lparr>m_faults := [FailsAfter]\<rparr>) = Return (Forwarded r1 resp, ready_store, q1, m1)
    \<and> shutdown mem_world sample_config (p_resolver known_proxy) q1 ready_store m1 = (q2, s2, m2)
    \<and> records (m_tables m2) = [row] \<and> col_user_id row = Some 42
    \<and> header_values (req_Header r1) ''X-Request-ID'' = [col_request_id row]"
proof -
  let ?m = "mem_start\<lparr>m_faults := [FailsAfter]\<rparr>"
  have p: "proxied known_proxy keyed_post" "ascii (req_Path keyed_post)" "MaxCaptureBytes (p_cfg known_proxy) < 2 ^ 63 - 1"
    by code_simp+
  have e: "Messages (finalize chat_parsed (MaxPromptBytes sample_config)) \<noteq> []" using chat_columns by auto
  have i: "Resolved (Lookup (p_resolver known_proxy) (extractAPIKey (req_Header keyed_post)))"
    by (simp add: known_lookup known_user_def Resolved_def)
  have q: "length (items empty_queue) < capacity empty_queue" "\<not> closed empty_queue" "distinct (map cr_ID (items empty_queue))"
    "\<forall>x \<in> set (items empty_queue). storable (tables_of mem_view ?m) x" "items empty_queue = []" by (simp_all add: empty_queue_def)
  have m: "store_ready ready_store" "alive mem_outlook ?m" "faults_left mem_outlook ?m \<le> 2" "fresh_ids mem_world mem_view empty_queue ?m"
    "records (tables_of mem_view ?m) = []"
    by (simp_all add: store_ready_def ready_store_def new_store_def mem_start_def empty_tables_def fresh_ids_def empty_queue_def)
  have "p_cfg known_proxy = sample_config" by (simp add: known_proxy_def sample_proxy_def)
  with request_becomes_row [OF mem_live_audit.live_audit_db_axioms p keyed_post_audited e i q(1-4) m(1-4) keyed_record_fits,
      of no_admin_lib sample_peers] m(5) q(5)
  show ?thesis by (auto simp: known_lookup known_user_def)
qed

section \<open>A request that is not audited\<close>

lemma refused_any_user:
  assumes "describes p r e rec" and "varchar_refuses 255 (ModelName e) \<or> \<not> pg_text (PromptText e)"
  shows "schema_refuses (insert_args (rec\<lparr>cr_Identity := i\<rparr>))"
proof -
  have "\<not> varchar_refuses 255 []" by code_simp
  with assms show ?thesis by (auto simp: schema_refuses_def insert_args_def describes_def split: if_splits)
qed

text \<open>
  C39. A client can keep a prompt out of the log: if a request that is to be audited has a prompt with
  a NUL, or a model name of more than 255 characters that are not just spaces, it is forwarded, but
  no attempt of the worker can store its record, and after a shutdown the log is as it was. The
  queue was empty, the path is ASCII and the limit on captured bytes below the largest 64-bit number.
\<close>

theorem refused_prompt_unaudited:
  assumes "audit_db E V" and "proxied p r" and "ascii (req_Path r)" and "MaxCaptureBytes (p_cfg p) < 2 ^ 63 - 1"
    and "audited lib (p_cfg p) r = Some e" and "varchar_refuses 255 (ModelName e) \<or> \<not> pg_text (PromptText e)" and "items q = []"
  shows "\<exists>r1 resp q1 w1 q2 s2 w2. ServeHTTP E lib alib peers p r s q w = Return (Forwarded r1 resp, s, q1, w1)
    \<and> shutdown E (p_cfg p) (p_resolver p) q1 s w1 = (q2, s2, w2) \<and> tables_of V w2 = tables_of V w"
proof -
  have db: "services E V" using assms(1) by (simp add: audit_db_def)
  obtain a v1 where a: "correlationID E (header_get (req_Header r) ''X-Request-ID'') w = (a, v1)" by fastforce
  obtain b v2 where b: "correlationID E (header_get (req_Header r) ''X-Client-Request-ID'') v1 = (b, v2)" by fastforce
  let ?r = "with_correlation a b r"
  obtain v u w1 where serve: "ServeHTTP E lib alib peers p r s q w = Return (Forwarded ?r (forward (p_target p) (round_trip peers) ?r), s,
        snd (Enqueue (record_of p ?r a b (fst (new_uuid E v)) (fst (time_now E u)) e) q), w1)"
    using ServeHTTP_proxied [OF assms(2-4) a b, where s = s and q = q and lib = lib and alib = alib and peers = peers] assms(5)
    by (elim exE) (simp add: that)
  let ?rec = "record_of p ?r a b (fst (new_uuid E v)) (fst (time_now E u)) e"
  define q1 where "q1 = snd (Enqueue ?rec q)"
  have "\<not> health_path (req_Path r)" "\<not> admin_path (req_Path r)" using assms(2) by (simp_all add: proxied_def)
  then have t: "tables_of V w1 = tables_of V w"
    using observation.ServeHTTP_calm [OF services_observation [OF db] _ _ serve]
    by (simp add: observation.calm_def [OF services_observation [OF db]])
  have i: "\<forall>x \<in> set (items (Close_queue q1)). \<forall>i. schema_refuses (insert_args (x\<lparr>cr_Identity := i\<rparr>))"
    using refused_any_user [OF record_of_describes [OF assms(3)] assms(6)] assms(7)
    by (simp add: q1_def Enqueue_def Close_queue_def)
  obtain left s2 w2 where run: "Run E (p_resolver p) (p_cfg p) (items (Close_queue q1)) s w1 = (left, s2, w2)" by (metis prod.collapse)
  have "tables_of V (snd (Close E s2 w2)) = tables_of V w2"
    using services.close_quiet [OF db] by (simp add: Close_def split: option.split)
  with audit_db.Run_refused [OF assms(1) run i] t have "tables_of V (snd (Close E s2 w2)) = tables_of V w" by simp
  with serve run show ?thesis unfolding q1_def [symmetric] by (simp add: shutdown_def Let_def)
qed

definition nul_body :: string where
  "nul_body = quoted (''{~messages~:[{~role~:~user~,~content~:~hi'' @ [char_of (92 :: nat)] @ ''u0000~}]}'')"

definition nul_post :: request where
  "nul_post = keyed_post\<lparr>req_Body := Some (bytes_reader nul_body)\<rparr>"

definition nul_object :: json_object where
  "nul_object = [(''messages'', JArray [JObject [(''content'', JString (''hi'' @ [char_of (0 :: nat)])), (''role'', JString ''user'')]])]"

definition nul_parsed :: extraction where
  "nul_parsed = extractJSONByProtocol ((new_extraction ''/v1/chat/completions'')\<lparr>ModelName := modelFromJSON (JObject nul_object)\<rparr>)
     (JObject nul_object)"

lemma nul_post_audited:
  "audited form_limits (p_cfg known_proxy) nul_post = Some (finalize nul_parsed (MaxPromptBytes sample_config))"
proof -
  have "shouldCapture sample_config nul_post" "capturable_headers (req_Header nul_post)" "0 < MaxCaptureBytes sample_config"
    "int (length nul_body) \<le> MaxCaptureBytes sample_config" by code_simp+
  moreover have "header_get (req_Header nul_post) ''Content-Type'' = ''application/json''" by code_simp
  moreover have "req_Body nul_post = Some (bytes_reader nul_body)" "req_Path nul_post = ''/v1/chat/completions''"
    by (simp_all add: nul_post_def keyed_post_def chat_post_def)
  moreover have "Messages nul_parsed = [] \<longleftrightarrow> False" by code_simp
  moreover have "json_unmarshal nul_body = Some (JObject nul_object)" by code_simp
  ultimately show ?thesis
    by (simp add: audited_def bytes_reader_def Let_def ExtractRequest_json [OF json_medias(2)]
        nul_parsed_def known_proxy_def sample_proxy_def)
qed

theorem refused_prompt_unaudited_witness:
  "\<exists>r1 resp q1 m1 q2 s2 m2. ServeHTTP mem_world form_limits no_admin_lib sample_peers known_proxy nul_post ready_store empty_queue mem_start
      = Return (Forwarded r1 resp, ready_store, q1, m1)
    \<and> shutdown mem_world sample_config (p_resolver known_proxy) q1 ready_store m1 = (q2, s2, m2) \<and> m_tables m2 = m_tables mem_start"
proof -
  have p: "proxied known_proxy nul_post" "ascii (req_Path nul_post)" "MaxCaptureBytes (p_cfg known_proxy) < 2 ^ 63 - 1"
    by code_simp+
  have "pg_text (truncateUTF8 (fullPrompt (Messages nul_parsed)) (MaxPromptBytes sample_config)) \<longleftrightarrow> False" by code_simp
  then have "\<not> pg_text (PromptText (finalize nul_parsed (MaxPromptBytes sample_config)))" by simp
  moreover have "items empty_queue = []" "p_cfg known_proxy = sample_config"
    by (simp_all add: empty_queue_def known_proxy_def sample_proxy_def)
  ultimately show ?thesis
    using refused_prompt_unaudited [OF mem_audit.audit_db_axioms p nul_post_audited, of empty_queue no_admin_lib sample_peers ready_store mem_start]
    by simp
qed

end
